theory Spec2Isabelle
  imports Complex_Main "HOL-Library.Sublist" "HOL-Library.Log_Nat"
begin

section \<open>Data model\<close>

text \<open>
  The service is one HTTP handler (\<^verbatim>\<open>POST /render\<close>) over a shared headless browser.
  Two versions of the server are in the repository: \<^verbatim>\<open>server.js\<close>, whose
  \<^verbatim>\<open>withPage\<close> makes a single attempt, and the later server text kept at the end of
  \<^verbatim>\<open>swagger.js\<close>, whose \<^verbatim>\<open>getBrowser\<close> probes the browser and whose
  \<^verbatim>\<open>withPage\<close> retries. Everything else in the two texts is identical.

  The numbers of a request that the schema restricts to integers are \<open>int\<close>, and those
  it only bounds or passes on (requested pixel ratio, clip coordinates) are \<open>rat\<close>. The
  numbers the code computes with (the limits read from the environment, the sizes of a
  preset, the viewport) are JavaScript numbers, \<open>number\<close>. Strings are \<open>string\<close>. A
  thrown value is an \<open>Error\<close> with its message, or \<open>undefined\<close>.
\<close>

section \<open>JavaScript numbers\<close>

text \<open>A JavaScript number is an IEEE 754 double: \<^verbatim>\<open>NaN\<close>, an infinity, or a finite
  value, kept as the rational it denotes. The two zeros are one value here: they compare
  equal, are both falsy and both print as \<^verbatim>\<open>0\<close>. \<^verbatim>\<open>Number(process.env.X || d)\<close> is
  not checked by the code, so a limit can be any of these.\<close>

datatype number = NaN | Infinity | Minus_Infinity | Num rat

definition pow2 :: "int \<Rightarrow> rat" where
  "pow2 e = (if 0 \<le> e then 2 ^ nat e else 1 / 2 ^ nat (- e))"

text \<open>The binary exponent of a rational \<open>x \<noteq> 0\<close>: the \<open>e\<close> with
  \<^verbatim>\<open>2^e <= |x| < 2^(e+1)\<close>, found from the bit lengths of numerator and denominator.\<close>

definition binade :: "rat \<Rightarrow> int" where
  "binade x =
     (case quotient_of \<bar>x\<bar> of (p, q) \<Rightarrow>
        (let e = bitlen p - bitlen q in if pow2 e \<le> \<bar>x\<bar> then e else e - 1))"

definition round_half_even :: "rat \<Rightarrow> int" where
  "round_half_even x =
     (let n = \<lfloor>x\<rfloor>; r = x - of_int n
      in if r < 1 / 2 then n else if 1 / 2 < r then n + 1 else if even n then n else n + 1)"

text \<open>Rounding the exact result of an operation to a double (binary64, round to nearest,
  ties to even): 53 significant bits, the smallest exponent \<open>-1022\<close> (below it the
  spacing stays \<^verbatim>\<open>2^-1074\<close>), and overflow to an infinity when the rounded value
  reaches \<^verbatim>\<open>2^1024\<close>.\<close>

definition to_double :: "rat \<Rightarrow> number" where
  "to_double x =
     (if x = 0 then Num 0
      else
        (let ulp = pow2 (max (binade x) (- 1022) - 52);
             y = of_int (round_half_even (x / ulp)) * ulp
         in if pow2 1024 \<le> \<bar>y\<bar> then (if x < 0 then Minus_Infinity else Infinity)
            else Num y))"

text \<open>\<^verbatim>\<open>a < b\<close>, \<^verbatim>\<open>a > b\<close> and \<^verbatim>\<open>a <= b\<close>: false as soon as one side is \<^verbatim>\<open>NaN\<close>.\<close>

fun js_less :: "number \<Rightarrow> number \<Rightarrow> bool" where
  "js_less NaN b = False"
| "js_less a NaN = False"
| "js_less (Num x) (Num y) = (x < y)"
| "js_less a Minus_Infinity = False"
| "js_less Infinity b = False"
| "js_less Minus_Infinity b = True"
| "js_less (Num x) Infinity = True"

definition js_greater :: "number \<Rightarrow> number \<Rightarrow> bool" where
  "js_greater a b = js_less b a"

definition js_le :: "number \<Rightarrow> number \<Rightarrow> bool" where
  "js_le a b = (a \<noteq> NaN \<and> b \<noteq> NaN \<and> (a = b \<or> js_less a b))"

text \<open>\<^verbatim>\<open>Math.min(a, b)\<close>: \<^verbatim>\<open>NaN\<close> when either argument is.\<close>

definition Math_min :: "number \<Rightarrow> number \<Rightarrow> number" where
  "Math_min a b = (if a = NaN \<or> b = NaN then NaN else if js_less b a then b else a)"

text \<open>\<^verbatim>\<open>a * b\<close>: the exact product of two finite values rounded to a double; an infinity
  times zero is \<^verbatim>\<open>NaN\<close>, and otherwise takes the sign of the product.\<close>

definition js_times :: "number \<Rightarrow> number \<Rightarrow> number" where
  "js_times a b =
     (case (a, b) of
        (Num x, Num y) \<Rightarrow> to_double (x * y)
      | _ \<Rightarrow>
          if a = NaN \<or> b = NaN \<or> a = Num 0 \<or> b = Num 0 then NaN
          else if js_less a (Num 0) = js_less b (Num 0) then Infinity
          else Minus_Infinity)"

text \<open>An integer of the request as a number.\<close>

definition js_int :: "int \<Rightarrow> number" where
  "js_int n = Num (of_int n)"

datatype thrown = Error string | Thrown_undefined

datatype image_format = Png | Jpeg | Webp

datatype wait_until = Load | Domcontentloaded | Networkidle

datatype wait_for = WaitMs int | WaitSelector string

record clip_rect =
  clip_x :: rat
  clip_y :: rat
  clip_width :: rat
  clip_height :: rat

text \<open>An entry of the size table: its \<^verbatim>\<open>width\<close> and \<^verbatim>\<open>height\<close> as JSON numbers, or
  missing.\<close>

record size_preset =
  sp_width :: "number option"
  sp_height :: "number option"

text \<open>The parsed request body (\<^verbatim>\<open>parsed.data\<close>): optional fields are options, fields
  with a schema default carry their value.\<close>

record render_opts =
  html :: "string option"
  url :: "string option"
  templateName :: "string option"
  templateData :: "(string \<times> string) list option"
  width :: "int option"
  height :: "int option"
  sizePreset :: "string option"
  dpr :: "rat option"
  format :: image_format
  quality :: "int option"
  fullPage :: bool
  omitBackground :: bool
  clip :: "clip_rect option"
  clipPreset :: "string option"
  waitUntil :: wait_until
  waitFor :: "wait_for option"
  timeout :: "int option"
  css :: "string option"

text \<open>The environment variables read at start-up and the preset table loaded from
  \<^verbatim>\<open>presets.json\<close> (a table that failed to load is the empty one).\<close>

record config =
  DEFAULT_DPR :: number
  MAX_WIDTH :: number
  MAX_HEIGHT :: number
  MAX_PIXELS :: number
  BLOCK_EXTERNAL :: bool
  ALLOW_URL :: bool
  ALLOWLIST :: "string list"
  PRESETS_sizes :: "string \<rightharpoonup> size_preset"
  PRESETS_clips :: "string \<rightharpoonup> clip_rect"

text \<open>A property read \<^verbatim>\<open>tbl[name]\<close> on a table parsed from JSON finds the table's own
  entry, or else a member that every object inherits from \<^verbatim>\<open>Object.prototype\<close> (a
  function, or for \<^verbatim>\<open>__proto__\<close> the prototype itself: truthy, and without
  \<^verbatim>\<open>width\<close> or \<^verbatim>\<open>height\<close>), or else \<^verbatim>\<open>undefined\<close>.\<close>

datatype 'a js_member = Own 'a | Inherited | Absent

definition Object_prototype_names :: "string list" where
  "Object_prototype_names =
     [''constructor'', ''__defineGetter__'', ''__defineSetter__'', ''hasOwnProperty'',
      ''__lookupGetter__'', ''__lookupSetter__'', ''isPrototypeOf'', ''propertyIsEnumerable'',
      ''toString'', ''valueOf'', ''__proto__'', ''toLocaleString'']"

definition js_get :: "(string \<rightharpoonup> 'a) \<Rightarrow> string \<Rightarrow> 'a js_member" where
  "js_get tbl name =
     (case tbl name of
        Some v \<Rightarrow> Own v
      | None \<Rightarrow> if name \<in> set Object_prototype_names then Inherited else Absent)"

text \<open>The \<^verbatim>\<open>clip\<close> option of a screenshot call: \<^verbatim>\<open>undefined\<close>, a rectangle, or the
  inherited member a clip preset name may have found.\<close>

datatype clip_arg = No_clip | Clip clip_rect | Clip_inherited

text \<open>The options object handed to \<^verbatim>\<open>page.screenshot\<close>.\<close>

record screenshotOptions =
  shot_type :: image_format
  shot_quality :: "int option"
  shot_fullPage :: bool
  shot_omitBackground :: bool
  shot_clip :: clip_arg

text \<open>What the handler does to the outside world, in order: calls on the browser
  (Playwright), the call of \<^verbatim>\<open>getBrowser\<close> itself, and the back-off timer.\<close>

datatype event =
    GetBrowser
  | Probe
  | Launch
  | NewContext number
  | Route
  | NewPage
  | SetViewportSize number number
  | EmulateMedia
  | SetDefaultTimeout int
  | SetContent string wait_until
  | Goto string wait_until
  | WaitForTimeout int
  | WaitForSelector string int
  | Evaluate number
  | Screenshot screenshotOptions
  | PageClose
  | ContextClose
  | Sleep nat

text \<open>The libraries the code calls are parameters: the URL parser
  (\<^verbatim>\<open>new URL(u).hostname\<close>, \<open>None\<close> when it throws), zod's URL check, the template
  provider (\<^verbatim>\<open>getTemplate(name)(data)\<close>), \<^verbatim>\<open>String.prototype.replace\<close>, the digits
  \<^verbatim>\<open>String(x)\<close> gives a finite number that is not an integer below \<^verbatim>\<open>1e21\<close>, and the
  browser: \<open>engine\<close> says, from the calls made so far, whether the next call rejects
  and with what, \<open>capture\<close> is the buffer a successful screenshot returns.\<close>

record env =
  URL_hostname :: "string \<Rightarrow> string option"
  zod_url :: "string \<Rightarrow> bool"
  template_render :: "string \<Rightarrow> (string \<times> string) list \<Rightarrow> thrown + string"
  String_replace :: "string \<Rightarrow> string \<Rightarrow> string \<Rightarrow> string"
  Number_digits :: "rat \<Rightarrow> string"
  engine :: "event list \<Rightarrow> event \<Rightarrow> thrown option"
  capture :: "event list \<Rightarrow> string"

text \<open>The process state: the shared \<^verbatim>\<open>browser\<close> variable (set or not) and the
  calls made so far.\<close>

record state =
  browser :: bool
  trace :: "event list"

datatype response =
    Image image_format string
  | Bad_request string
  | Invalid_payload
  | No_response

section \<open>Pure helpers\<close>

text \<open>JavaScript truthiness of an optional string: present and not empty.\<close>

definition truthy :: "string option \<Rightarrow> string option" where
  "truthy s = (case s of None \<Rightarrow> None | Some [] \<Rightarrow> None | Some (c # cs) \<Rightarrow> Some (c # cs))"

text \<open>\<^verbatim>\<open>v || d\<close> on an optional number: \<^verbatim>\<open>undefined\<close>, \<^verbatim>\<open>0\<close> and \<^verbatim>\<open>NaN\<close> give
  \<open>d\<close>.\<close>

definition or_else :: "number option \<Rightarrow> number \<Rightarrow> number" where
  "or_else v d =
     (case v of None \<Rightarrow> d | Some n \<Rightarrow> if n = Num 0 \<or> n = NaN then d else n)"

fun show_nat :: "nat \<Rightarrow> string" where
  "show_nat n =
     (if n < 10 then [''0123456789'' ! n]
      else show_nat (n div 10) @ [''0123456789'' ! (n mod 10)])"

definition show_int :: "int \<Rightarrow> string" where
  "show_int i = (if i < 0 then CHR ''-'' # show_nat (nat (- i)) else show_nat (nat i))"

text \<open>A number inside a template literal, \<^verbatim>\<open>`${x}`\<close>: an integer below \<^verbatim>\<open>1e21\<close> prints
  as its decimal digits.\<close>

definition number_text :: "env \<Rightarrow> number \<Rightarrow> string" where
  "number_text ev x =
     (case x of
        NaN \<Rightarrow> ''NaN''
      | Infinity \<Rightarrow> ''Infinity''
      | Minus_Infinity \<Rightarrow> ''-Infinity''
      | Num r \<Rightarrow>
          if of_int \<lfloor>r\<rfloor> = r \<and> \<bar>r\<bar> < 10 ^ 21 then show_int \<lfloor>r\<rfloor> else Number_digits ev r)"

record viewport =
  v_width :: number
  v_height :: number

definition enforceSize :: "config \<Rightarrow> env \<Rightarrow> number option \<Rightarrow> number option \<Rightarrow> thrown + viewport" where
  "enforceSize cfg ev wd ht =
     (let w = Math_min (or_else wd (Num 1200)) (MAX_WIDTH cfg);
          h = Math_min (or_else ht (Num 630)) (MAX_HEIGHT cfg)
      in if js_greater (js_times w h) (MAX_PIXELS cfg)
         then Inl (Error (''Requested viewport '' @ number_text ev w @ ''x'' @ number_text ev h
                @ '' exceeds maximum pixel budget '' @ number_text ev (MAX_PIXELS cfg)))
         else Inr \<lparr>v_width = w, v_height = h\<rparr>)"

definition hostnameOf :: "env \<Rightarrow> string \<Rightarrow> string option" where
  "hostnameOf ev u = URL_hostname ev u"

definition isWhitelisted :: "config \<Rightarrow> env \<Rightarrow> string \<Rightarrow> bool" where
  "isWhitelisted cfg ev u =
     (case hostnameOf ev u of
        None \<Rightarrow> False
      | Some h \<Rightarrow>
          if h = [] then False
          else if ALLOWLIST cfg = [] then False
          else list_ex (\<lambda>pattern.
                 if prefix ''*.'' pattern
                 then (let dom = drop 2 pattern in h = dom \<or> suffix (''.'' @ dom) h)
                 else h = pattern) (ALLOWLIST cfg))"

datatype route_action = Continue | Abort

text \<open>The handler installed by \<^verbatim>\<open>context.route('**/*', ...)\<close>, as a function of the
  URL of the outgoing request.\<close>

definition route_handler :: "config \<Rightarrow> env \<Rightarrow> string \<Rightarrow> route_action" where
  "route_handler cfg ev u =
     (if \<not> BLOCK_EXTERNAL cfg then Continue
      else if prefix ''data:'' u \<or> prefix ''blob:'' u then Continue
      else if ALLOW_URL cfg \<and> isWhitelisted cfg ev u then Continue
      else Abort)"

section \<open>Effects: state passing with thrown values\<close>

text \<open>An \<^verbatim>\<open>async\<close> computation takes the state and gives back either the thrown
  value (\<open>Inl\<close>) or its result (\<open>Inr\<close>), with the state it leaves.\<close>

type_synonym 'a prog = "state \<Rightarrow> (thrown + 'a) \<times> state"

definition ret :: "'a \<Rightarrow> 'a prog" where
  "ret v st = (Inr v, st)"

definition throw :: "thrown \<Rightarrow> 'a prog" where
  "throw e st = (Inl e, st)"

definition and_then :: "'a prog \<Rightarrow> ('a \<Rightarrow> 'b prog) \<Rightarrow> 'b prog" where
  "and_then m f st =
     (case m st of (Inl e, st') \<Rightarrow> (Inl e, st') | (Inr v, st') \<Rightarrow> f v st')"

text \<open>\<^verbatim>\<open>try { m } finally { c }\<close>: \<open>c\<close> runs on every exit of \<open>m\<close>; when \<open>c\<close>
  throws, its thrown value replaces the outcome of \<open>m\<close>.\<close>

definition try_finally :: "'a prog \<Rightarrow> unit prog \<Rightarrow> 'a prog" where
  "try_finally m c st =
     (case m st of (r, st') \<Rightarrow>
        (case c st' of (Inl e, st'') \<Rightarrow> (Inl e, st'') | (Inr u, st'') \<Rightarrow> (r, st'')))"

definition try_catch :: "'a prog \<Rightarrow> (thrown \<Rightarrow> 'a prog) \<Rightarrow> 'a prog" where
  "try_catch m h st =
     (case m st of (Inl e, st') \<Rightarrow> h e st' | (Inr v, st') \<Rightarrow> (Inr v, st'))"

text \<open>A call on the browser is recorded whether it resolves or rejects.\<close>

definition call :: "env \<Rightarrow> event \<Rightarrow> unit prog" where
  "call ev c st =
     ((case engine ev (trace st) c of None \<Rightarrow> Inr () | Some e \<Rightarrow> Inl e),
      st\<lparr>trace := trace st @ [c]\<rparr>)"

definition emit :: "event \<Rightarrow> unit prog" where
  "emit c st = (Inr (), st\<lparr>trace := trace st @ [c]\<rparr>)"

definition read_browser :: "bool prog" where
  "read_browser st = (Inr (browser st), st)"

definition set_browser :: "bool \<Rightarrow> unit prog" where
  "set_browser b st = (Inr (), st\<lparr>browser := b\<rparr>)"

section \<open>The browser session\<close>

text \<open>\<^verbatim>\<open>getBrowser\<close> of \<^verbatim>\<open>server.js\<close>: launch when the variable is unset.\<close>

definition getBrowser :: "env \<Rightarrow> unit prog" where
  "getBrowser ev =
     and_then (emit GetBrowser) (\<lambda>_.
     and_then read_browser (\<lambda>b.
       if \<not> b then and_then (call ev Launch) (\<lambda>_. set_browser True)
       else ret ()))"

text \<open>\<^verbatim>\<open>getBrowser\<close> of the later server: a set variable is probed with
  \<^verbatim>\<open>browser.contexts()\<close> first and unset when the probe throws.\<close>

definition getBrowser_probe :: "env \<Rightarrow> unit prog" where
  "getBrowser_probe ev =
     and_then (emit GetBrowser) (\<lambda>_.
     and_then read_browser (\<lambda>b.
     and_then (if b then try_catch (call ev Probe) (\<lambda>err. set_browser False) else ret ()) (\<lambda>_.
     and_then read_browser (\<lambda>b'.
       if \<not> b' then and_then (call ev Launch) (\<lambda>_. set_browser True)
       else ret ()))))"

text \<open>The body both versions of \<^verbatim>\<open>withPage\<close> share: context, route interceptor,
  page, the callback, and the \<^verbatim>\<open>finally\<close> block.\<close>

definition page_session :: "config \<Rightarrow> env \<Rightarrow> unit prog \<Rightarrow> 'a prog \<Rightarrow> 'a prog" where
  "page_session cfg ev acquire fn =
     and_then acquire (\<lambda>_.
     and_then (call ev (NewContext (DEFAULT_DPR cfg))) (\<lambda>_.
     and_then (call ev Route) (\<lambda>_.
     and_then (call ev NewPage) (\<lambda>_.
       try_finally fn
         (and_then (call ev PageClose) (\<lambda>_. call ev ContextClose))))))"

text \<open>\<^verbatim>\<open>withPage\<close> of \<^verbatim>\<open>server.js\<close>.\<close>

definition withPage :: "config \<Rightarrow> env \<Rightarrow> 'a prog \<Rightarrow> 'a prog" where
  "withPage cfg ev fn = page_session cfg ev (getBrowser ev) fn"

definition closed_message :: string where
  "closed_message = ''Target page, context or browser has been closed''"

text \<open>What the \<^verbatim>\<open>catch\<close> block does before the next round: \<^verbatim>\<open>browser = null\<close>
  and the 500 ms timer.\<close>

definition back_off :: "state \<Rightarrow> state" where
  "back_off st = st\<lparr>browser := False, trace := trace st @ [Sleep 500]\<rparr>"

text \<open>The test of the \<^verbatim>\<open>catch\<close> block, \<^verbatim>\<open>err.message && err.message.includes(...)\<close>:
  reading \<^verbatim>\<open>message\<close> of \<^verbatim>\<open>undefined\<close> throws a TypeError out of the block.\<close>

definition message_says_closed :: "thrown \<Rightarrow> thrown + bool" where
  "message_says_closed err =
     (case err of
        Error msg \<Rightarrow> Inr (msg \<noteq> [] \<and> sublist closed_message msg)
      | Thrown_undefined \<Rightarrow>
          Inl (Error ''Cannot read properties of undefined (reading 'message')''))"

text \<open>The failures the loop retries: those for which the test holds.\<close>

definition is_browser_closed :: "thrown \<Rightarrow> bool" where
  "is_browser_closed err = (message_says_closed err = Inr True)"

text \<open>The \<^verbatim>\<open>while (retries > 0)\<close> loop of the later \<^verbatim>\<open>withPage\<close>; after the loop
  \<^verbatim>\<open>lastError\<close> is thrown.\<close>

fun withPage_loop :: "config \<Rightarrow> env \<Rightarrow> 'a prog \<Rightarrow> nat \<Rightarrow> thrown \<Rightarrow> 'a prog" where
  "withPage_loop cfg ev fn 0 lastError st = throw lastError st"
| "withPage_loop cfg ev fn (Suc retries) lastError st =
     (case page_session cfg ev (getBrowser_probe ev) fn st of
        (Inr v, st') \<Rightarrow> (Inr v, st')
      | (Inl err, st') \<Rightarrow>
          (case message_says_closed err of
             Inl type_error \<Rightarrow> (Inl type_error, st')
           | Inr retry \<Rightarrow>
               if retry then withPage_loop cfg ev fn retries err (back_off st')
               else (Inl err, st')))"

definition withPage_retry :: "config \<Rightarrow> env \<Rightarrow> 'a prog \<Rightarrow> 'a prog" where
  "withPage_retry cfg ev fn = withPage_loop cfg ev fn 3 Thrown_undefined"

section \<open>The \<^verbatim>\<open>/render\<close> handler\<close>

text \<open>\<^verbatim>\<open>RenderSchema.safeParse\<close>: the numeric bounds and the URL check; the rest of the
  schema is the typing of \<open>render_opts\<close>. The clip rectangle is four unconstrained
  numbers.\<close>

definition in_range :: "int option \<Rightarrow> int \<Rightarrow> int \<Rightarrow> bool" where
  "in_range v lo hi = (case v of None \<Rightarrow> True | Some n \<Rightarrow> lo \<le> n \<and> n \<le> hi)"

definition RenderSchema :: "env \<Rightarrow> render_opts \<Rightarrow> bool" where
  "RenderSchema ev opts =
     ((case url opts of None \<Rightarrow> True | Some u \<Rightarrow> zod_url ev u)
      \<and> in_range (width opts) 1 10000
      \<and> in_range (height opts) 1 10000
      \<and> (case dpr opts of None \<Rightarrow> True | Some d \<Rightarrow> 1 / 2 \<le> d \<and> d \<le> 4)
      \<and> in_range (quality opts) 1 100
      \<and> (case waitFor opts of Some (WaitMs n) \<Rightarrow> 0 \<le> n \<and> n \<le> 30000 | _ \<Rightarrow> True)
      \<and> in_range (timeout opts) 0 60000)"

text \<open>"Apply size preset if provided": the width and height handed to
  \<^verbatim>\<open>enforceSize\<close>.\<close>

definition apply_size_preset ::
  "config \<Rightarrow> render_opts \<Rightarrow> thrown + (number option \<times> number option)" where
  "apply_size_preset cfg opts =
     (case truthy (sizePreset opts) of
        Some name \<Rightarrow>
          (case js_get (PRESETS_sizes cfg) name of
             Absent \<Rightarrow> Inl (Error (''Unknown sizePreset: '' @ name))
           | Own sp \<Rightarrow> Inr (sp_width sp, sp_height sp)
           | Inherited \<Rightarrow> Inr (None, None))
      | None \<Rightarrow> Inr (map_option js_int (width opts), map_option js_int (height opts)))"

definition resolve_size :: "config \<Rightarrow> env \<Rightarrow> render_opts \<Rightarrow> thrown + viewport" where
  "resolve_size cfg ev opts =
     (case apply_size_preset cfg opts of
        Inl e \<Rightarrow> Inl e
      | Inr (wd, ht) \<Rightarrow> enforceSize cfg ev wd ht)"

text \<open>"Apply clip preset if provided (overrides clip)".\<close>

definition resolve_clip :: "config \<Rightarrow> render_opts \<Rightarrow> thrown + clip_arg" where
  "resolve_clip cfg opts =
     (case truthy (clipPreset opts) of
        Some name \<Rightarrow>
          (case js_get (PRESETS_clips cfg) name of
             Absent \<Rightarrow> Inl (Error (''Unknown clipPreset: '' @ name))
           | Own cp \<Rightarrow> Inr (Clip cp)
           | Inherited \<Rightarrow> Inr Clip_inherited)
      | None \<Rightarrow> Inr (case clip opts of None \<Rightarrow> No_clip | Some c \<Rightarrow> Clip c))"

definition inject_css :: "env \<Rightarrow> string option \<Rightarrow> string \<Rightarrow> string" where
  "inject_css ev c markup =
     (case truthy c of
        Some sheet \<Rightarrow>
          String_replace ev markup ''</head>'' (''<style>'' @ sheet @ ''</style></head>'')
      | None \<Rightarrow> markup)"

definition UrlRenderingDisabled :: thrown where
  "UrlRenderingDisabled = Error ''URL rendering disabled by server configuration''"

definition UrlNotAllowlisted :: thrown where
  "UrlNotAllowlisted = Error ''URL not in allowlist''"

definition NoContentSource :: thrown where
  "NoContentSource = Error ''Provide one of: html | templateName | url''"

text \<open>The \<^verbatim>\<open>if (opts.templateName) ... else if (opts.html) ... else if (opts.url)\<close>
  chain of the callback.\<close>

definition load_content :: "config \<Rightarrow> env \<Rightarrow> render_opts \<Rightarrow> unit prog" where
  "load_content cfg ev opts =
     (case truthy (templateName opts) of
        Some name \<Rightarrow>
          (case template_render ev name (case templateData opts of None \<Rightarrow> [] | Some d \<Rightarrow> d) of
             Inl e \<Rightarrow> throw e
           | Inr markup \<Rightarrow> call ev (SetContent (inject_css ev (css opts) markup) (waitUntil opts)))
      | None \<Rightarrow>
          (case truthy (html opts) of
             Some h \<Rightarrow> call ev (SetContent (inject_css ev (css opts) h) (waitUntil opts))
           | None \<Rightarrow>
               (case truthy (url opts) of
                  Some u \<Rightarrow>
                    if \<not> ALLOW_URL cfg then throw UrlRenderingDisabled
                    else if \<not> isWhitelisted cfg ev u then throw UrlNotAllowlisted
                    else call ev (Goto u (waitUntil opts))
                | None \<Rightarrow> throw NoContentSource)))"

definition extra_wait :: "env \<Rightarrow> render_opts \<Rightarrow> int \<Rightarrow> unit prog" where
  "extra_wait ev opts tmo =
     (case waitFor opts of
        Some (WaitMs n) \<Rightarrow> call ev (WaitForTimeout n)
      | Some (WaitSelector sel) \<Rightarrow> call ev (WaitForSelector sel tmo)
      | None \<Rightarrow> ret ())"

definition shot_options :: "render_opts \<Rightarrow> clip_arg \<Rightarrow> screenshotOptions" where
  "shot_options opts cl =
     \<lparr>shot_type = format opts,
      shot_quality = (if format opts = Png then None
                      else Some (case quality opts of None \<Rightarrow> 90 | Some q \<Rightarrow> q)),
      shot_fullPage = fullPage opts,
      shot_omitBackground = omitBackground opts,
      shot_clip = cl\<rparr>"

definition take_screenshot :: "env \<Rightarrow> screenshotOptions \<Rightarrow> string prog" where
  "take_screenshot ev so =
     and_then (call ev (Screenshot so)) (\<lambda>_ st. (Inr (capture ev (trace st)), st))"

definition request_timeout :: "render_opts \<Rightarrow> int" where
  "request_timeout opts = (case timeout opts of None \<Rightarrow> 15000 | Some t \<Rightarrow> t)"

definition request_dpr :: "config \<Rightarrow> render_opts \<Rightarrow> number" where
  "request_dpr cfg opts = (case dpr opts of None \<Rightarrow> DEFAULT_DPR cfg | Some d \<Rightarrow> Num d)"

text \<open>The callback given to \<^verbatim>\<open>withPage\<close>.\<close>

definition render_page ::
  "config \<Rightarrow> env \<Rightarrow> render_opts \<Rightarrow> viewport \<Rightarrow> clip_arg \<Rightarrow> string prog" where
  "render_page cfg ev opts vp cl =
     and_then (call ev (SetViewportSize (v_width vp) (v_height vp))) (\<lambda>_.
     and_then (call ev EmulateMedia) (\<lambda>_.
     and_then (call ev (SetDefaultTimeout (request_timeout opts))) (\<lambda>_.
     and_then (load_content cfg ev opts) (\<lambda>_.
     and_then (extra_wait ev opts (request_timeout opts)) (\<lambda>_.
     and_then (call ev (SetViewportSize (v_width vp) (v_height vp))) (\<lambda>_.
     and_then (call ev (Evaluate (request_dpr cfg opts))) (\<lambda>_.
       take_screenshot ev (shot_options opts cl))))))))"

text \<open>The \<^verbatim>\<open>catch\<close> of the handler: \<^verbatim>\<open>err.message || 'Render failed'\<close>. Reading
  \<^verbatim>\<open>message\<close> of \<^verbatim>\<open>undefined\<close> throws inside the catch block, and no response is
  sent.\<close>

definition render_failed :: "thrown \<Rightarrow> response" where
  "render_failed err =
     (case err of
        Error msg \<Rightarrow> Bad_request (if msg = [] then ''Render failed'' else msg)
      | Thrown_undefined \<Rightarrow> No_response)"

text \<open>The handler, over the \<^verbatim>\<open>withPage\<close> of either server.\<close>

definition render_with ::
  "(string prog \<Rightarrow> string prog) \<Rightarrow> config \<Rightarrow> env \<Rightarrow> render_opts \<Rightarrow> state \<Rightarrow> response \<times> state" where
  "render_with wp cfg ev opts st =
     (if \<not> RenderSchema ev opts then (Invalid_payload, st)
      else
        (case resolve_size cfg ev opts of
           Inl e \<Rightarrow> (render_failed e, st)
         | Inr vp \<Rightarrow>
             (case resolve_clip cfg opts of
                Inl e \<Rightarrow> (render_failed e, st)
              | Inr cl \<Rightarrow>
                  (case wp (render_page cfg ev opts vp cl) st of
                     (Inl e, st') \<Rightarrow> (render_failed e, st')
                   | (Inr buffer, st') \<Rightarrow> (Image (format opts) buffer, st')))))"

definition render :: "config \<Rightarrow> env \<Rightarrow> render_opts \<Rightarrow> state \<Rightarrow> response \<times> state" where
  "render cfg ev opts = render_with (withPage cfg ev) cfg ev opts"

definition render_retry :: "config \<Rightarrow> env \<Rightarrow> render_opts \<Rightarrow> state \<Rightarrow> response \<times> state" where
  "render_retry cfg ev opts = render_with (withPage_retry cfg ev) cfg ev opts"

section \<open>Predicates on runs\<close>

text \<open>A browser every call on which resolves.\<close>

definition engine_ok :: "env \<Rightarrow> bool" where
  "engine_ok ev = (\<forall>tr c. engine ev tr c = None)"

text \<open>\<open>appends P m\<close>: whatever the state, \<open>m\<close> only adds calls to the trace, and every
  call it adds satisfies \<open>P\<close>.\<close>

definition appends :: "(event \<Rightarrow> bool) \<Rightarrow> 'a prog \<Rightarrow> bool" where
  "appends P m = (\<forall>st. \<exists>T. trace (snd (m st)) = trace st @ T \<and> list_all P T)"

text \<open>\<open>follows L fin m\<close>: \<open>m\<close> leaves the browser variable alone and adds to the trace an
  initial part of the list \<open>L\<close>; it can return a result only when \<open>fin\<close> holds, and then
  it has added all of \<open>L\<close>.\<close>

definition follows :: "event list \<Rightarrow> bool \<Rightarrow> 'a prog \<Rightarrow> bool" where
  "follows L fin m =
     (\<forall>st. browser (snd (m st)) = browser st \<and>
        (\<exists>T. trace (snd (m st)) = trace st @ T \<and> prefix T L \<and>
             (isl (fst (m st)) \<or> (fin \<and> T = L))))"

text \<open>The calls one request may make: the context is created with the service-wide
  ratio, the viewport is the resolved one, and so on.\<close>

fun within_request ::
  "config \<Rightarrow> env \<Rightarrow> render_opts \<Rightarrow> viewport \<Rightarrow> clip_arg \<Rightarrow> event \<Rightarrow> bool" where
  "within_request cfg ev opts vp cl (NewContext d) = (d = DEFAULT_DPR cfg)"
| "within_request cfg ev opts vp cl (SetViewportSize a b) = (a = v_width vp \<and> b = v_height vp)"
| "within_request cfg ev opts vp cl (SetDefaultTimeout t) = (t = request_timeout opts)"
| "within_request cfg ev opts vp cl (Goto u w) =
     (ALLOW_URL cfg \<and> isWhitelisted cfg ev u \<and> url opts = Some u \<and> w = waitUntil opts)"
| "within_request cfg ev opts vp cl (SetContent m w) = (w = waitUntil opts)"
| "within_request cfg ev opts vp cl (Evaluate d) = (d = request_dpr cfg opts)"
| "within_request cfg ev opts vp cl (Screenshot so) = (so = shot_options opts cl)"
| "within_request cfg ev opts vp cl (Sleep n) = (n = 500)"
| "within_request cfg ev opts vp cl (WaitForTimeout n) = (waitFor opts = Some (WaitMs n))"
| "within_request cfg ev opts vp cl (WaitForSelector sel t) =
     (waitFor opts = Some (WaitSelector sel) \<and> t = request_timeout opts)"
| "within_request cfg ev opts vp cl c = True"

text \<open>The decision of \<open>load_content\<close>: the error it throws before any call, or the one
  page call it makes.\<close>

definition content_event :: "config \<Rightarrow> env \<Rightarrow> render_opts \<Rightarrow> thrown + event" where
  "content_event cfg ev opts =
     (case truthy (templateName opts) of
        Some name \<Rightarrow>
          (case template_render ev name (case templateData opts of None \<Rightarrow> [] | Some d \<Rightarrow> d) of
             Inl e \<Rightarrow> Inl e
           | Inr markup \<Rightarrow> Inr (SetContent (inject_css ev (css opts) markup) (waitUntil opts)))
      | None \<Rightarrow>
          (case truthy (html opts) of
             Some h \<Rightarrow> Inr (SetContent (inject_css ev (css opts) h) (waitUntil opts))
           | None \<Rightarrow>
               (case truthy (url opts) of
                  Some u \<Rightarrow>
                    if \<not> ALLOW_URL cfg then Inl UrlRenderingDisabled
                    else if \<not> isWhitelisted cfg ev u then Inl UrlNotAllowlisted
                    else Inr (Goto u (waitUntil opts))
                | None \<Rightarrow> Inl NoContentSource)))"

definition wait_events :: "render_opts \<Rightarrow> event list" where
  "wait_events opts =
     (case waitFor opts of
        Some (WaitMs n) \<Rightarrow> [WaitForTimeout n]
      | Some (WaitSelector sel) \<Rightarrow> [WaitForSelector sel (request_timeout opts)]
      | None \<Rightarrow> [])"

text \<open>The calls of the callback in the order the code makes them, when none rejects.\<close>

definition page_script ::
  "config \<Rightarrow> env \<Rightarrow> render_opts \<Rightarrow> viewport \<Rightarrow> clip_arg \<Rightarrow> event list" where
  "page_script cfg ev opts vp cl =
     [SetViewportSize (v_width vp) (v_height vp), EmulateMedia,
      SetDefaultTimeout (request_timeout opts)] @
     (case content_event cfg ev opts of
        Inl e \<Rightarrow> []
      | Inr c \<Rightarrow>
          c # wait_events opts @
          [SetViewportSize (v_width vp) (v_height vp), Evaluate (request_dpr cfg opts),
           Screenshot (shot_options opts cl)])"

text \<open>What \<open>getBrowser\<close> of \<^verbatim>\<open>server.js\<close> records when the launch succeeds.\<close>

definition acquire_events :: "state \<Rightarrow> event list" where
  "acquire_events st = (if browser st then [GetBrowser] else [GetBrowser, Launch])"

text \<open>The calls of one successful-browser session around a callback that throws before
  loading any content.\<close>

definition refused_session :: "config \<Rightarrow> render_opts \<Rightarrow> viewport \<Rightarrow> state \<Rightarrow> state" where
  "refused_session cfg opts vp st =
     st\<lparr>browser := True,
        trace := trace st @ acquire_events st @
          [NewContext (DEFAULT_DPR cfg), Route, NewPage,
           SetViewportSize (v_width vp) (v_height vp), EmulateMedia,
           SetDefaultTimeout (request_timeout opts), PageClose, ContextClose]\<rparr>"

text \<open>The schema's condition on the \<^verbatim>\<open>url\<close> field.\<close>

definition url_valid :: "env \<Rightarrow> string option \<Rightarrow> bool" where
  "url_valid ev u = (case u of None \<Rightarrow> True | Some x \<Rightarrow> zod_url ev x)"

text \<open>The calls a session makes before the callback runs, and after it.\<close>

fun setup_event :: "event \<Rightarrow> bool" where
  "setup_event GetBrowser = True"
| "setup_event Probe = True"
| "setup_event Launch = True"
| "setup_event (NewContext d) = True"
| "setup_event Route = True"
| "setup_event NewPage = True"
| "setup_event c = False"

fun close_event :: "event \<Rightarrow> bool" where
  "close_event PageClose = True"
| "close_event ContextClose = True"
| "close_event c = False"

definition session_setup :: "config \<Rightarrow> env \<Rightarrow> unit prog \<Rightarrow> unit prog" where
  "session_setup cfg ev acquire =
     and_then acquire (\<lambda>_.
     and_then (call ev (NewContext (DEFAULT_DPR cfg))) (\<lambda>_.
     and_then (call ev Route) (\<lambda>_. call ev NewPage)))"

definition session_close :: "env \<Rightarrow> unit prog" where
  "session_close ev = and_then (call ev PageClose) (\<lambda>_. call ev ContextClose)"

text \<open>The state a session leaves when every browser call resolves and the callback has run
  its whole script.\<close>

definition served_session ::
  "config \<Rightarrow> env \<Rightarrow> render_opts \<Rightarrow> viewport \<Rightarrow> clip_arg \<Rightarrow> state \<Rightarrow> state" where
  "served_session cfg ev opts vp cl st =
     st\<lparr>browser := True,
        trace := trace st @ acquire_events st @
          [NewContext (DEFAULT_DPR cfg), Route, NewPage] @ page_script cfg ev opts vp cl @
          [PageClose, ContextClose]\<rparr>"

text \<open>One round of the retry loop: the \<^verbatim>\<open>try\<close> block of the later \<^verbatim>\<open>withPage\<close>.\<close>

definition attempt :: "config \<Rightarrow> env \<Rightarrow> 'a prog \<Rightarrow> 'a prog" where
  "attempt cfg ev fn = page_session cfg ev (getBrowser_probe ev) fn"

text \<open>The state in which round \<open>k + 1\<close> starts when every earlier round was retried.\<close>

fun attempt_start :: "config \<Rightarrow> env \<Rightarrow> 'a prog \<Rightarrow> nat \<Rightarrow> state \<Rightarrow> state" where
  "attempt_start cfg ev fn 0 st = st"
| "attempt_start cfg ev fn (Suc k) st =
     back_off (snd (attempt cfg ev fn (attempt_start cfg ev fn k st)))"

definition retried :: "config \<Rightarrow> env \<Rightarrow> 'a prog \<Rightarrow> state \<Rightarrow> nat \<Rightarrow> bool" where
  "retried cfg ev fn st k =
     (\<forall>j < k. \<exists>e. fst (attempt cfg ev fn (attempt_start cfg ev fn j st)) = Inl e \<and>
                  is_browser_closed e)"

text \<open>What the \<^verbatim>\<open>catch\<close> block throws on for an error it does not retry.\<close>

definition rethrown :: "thrown \<Rightarrow> thrown" where
  "rethrown err =
     (case err of
        Error msg \<Rightarrow> Error msg
      | Thrown_undefined \<Rightarrow> Error ''Cannot read properties of undefined (reading 'message')'')"

definition settles ::
  "config \<Rightarrow> env \<Rightarrow> 'a prog \<Rightarrow> nat \<Rightarrow> state \<Rightarrow> nat \<Rightarrow> (thrown + 'a) \<times> state \<Rightarrow> bool" where
  "settles cfg ev fn n st k res =
     (case attempt cfg ev fn (attempt_start cfg ev fn k st) of
        (Inr v, s) \<Rightarrow> res = (Inr v, s)
      | (Inl e, s) \<Rightarrow>
          if is_browser_closed e then Suc k = n \<and> res = (Inl e, back_off s)
          else res = (Inl (rethrown e), s))"

text \<open>A limit that is a whole number of pixels, or no limit at all
  (\<^verbatim>\<open>Infinity\<close>).\<close>

definition pixel_limit :: "number \<Rightarrow> bool" where
  "pixel_limit x =
     (case x of Num r \<Rightarrow> 0 \<le> r \<and> of_int \<lfloor>r\<rfloor> = r | Infinity \<Rightarrow> True | _ \<Rightarrow> False)"

text \<open>The calls that load content into the page.\<close>

fun content_call :: "event \<Rightarrow> bool" where
  "content_call (SetContent m w) = True"
| "content_call (Goto u w) = True"
| "content_call c = False"


section \<open>Example configurations, requests and browsers\<close>

text \<open>The configuration the code falls back to when no environment variable is set, with
  an empty preset table.\<close>

definition default_config :: config where
  "default_config =
     \<lparr>DEFAULT_DPR = Num 1, MAX_WIDTH = Num 4000, MAX_HEIGHT = Num 4000,
      MAX_PIXELS = Num 14000000,
      BLOCK_EXTERNAL = True, ALLOW_URL = False, ALLOWLIST = [],
      PRESETS_sizes = Map.empty, PRESETS_clips = Map.empty\<rparr>"

text \<open>A stand-in for the libraries, used in the examples: a URL parser that understands
  \<^verbatim>\<open>https://host/path\<close> only, a template provider with one fixed page, a
  \<^verbatim>\<open>replace\<close> that finds nothing to replace, no digits for the numbers that are not
  integers, and a browser whose calls all resolve.\<close>

definition example_env :: env where
  "example_env =
     \<lparr>URL_hostname = (\<lambda>u. if prefix ''https://'' u
                          then Some (takeWhile (\<lambda>c. c \<noteq> CHR ''/'') (drop 8 u)) else None),
      zod_url = (\<lambda>u. prefix ''https://'' u),
      template_render = (\<lambda>name d. Inr ''<html><head></head><body>card</body></html>''),
      String_replace = (\<lambda>s pat rep. s),
      Number_digits = (\<lambda>r. ''?''),
      engine = (\<lambda>tr c. None),
      capture = (\<lambda>tr. ''image-bytes'')\<rparr>"

text \<open>The request body \<^verbatim>\<open>{}\<close> after parsing.\<close>

definition empty_opts :: render_opts where
  "empty_opts =
     \<lparr>html = None, url = None, templateName = None, templateData = None,
      width = None, height = None, sizePreset = None, dpr = None, format = Png,
      quality = None, fullPage = False, omitBackground = False, clip = None,
      clipPreset = None, waitUntil = Networkidle, waitFor = None, timeout = None,
      css = None\<rparr>"

definition idle :: state where
  "idle = \<lparr>browser = False, trace = []\<rparr>"

text \<open>URL rendering switched on for the subdomains of one domain.\<close>

definition wildcard_config :: config where
  "wildcard_config = default_config\<lparr>ALLOW_URL := True, ALLOWLIST := [''*.example.com'']\<rparr>"

text \<open>External requests let through: \<^verbatim>\<open>BLOCK_EXTERNAL=false\<close>, everything else as by
  default (URL rendering off, empty allowlist).\<close>

definition open_config :: config where
  "open_config = default_config\<lparr>BLOCK_EXTERNAL := False\<rparr>"

text \<open>A request that supplies only a URL.\<close>

definition url_opts :: render_opts where
  "url_opts = empty_opts\<lparr>url := Some ''https://example.com/''\<rparr>"

text \<open>Modelled from the spec: the preset file \<^verbatim>\<open>templates/presets/presets.json\<close> is not
  among the sources; the one size preset the documentation gives with its numbers is
  \<^verbatim>\<open>twitter_card\<close>, 1200 by 630.\<close>

definition documented_config :: config where
  "documented_config =
     default_config\<lparr>PRESETS_sizes :=
       [''twitter_card'' \<mapsto> \<lparr>sp_width = Some (Num 1200), sp_height = Some (Num 630)\<rparr>]\<rparr>"

text \<open>The same with a narrower width limit, \<^verbatim>\<open>MAX_WIDTH=1000\<close>.\<close>

definition narrow_config :: config where
  "narrow_config = documented_config\<lparr>MAX_WIDTH := Num 1000\<rparr>"

text \<open>A clip rectangle far outside any viewport, with a negative origin.\<close>

definition wild_clip :: clip_rect where
  "wild_clip = \<lparr>clip_x = - 50, clip_y = - 7 / 2, clip_width = 1000000, clip_height = 1000000\<rparr>"


text \<open>A request for inline HTML with that clip rectangle.\<close>

definition clipped_opts :: render_opts where
  "clipped_opts = empty_opts\<lparr>html := Some ''<p>hi</p>'', clip := Some wild_clip\<rparr>"

text \<open>A browser that is found closed at every \<^verbatim>\<open>newContext\<close>, and one whose screenshot
  times out.\<close>

definition closed_env :: env where
  "closed_env = example_env\<lparr>engine := (\<lambda>tr c.
     if c = NewContext (Num 1)
     then Some (Error ''browser.newContext: Target page, context or browser has been closed'')
     else None)\<rparr>"

definition slow_env :: env where
  "slow_env = example_env\<lparr>engine := (\<lambda>tr c.
     case c of Screenshot so \<Rightarrow> Some (Error ''page.screenshot: Timeout 15000ms exceeded.'')
     | _ \<Rightarrow> None)\<rparr>"

text \<open>A request for inline HTML and nothing else.\<close>

definition html_opts :: render_opts where
  "html_opts = empty_opts\<lparr>html := Some ''<p>hi</p>''\<rparr>"

text \<open>A browser whose \<^verbatim>\<open>page.close()\<close> rejects, and one that is found closed when the
  page is to be created.\<close>

definition stuck_page_env :: env where
  "stuck_page_env = example_env\<lparr>engine := (\<lambda>tr c.
     if c = PageClose then Some (Error ''page.close: Protocol error (Target.closeTarget)'')
     else None)\<rparr>"

definition no_page_env :: env where
  "no_page_env = example_env\<lparr>engine := (\<lambda>tr c.
     if c = NewPage
     then Some (Error ''browserContext.newPage: Target page, context or browser has been closed'')
     else None)\<rparr>"

text \<open>A templates directory without the file asked for: \<^verbatim>\<open>fs.readFileSync\<close> throws
  an error whose message carries the path, and with it the template name.\<close>

definition ENOENT :: "string \<Rightarrow> thrown" where
  "ENOENT name =
     Error (''ENOENT: no such file or directory, open '/app/templates/html/'' @ name
            @ ''.hbs'' @ [CHR 0x27])"

definition missing_template_env :: env where
  "missing_template_env = example_env\<lparr>template_render := (\<lambda>name d. Inl (ENOENT name))\<rparr>"

text \<open>Requests for a template: one whose name is the sentence the retry test looks for,
  and one with an ordinary name.\<close>

definition closed_name_opts :: render_opts where
  "closed_name_opts =
     empty_opts\<lparr>templateName := Some ''Target page, context or browser has been closed''\<rparr>"

definition card_opts :: render_opts where
  "card_opts = empty_opts\<lparr>templateName := Some ''card''\<rparr>"

text \<open>Requests for inline HTML at 10000 by 10000 and at 3000 by 2000.\<close>

definition huge_opts :: render_opts where
  "huge_opts = html_opts\<lparr>width := Some 10000, height := Some 10000\<rparr>"

definition large_opts :: render_opts where
  "large_opts = html_opts\<lparr>width := Some 3000, height := Some 2000\<rparr>"

text \<open>A request that supplies inline HTML and, with it, a URL the configuration
  \<open>wildcard_config\<close> allows.\<close>

definition both_opts :: render_opts where
  "both_opts = html_opts\<lparr>url := Some ''https://cdn.example.com/''\<rparr>"

section \<open>Rounding to a double\<close>

text \<open>An integer of less than 54 bits is a double, and \<open>binade\<close> is the binary
  exponent.\<close>

lemma pow2_nonneg: "0 \<le> e \<Longrightarrow> pow2 e = 2 ^ nat e"
  by (simp add: pow2_def)

lemma pow2_nonpos: "e \<le> 0 \<Longrightarrow> pow2 e = 1 / 2 ^ nat (- e)"
  by (cases "e = 0") (simp_all add: pow2_def)

lemma round_half_even_int [simp]: "round_half_even (of_int z) = z"
  by (simp add: round_half_even_def)

lemma binade_int:
  assumes "n \<noteq> 0"
  shows "binade (of_int n) = bitlen \<bar>n\<bar> - 1"
proof -
  let ?m = "\<bar>n\<bar>"
  have pos: "0 < ?m" using assms by simp
  have q: "quotient_of \<bar>of_int n :: rat\<bar> = (?m, 1)"
    by (simp flip: of_int_abs)
  have a: "\<bar>of_int n :: rat\<bar> = of_int ?m" by simp
  have b1: "bitlen 1 = 1" by (simp add: bitlen_alt_def)
  have ge: "1 \<le> bitlen ?m" using pos by (auto simp: bitlen_alt_def)
  have "(2::int) ^ nat (bitlen ?m - 1) \<le> ?m" using bitlen_bounds [OF pos] by simp
  then have "(of_int (2 ^ nat (bitlen ?m - 1)) :: rat) \<le> of_int ?m" by (simp only: of_int_le_iff)
  then have "pow2 (bitlen ?m - 1) \<le> \<bar>of_int n\<bar>"
    unfolding a using ge by (simp add: pow2_nonneg)
  then show ?thesis
    unfolding binade_def q by (simp add: b1 Let_def)
qed

lemma to_double_int:
  assumes "\<bar>n\<bar> < 2 ^ 53"
  shows "to_double (of_int n) = Num (of_int n)"
proof (cases "n = 0")
  case True
  then show ?thesis by (simp add: to_double_def)
next
  case False
  let ?m = "\<bar>n\<bar>"
  let ?e = "bitlen ?m - 1"
  have pos: "0 < ?m" using False by simp
  have ge: "1 \<le> bitlen ?m" using pos by (auto simp: bitlen_alt_def)
  have le: "bitlen ?m \<le> 53" using assms by (simp add: bitlen_le_iff_power)
  let ?k = "nat (52 - ?e)"
  have ulp: "pow2 (max (binade (of_int n)) (- 1022) - 52) = 1 / 2 ^ ?k"
    using ge le by (simp add: binade_int [OF False] pow2_nonpos max_def)
  have div: "(of_int n :: rat) / (1 / 2 ^ ?k) = of_int (n * 2 ^ ?k)" by simp
  have y: "(of_int (round_half_even (of_int n / (1 / 2 ^ ?k))) :: rat) * (1 / 2 ^ ?k) = of_int n"
    unfolding div round_half_even_int by simp
  have "(of_int ?m :: rat) < of_int (2 ^ 53)" using assms by (simp only: of_int_less_iff)
  also have "\<dots> \<le> 2 ^ 1024" by simp
  finally have small: "\<not> pow2 1024 \<le> \<bar>of_int n :: rat\<bar>"
    by (simp add: pow2_nonneg)
  show ?thesis
    using False small unfolding to_double_def ulp Let_def y by simp
qed

lemma to_double_numeral:
  "numeral k < (2::int) ^ 53 \<Longrightarrow> to_double (numeral k) = Num (numeral k)"
  using to_double_int [of "numeral k"] by simp

lemma pow2_powi: "pow2 e = 2 powi e"
proof (cases "0 \<le> e")
  case True
  then show ?thesis by (simp add: pow2_def power_int_def)
next
  case False
  then show ?thesis by (simp add: pow2_def power_int_def field_simps)
qed

lemma binade_bounds:
  assumes "x \<noteq> 0"
  shows "pow2 (binade x) \<le> \<bar>x\<bar> \<and> \<bar>x\<bar> < pow2 (binade x + 1)"
proof -
  obtain p q where pq: "quotient_of \<bar>x\<bar> = (p, q)" by (cases "quotient_of \<bar>x\<bar>")
  then have q: "0 < q" and x: "\<bar>x\<bar> = of_int p / of_int q"
    by (simp_all add: quotient_of_denom_pos quotient_of_div)
  from assms have "0 < \<bar>x\<bar>" by simp
  with x q have "0 < (of_int p :: rat)" by (simp add: zero_less_divide_iff)
  then have p: "0 < p" by simp
  let ?e = "bitlen p - bitlen q"
  have gp: "1 \<le> bitlen p" and gq: "1 \<le> bitlen q" using p q by (auto simp: bitlen_alt_def)
  have p1: "(2::rat) powi (bitlen p - 1) \<le> of_int p"
  proof -
    have "(2::int) ^ nat (bitlen p - 1) \<le> p" using bitlen_bounds [OF p] by simp
    then have "(of_int (2 ^ nat (bitlen p - 1)) :: rat) \<le> of_int p" by (simp only: of_int_le_iff)
    then show ?thesis using gp by (simp add: power_int_def)
  qed
  have p2: "of_int p < (2::rat) powi (bitlen p)"
  proof -
    have "p < 2 ^ nat (bitlen p)" using bitlen_bounds [OF p] by simp
    then have "(of_int p :: rat) < of_int (2 ^ nat (bitlen p))" by (simp only: of_int_less_iff)
    then show ?thesis using gp by (simp add: power_int_def)
  qed
  have q1: "(2::rat) powi (bitlen q - 1) \<le> of_int q"
  proof -
    have "(2::int) ^ nat (bitlen q - 1) \<le> q" using bitlen_bounds [OF q] by simp
    then have "(of_int (2 ^ nat (bitlen q - 1)) :: rat) \<le> of_int q" by (simp only: of_int_le_iff)
    then show ?thesis using gq by (simp add: power_int_def)
  qed
  have q2: "of_int q < (2::rat) powi (bitlen q)"
  proof -
    have "q < 2 ^ nat (bitlen q)" using bitlen_bounds [OF q] by simp
    then have "(of_int q :: rat) < of_int (2 ^ nat (bitlen q))" by (simp only: of_int_less_iff)
    then show ?thesis using gq by (simp add: power_int_def)
  qed
  have qpos: "(0::rat) < of_int q" using q by simp
  have lo: "(2::rat) powi (?e - 1) \<le> \<bar>x\<bar>"
  proof -
    have "?e - 1 = (bitlen p - 1) - bitlen q" by simp
    then have "(2::rat) powi (?e - 1) = 2 powi ((bitlen p - 1) - bitlen q)" by (rule arg_cong)
    also have "\<dots> = 2 powi (bitlen p - 1) / 2 powi (bitlen q)"
      by (rule power_int_diff) simp
    also have "\<dots> \<le> of_int p / 2 powi (bitlen q)"
      using p1 by (simp add: divide_right_mono)
    also have "\<dots> \<le> of_int p / of_int q"
      using q2 qpos p by (simp add: frac_le)
    finally show ?thesis by (simp add: x)
  qed
  have hi: "\<bar>x\<bar> < (2::rat) powi (?e + 1)"
  proof -
    have "\<bar>x\<bar> = of_int p / of_int q" by (rule x)
    also have "\<dots> < 2 powi (bitlen p) / of_int q"
      using p2 qpos by (simp add: divide_strict_right_mono)
    also have "\<dots> \<le> 2 powi (bitlen p) / 2 powi (bitlen q - 1)"
      using q1 by (simp add: frac_le)
    also have "\<dots> = 2 powi (bitlen p - (bitlen q - 1))"
      by (rule power_int_diff [symmetric]) simp
    also have "bitlen p - (bitlen q - 1) = ?e + 1" by simp
    finally show ?thesis .
  qed
  show ?thesis
  proof (cases "pow2 ?e \<le> \<bar>x\<bar>")
    case True
    then have "binade x = ?e" by (simp add: binade_def pq Let_def)
    with True hi show ?thesis by (simp add: pow2_powi)
  next
    case False
    then have "binade x = ?e - 1" by (simp add: binade_def pq Let_def)
    with False lo show ?thesis by (simp add: pow2_powi)
  qed
qed

lemma js_less_NaN [simp]: "js_less a NaN = False"
  by (cases a) simp_all

lemma js_int_not_NaN [simp]: "js_int a \<noteq> NaN"
  by (simp add: js_int_def)

lemma js_times_int:
  "\<bar>a * b\<bar> < 2 ^ 53 \<Longrightarrow> js_times (js_int a) (js_int b) = js_int (a * b)"
  using to_double_int [of "a * b"] by (simp add: js_times_def js_int_def)

lemma js_le_total: "a \<noteq> NaN \<Longrightarrow> b \<noteq> NaN \<Longrightarrow> \<not> js_less b a \<Longrightarrow> js_le a b"
  by (cases a; cases b) (auto simp: js_le_def)

lemma Math_min_le:
  "a \<noteq> NaN \<Longrightarrow> b \<noteq> NaN \<Longrightarrow>
   js_le (Math_min a b) a \<and> js_le (Math_min a b) b \<and> (Math_min a b = a \<or> Math_min a b = b)"
  by (cases a; cases b) (auto simp: Math_min_def js_le_def)

lemma Math_min_absorb: "js_le a b \<Longrightarrow> Math_min a b = a"
  by (cases a; cases b) (auto simp: Math_min_def js_le_def)

lemma js_le_not_greater: "js_le a b \<Longrightarrow> \<not> js_greater a b"
  by (cases a; cases b) (auto simp: js_le_def js_greater_def)

lemmas number_simps = Math_min_def js_times_def js_greater_def js_int_def to_double_numeral

text \<open>Where the double product is not the exact one: with limits of \<open>94906267\<close> by
  \<open>94906267\<close> pixels and a budget one below their product, the product rounds down to the
  budget and the size is admitted. And a budget that is not a number refuses nothing.\<close>

lemma rounded_product_admitted:
  "enforceSize
     (cfg\<lparr>MAX_WIDTH := Num 94906267, MAX_HEIGHT := Num 94906267,
           MAX_PIXELS := Num 9007199515875288\<rparr>)
     ev (Some (Num 94906267)) (Some (Num 94906267)) =
     Inr \<lparr>v_width = Num 94906267, v_height = Num 94906267\<rparr> \<and>
   (94906267::int) * 94906267 = 9007199515875289"
proof -
  have "to_double (94906267 * 94906267) = Num 9007199515875288" by code_simp
  then show ?thesis
    by (simp add: enforceSize_def or_else_def Math_min_def js_times_def js_greater_def Let_def)
qed

lemma NaN_budget_refuses_nothing:
  "MAX_PIXELS cfg = NaN \<Longrightarrow> \<exists>vp. enforceSize cfg ev wd ht = Inr vp"
  by (simp add: enforceSize_def js_greater_def Let_def)

lemma NaN_limit_is_the_width:
  "MAX_WIDTH cfg = NaN \<Longrightarrow> \<exists>h. enforceSize cfg ev wd ht = Inr \<lparr>v_width = NaN, v_height = h\<rparr>"
  by (simp add: enforceSize_def js_greater_def js_times_def Math_min_def Let_def)


section \<open>What a run may append to the trace\<close>

lemma appendsI:
  "(\<And>st. \<exists>T. trace (snd (m st)) = trace st @ T \<and> list_all P T) \<Longrightarrow> appends P m"
  by (simp add: appends_def)

lemma appendsD:
  "appends P m \<Longrightarrow> \<exists>T. trace (snd (m st)) = trace st @ T \<and> list_all P T"
  by (simp add: appends_def)

lemma appends_ret: "appends P (ret v)"
  by (simp add: appends_def ret_def)

lemma appends_throw: "appends P (throw e)"
  by (simp add: appends_def throw_def)

lemma appends_call: "P c \<Longrightarrow> appends P (call ev c)"
  by (simp add: appends_def call_def)

lemma appends_emit: "P c \<Longrightarrow> appends P (emit c)"
  by (simp add: appends_def emit_def)

lemma appends_read_browser: "appends P read_browser"
  by (simp add: appends_def read_browser_def)

lemma appends_set_browser: "appends P (set_browser b)"
  by (simp add: appends_def set_browser_def)

lemma appends_and_then:
  assumes m: "appends P m" and f: "\<And>v. appends P (f v)"
  shows "appends P (and_then m f)"
proof (rule appendsI)
  fix st
  obtain r st1 where ms: "m st = (r, st1)" by (cases "m st")
  from appendsD [OF m, of st] ms obtain T1 where
    T1: "trace st1 = trace st @ T1" "list_all P T1" by auto
  show "\<exists>T. trace (snd (and_then m f st)) = trace st @ T \<and> list_all P T"
  proof (cases r)
    case (Inl e)
    with ms T1 show ?thesis by (simp add: and_then_def)
  next
    case (Inr v)
    from appendsD [OF f, of v st1] obtain T2 where
      T2: "trace (snd (f v st1)) = trace st1 @ T2" "list_all P T2" by auto
    with ms T1 Inr have "trace (snd (and_then m f st)) = trace st @ (T1 @ T2)"
      by (simp add: and_then_def)
    moreover from T1 T2 have "list_all P (T1 @ T2)" by simp
    ultimately show ?thesis by blast
  qed
qed

lemma appends_try_finally:
  assumes m: "appends P m" and c: "appends P c"
  shows "appends P (try_finally m c)"
proof (rule appendsI)
  fix st
  obtain r st1 where ms: "m st = (r, st1)" by (cases "m st")
  obtain r2 st2 where cs: "c st1 = (r2, st2)" by (cases "c st1")
  from appendsD [OF m, of st] ms obtain T1 where
    T1: "trace st1 = trace st @ T1" "list_all P T1" by auto
  from appendsD [OF c, of st1] cs obtain T2 where
    T2: "trace st2 = trace st1 @ T2" "list_all P T2" by auto
  from ms cs have "snd (try_finally m c st) = st2"
    by (cases r2) (simp_all add: try_finally_def)
  with T1 T2 have "trace (snd (try_finally m c st)) = trace st @ (T1 @ T2)" by simp
  moreover from T1 T2 have "list_all P (T1 @ T2)" by simp
  ultimately show "\<exists>T. trace (snd (try_finally m c st)) = trace st @ T \<and> list_all P T"
    by blast
qed

lemma appends_try_catch:
  assumes m: "appends P m" and h: "\<And>e. appends P (h e)"
  shows "appends P (try_catch m h)"
proof (rule appendsI)
  fix st
  obtain r st1 where ms: "m st = (r, st1)" by (cases "m st")
  from appendsD [OF m, of st] ms obtain T1 where
    T1: "trace st1 = trace st @ T1" "list_all P T1" by auto
  show "\<exists>T. trace (snd (try_catch m h st)) = trace st @ T \<and> list_all P T"
  proof (cases r)
    case (Inr v)
    with ms T1 show ?thesis by (simp add: try_catch_def)
  next
    case (Inl e)
    from appendsD [OF h, of e st1] obtain T2 where
      T2: "trace (snd (h e st1)) = trace st1 @ T2" "list_all P T2" by auto
    with ms T1 Inl have "trace (snd (try_catch m h st)) = trace st @ (T1 @ T2)"
      by (simp add: try_catch_def)
    moreover from T1 T2 have "list_all P (T1 @ T2)" by simp
    ultimately show ?thesis by blast
  qed
qed

lemma appends_getBrowser: "P GetBrowser \<Longrightarrow> P Launch \<Longrightarrow> appends P (getBrowser ev)"
  unfolding getBrowser_def
  by (auto intro!: appends_and_then appends_emit appends_read_browser appends_call
        appends_set_browser appends_ret)

lemma appends_getBrowser_probe:
  "P GetBrowser \<Longrightarrow> P Launch \<Longrightarrow> P Probe \<Longrightarrow> appends P (getBrowser_probe ev)"
  unfolding getBrowser_probe_def
  by (auto intro!: appends_and_then appends_emit appends_read_browser appends_call
        appends_set_browser appends_ret appends_try_catch)

lemma appends_page_session:
  assumes "appends P acquire" "appends P fn"
    and "P (NewContext (DEFAULT_DPR cfg))" "P Route" "P NewPage" "P PageClose" "P ContextClose"
  shows "appends P (page_session cfg ev acquire fn)"
  unfolding page_session_def using assms
  by (intro appends_and_then appends_try_finally appends_call) 

lemma withPage_loop_step:
  "withPage_loop cfg ev fn (Suc n) le st =
     (case page_session cfg ev (getBrowser_probe ev) fn st of
        (Inr v, s) \<Rightarrow> (Inr v, s)
      | (Inl e, s) \<Rightarrow>
          if is_browser_closed e then withPage_loop cfg ev fn n e (back_off s)
          else (Inl (rethrown e), s))"
  by (simp add: message_says_closed_def is_browser_closed_def rethrown_def
      split: prod.split sum.split thrown.split)

lemma appends_withPage_loop:
  assumes s: "appends P (page_session cfg ev (getBrowser_probe ev) fn)" and z: "P (Sleep 500)"
  shows "appends P (withPage_loop cfg ev fn n le)"
proof (rule appendsI)
  fix st
  show "\<exists>T. trace (snd (withPage_loop cfg ev fn n le st)) = trace st @ T \<and> list_all P T"
  proof (induction n arbitrary: le st)
    case 0
    show ?case by (simp add: throw_def)
  next
    case (Suc n)
    let ?a = "page_session cfg ev (getBrowser_probe ev) fn"
    obtain r st1 where a: "?a st = (r, st1)" by (cases "?a st")
    from appendsD [OF s, of st] a obtain T1 where
      T1: "trace st1 = trace st @ T1" "list_all P T1" by auto
    show ?case
    proof (cases r)
      case (Inr v)
      with a T1 show ?thesis by (simp add: withPage_loop_step del: withPage_loop.simps(2))
    next
      case (Inl e)
      show ?thesis
      proof (cases "is_browser_closed e")
        case False
        with a Inl T1 show ?thesis
          by (simp add: withPage_loop_step del: withPage_loop.simps(2))
      next
        case True
        from Suc.IH [of e "back_off st1"] obtain T2 where
          T2: "trace (snd (withPage_loop cfg ev fn n e (back_off st1))) = trace (back_off st1) @ T2"
              "list_all P T2" by blast
        with a Inl True T1 z
        have "trace (snd (withPage_loop cfg ev fn (Suc n) le st)) = trace st @ (T1 @ Sleep 500 # T2)"
          by (simp add: withPage_loop_step back_off_def del: withPage_loop.simps(2))
        moreover from T1 T2 z have "list_all P (T1 @ Sleep 500 # T2)" by simp
        ultimately show ?thesis by blast
      qed
    qed
  qed
qed

section \<open>Runs that follow a script\<close>


lemma followsI:
  "(\<And>st. browser (snd (m st)) = browser st \<and>
        (\<exists>T. trace (snd (m st)) = trace st @ T \<and> prefix T L \<and>
             (isl (fst (m st)) \<or> (fin \<and> T = L)))) \<Longrightarrow> follows L fin m"
  by (simp add: follows_def)

lemma followsD:
  "follows L fin m \<Longrightarrow> browser (snd (m st)) = browser st \<and>
        (\<exists>T. trace (snd (m st)) = trace st @ T \<and> prefix T L \<and>
             (isl (fst (m st)) \<or> (fin \<and> T = L)))"
  by (simp add: follows_def)

lemma follows_call: "follows [c] True (call ev c)"
  by (simp add: follows_def call_def)

lemma follows_ret: "follows [] True (ret v)"
  by (simp add: follows_def ret_def)

lemma follows_throw: "follows [] False (throw e)"
  by (simp add: follows_def throw_def)

lemma follows_seq:
  assumes m: "follows L1 True m" and f: "\<And>v. follows L2 fin (f v)"
  shows "follows (L1 @ L2) fin (and_then m f)"
proof (rule followsI)
  fix st
  obtain r st1 where ms: "m st = (r, st1)" by (cases "m st")
  from followsD [OF m, of st] ms obtain T1 where
    b1: "browser st1 = browser st" and
    T1: "trace st1 = trace st @ T1" "prefix T1 L1" "isl r \<or> T1 = L1" by auto
  show "browser (snd (and_then m f st)) = browser st \<and>
        (\<exists>T. trace (snd (and_then m f st)) = trace st @ T \<and> prefix T (L1 @ L2) \<and>
             (isl (fst (and_then m f st)) \<or> (fin \<and> T = L1 @ L2)))"
  proof (cases r)
    case (Inl e)
    with ms b1 T1 show ?thesis by (auto simp: and_then_def)
  next
    case (Inr v)
    with T1 have eq: "T1 = L1" by simp
    from followsD [OF f, of v st1] obtain T2 where
      b2: "browser (snd (f v st1)) = browser st1" and
      T2: "trace (snd (f v st1)) = trace st1 @ T2" "prefix T2 L2"
          "isl (fst (f v st1)) \<or> (fin \<and> T2 = L2)" by auto
    from ms Inr have run: "and_then m f st = f v st1" by (simp add: and_then_def)
    from T1 T2 eq have "trace (snd (f v st1)) = trace st @ (L1 @ T2)" by simp
    moreover from T2 have "prefix (L1 @ T2) (L1 @ L2)" by simp
    moreover from T2 have "isl (fst (f v st1)) \<or> (fin \<and> L1 @ T2 = L1 @ L2)" by auto
    ultimately show ?thesis using run b1 b2 by auto
  qed
qed

lemma follows_extra_wait:
  "follows (wait_events opts) True (extra_wait ev opts (request_timeout opts))"
  by (simp add: extra_wait_def wait_events_def follows_call follows_ret
      split: option.split wait_for.split)

lemma follows_take_screenshot: "follows [Screenshot so] True (take_screenshot ev so)"
  by (simp add: follows_def take_screenshot_def and_then_def call_def split: option.split)


lemma and_then_throw: "and_then (throw e) f = throw e"
  by (rule ext) (simp add: and_then_def throw_def)

lemma load_content_eq:
  "load_content cfg ev opts =
     (case content_event cfg ev opts of Inl e \<Rightarrow> throw e | Inr c \<Rightarrow> call ev c)"
  by (simp add: load_content_def content_event_def split: option.split sum.split)

lemma follows_render_page:
  "follows (page_script cfg ev opts vp cl) (\<not> isl (content_event cfg ev opts))
     (render_page cfg ev opts vp cl)"
proof (cases "content_event cfg ev opts")
  case (Inl e)
  have "follows ([SetViewportSize (v_width vp) (v_height vp)] @ [EmulateMedia] @
          [SetDefaultTimeout (request_timeout opts)] @ []) False (render_page cfg ev opts vp cl)"
    unfolding render_page_def load_content_eq Inl sum.case and_then_throw
    by (intro follows_seq follows_call follows_throw)
  with Inl show ?thesis by (simp add: page_script_def)
next
  case (Inr c)
  have "follows ([SetViewportSize (v_width vp) (v_height vp)] @ [EmulateMedia] @
          [SetDefaultTimeout (request_timeout opts)] @ [c] @ wait_events opts @
          [SetViewportSize (v_width vp) (v_height vp)] @ [Evaluate (request_dpr cfg opts)] @
          [Screenshot (shot_options opts cl)]) True (render_page cfg ev opts vp cl)"
    unfolding render_page_def load_content_eq Inr sum.case
    by (intro follows_seq follows_call follows_extra_wait follows_take_screenshot)
  with Inr show ?thesis by (simp add: page_script_def)
qed

lemma truthy_Some: "truthy s = Some u \<Longrightarrow> s = Some u \<and> u \<noteq> []"
  by (auto simp: truthy_def split: option.splits list.splits)

lemma content_event_within:
  "content_event cfg ev opts = Inr c \<Longrightarrow> within_request cfg ev opts vp cl c"
  by (auto simp: content_event_def dest: truthy_Some split: option.splits sum.splits if_splits)

lemma page_script_within:
  "list_all (within_request cfg ev opts vp cl) (page_script cfg ev opts vp cl)"
  by (auto simp: page_script_def wait_events_def content_event_within
      split: sum.split option.split wait_for.split)

lemma follows_appends:
  assumes "follows L fin m" and "list_all P L"
  shows "appends P m"
proof (rule appendsI)
  fix st
  from followsD [OF assms(1), of st] obtain T where
    T: "trace (snd (m st)) = trace st @ T" "prefix T L" by auto
  from T(2) assms(2) have "list_all P T"
    by (auto simp: list_all_iff dest: set_mono_prefix)
  with T(1) show "\<exists>T. trace (snd (m st)) = trace st @ T \<and> list_all P T" by blast
qed

lemma appends_render_page:
  "appends (within_request cfg ev opts vp cl) (render_page cfg ev opts vp cl)"
  by (rule follows_appends [OF follows_render_page page_script_within])

lemma appends_withPage_render:
  "appends (within_request cfg ev opts vp cl) (withPage cfg ev (render_page cfg ev opts vp cl))"
  unfolding withPage_def
  by (rule appends_page_session) (simp_all add: appends_getBrowser appends_render_page)

lemma appends_withPage_retry_render:
  "appends (within_request cfg ev opts vp cl)
     (withPage_retry cfg ev (render_page cfg ev opts vp cl))"
  unfolding withPage_retry_def
  by (rule appends_withPage_loop, rule appends_page_session)
     (simp_all add: appends_getBrowser_probe appends_render_page)

lemma call_ok: "engine_ok ev \<Longrightarrow> call ev c st = (Inr (), st\<lparr>trace := trace st @ [c]\<rparr>)"
  by (simp add: engine_ok_def call_def)

lemma getBrowser_ok:
  "engine_ok ev \<Longrightarrow>
   getBrowser ev st = (Inr (), st\<lparr>browser := True, trace := trace st @ acquire_events st\<rparr>)"
  by (simp add: getBrowser_def and_then_def emit_def read_browser_def set_browser_def ret_def
      call_ok acquire_events_def)

lemma page_session_ok:
  assumes ok: "engine_ok ev"
    and acq: "acquire st = (Inr (), st1)"
    and fn: "fn (st1\<lparr>trace := trace st1 @ [NewContext (DEFAULT_DPR cfg), Route, NewPage]\<rparr>) = (r, st2)"
  shows "page_session cfg ev acquire fn st =
           (r, st2\<lparr>trace := trace st2 @ [PageClose, ContextClose]\<rparr>)"
  using acq fn
  by (simp add: page_session_def and_then_def try_finally_def call_ok [OF ok])

lemma render_page_ok:
  assumes ok: "engine_ok ev"
  shows "render_page cfg ev opts vp cl st =
     (case content_event cfg ev opts of
        Inl e \<Rightarrow> (Inl e, st\<lparr>trace := trace st @ page_script cfg ev opts vp cl\<rparr>)
      | Inr c \<Rightarrow> (Inr (capture ev (trace st @ page_script cfg ev opts vp cl)),
                  st\<lparr>trace := trace st @ page_script cfg ev opts vp cl\<rparr>))"
  by (simp add: render_page_def load_content_eq and_then_def call_ok [OF ok] throw_def
      page_script_def extra_wait_def wait_events_def ret_def take_screenshot_def
      split: sum.split option.split wait_for.split)

lemma engine_ok_example: "engine_ok example_env"
  by (simp add: engine_ok_def example_env_def)

lemma enforceSize_cases:
  "enforceSize cfg ev wd ht =
     (if js_greater (js_times (Math_min (or_else wd (Num 1200)) (MAX_WIDTH cfg))
                              (Math_min (or_else ht (Num 630)) (MAX_HEIGHT cfg)))
           (MAX_PIXELS cfg)
      then Inl (Error (''Requested viewport ''
             @ number_text ev (Math_min (or_else wd (Num 1200)) (MAX_WIDTH cfg))
             @ ''x'' @ number_text ev (Math_min (or_else ht (Num 630)) (MAX_HEIGHT cfg))
             @ '' exceeds maximum pixel budget '' @ number_text ev (MAX_PIXELS cfg)))
      else Inr \<lparr>v_width = Math_min (or_else wd (Num 1200)) (MAX_WIDTH cfg),
                v_height = Math_min (or_else ht (Num 630)) (MAX_HEIGHT cfg)\<rparr>)"
  by (simp add: enforceSize_def Let_def)

lemma enforceSize_default:
  "enforceSize default_config ev None None = Inr \<lparr>v_width = Num 1200, v_height = Num 630\<rparr>"
  by (simp add: enforceSize_def or_else_def number_simps default_config_def)

lemma resolve_size_default:
  "truthy (sizePreset opts) = None \<Longrightarrow> width opts = None \<Longrightarrow> height opts = None \<Longrightarrow>
   resolve_size default_config ev opts = Inr \<lparr>v_width = Num 1200, v_height = Num 630\<rparr>"
  by (simp add: resolve_size_def apply_size_preset_def enforceSize_default)

lemma render_with_rejected:
  "RenderSchema ev opts \<Longrightarrow> resolve_size cfg ev opts = Inl e \<Longrightarrow>
   render_with wp cfg ev opts st = (render_failed e, st)"
  by (simp add: render_with_def)

lemma render_trace:
  assumes "resolve_size cfg ev opts = Inr vp"
  shows "\<exists>T. trace (snd (render cfg ev opts st)) = trace st @ T \<and>
             (\<forall>cl. resolve_clip cfg opts = Inr cl \<longrightarrow>
                list_all (within_request cfg ev opts vp cl) T)"
proof (cases "RenderSchema ev opts")
  case False
  then show ?thesis by (simp add: render_def render_with_def)
next
  case True
  show ?thesis
  proof (cases "resolve_clip cfg opts")
    case (Inl e)
    with True assms show ?thesis by (simp add: render_def render_with_def)
  next
    case (Inr cl)
    let ?m = "withPage cfg ev (render_page cfg ev opts vp cl)"
    from appendsD [OF appends_withPage_render, of cfg ev opts vp cl st]
    obtain T where T: "trace (snd (?m st)) = trace st @ T"
      "list_all (within_request cfg ev opts vp cl) T" by blast
    have "snd (render cfg ev opts st) = snd (?m st)"
      using True assms Inr
      by (simp add: render_def render_with_def split: prod.split sum.split)
    with T Inr show ?thesis by auto
  qed
qed

lemma page_session_isl:
  assumes "\<And>s. isl (fst (fn s))"
  shows "isl (fst (page_session cfg ev acquire fn st))"
proof -
  have fin: "isl (fst (try_finally fn c s))" for c :: "unit prog" and s
  proof -
    obtain r s1 where f: "fn s = (r, s1)" by (cases "fn s")
    with assms [of s] have "isl r" by simp
    with f show ?thesis
      by (cases "c s1") (auto simp: try_finally_def split: sum.split)
  qed
  show ?thesis
    unfolding page_session_def and_then_def
    by (simp add: fin split: prod.split sum.split)
qed

lemma render_page_isl:
  assumes "content_event cfg ev opts = Inl e"
  shows "isl (fst (render_page cfg ev opts vp cl st))"
  using followsD [OF follows_render_page, of cfg ev opts vp cl st]
  by (auto simp: assms)

lemma render_never_image:
  assumes "content_event cfg ev opts = Inl e"
  shows "fst (render cfg ev opts st) \<noteq> Image f b"
proof (cases "RenderSchema ev opts")
  case False
  then show ?thesis by (simp add: render_def render_with_def)
next
  case schema: True
  show ?thesis
  proof (cases "resolve_size cfg ev opts")
    case (Inl x)
    with schema show ?thesis
      by (simp add: render_def render_with_def render_failed_def split: thrown.split)
  next
    case (Inr vp)
    show ?thesis
    proof (cases "resolve_clip cfg opts")
      case (Inl x)
      with schema Inr show ?thesis
        by (simp add: render_def render_with_def render_failed_def split: thrown.split)
    next
      case cl: (Inr cl)
      obtain r st1 where w: "withPage cfg ev (render_page cfg ev opts vp cl) st = (r, st1)"
        by (cases "withPage cfg ev (render_page cfg ev opts vp cl) st")
      have "isl (fst (withPage cfg ev (render_page cfg ev opts vp cl) st))"
        unfolding withPage_def
        by (rule page_session_isl) (rule render_page_isl [OF assms])
      with w obtain x where "r = Inl x" by (cases r) auto
      with w schema Inr cl show ?thesis
        by (simp add: render_def render_with_def render_failed_def split: thrown.split)
    qed
  qed
qed

lemma render_refused:
  assumes "RenderSchema ev opts" and "engine_ok ev"
    and "resolve_size cfg ev opts = Inr vp" and "resolve_clip cfg opts = Inr cl"
    and "content_event cfg ev opts = Inl e"
  shows "render cfg ev opts st = (render_failed e, refused_session cfg opts vp st)"
proof -
  let ?s1 = "st\<lparr>browser := True, trace := trace st @ acquire_events st\<rparr>"
  let ?s2 = "?s1\<lparr>trace := trace ?s1 @ [NewContext (DEFAULT_DPR cfg), Route, NewPage]\<rparr>"
  let ?s3 = "?s2\<lparr>trace := trace ?s2 @ page_script cfg ev opts vp cl\<rparr>"
  have fn: "render_page cfg ev opts vp cl ?s2 = (Inl e, ?s3)"
    by (simp add: render_page_ok [OF assms(2)] assms(5))
  have "withPage cfg ev (render_page cfg ev opts vp cl) st =
          (Inl e, ?s3\<lparr>trace := trace ?s3 @ [PageClose, ContextClose]\<rparr>)"
    unfolding withPage_def
    by (rule page_session_ok [where acquire = "getBrowser ev" and st = st
          and fn = "render_page cfg ev opts vp cl" and cfg = cfg, OF assms(2)
          getBrowser_ok [OF assms(2)] fn])
  moreover have "?s3\<lparr>trace := trace ?s3 @ [PageClose, ContextClose]\<rparr> =
      refused_session cfg opts vp st"
    by (simp add: refused_session_def page_script_def assms(5))
  ultimately show ?thesis using assms by (simp add: render_def render_with_def)
qed

lemma render_no_goto:
  assumes "content_event cfg ev opts = Inl e"
  shows "\<exists>T. trace (snd (render cfg ev opts st)) = trace st @ T \<and> (\<forall>u w. Goto u w \<notin> set T)"
proof (cases "RenderSchema ev opts")
  case False
  then show ?thesis by (simp add: render_def render_with_def)
next
  case schema: True
  show ?thesis
  proof (cases "resolve_size cfg ev opts")
    case (Inl x)
    with schema show ?thesis by (simp add: render_def render_with_def)
  next
    case (Inr vp)
    show ?thesis
    proof (cases "resolve_clip cfg opts")
      case (Inl x)
      with schema Inr show ?thesis by (simp add: render_def render_with_def)
    next
      case cl: (Inr cl)
      let ?P = "\<lambda>c. within_request cfg ev opts vp cl c \<and> (\<forall>u w. c \<noteq> Goto u w)"
      have scr: "list_all ?P (page_script cfg ev opts vp cl)"
        using assms by (simp add: page_script_def)
      have "appends ?P (withPage cfg ev (render_page cfg ev opts vp cl))"
        unfolding withPage_def
        by (rule appends_page_session)
           (simp_all add: appends_getBrowser follows_appends [OF follows_render_page scr])
      from appendsD [OF this, of st] obtain T where
        T: "trace (snd (withPage cfg ev (render_page cfg ev opts vp cl) st)) = trace st @ T"
           "list_all ?P T" by blast
      have "snd (render cfg ev opts st) = snd (withPage cfg ev (render_page cfg ev opts vp cl) st)"
        using schema Inr cl by (simp add: render_def render_with_def split: prod.split sum.split)
      with T show ?thesis by (auto simp: list_all_iff)
    qed
  qed
qed

lemma isWhitelisted_iff:
  "isWhitelisted cfg ev u \<longleftrightarrow>
     (\<exists>h. URL_hostname ev u = Some h \<and> h \<noteq> [] \<and>
        (\<exists>p \<in> set (ALLOWLIST cfg).
           h = p \<or> (\<exists>dom. p = ''*.'' @ dom \<and> (h = dom \<or> (\<exists>sub. h = sub @ ''.'' @ dom)))))"
proof (cases "URL_hostname ev u")
  case None
  then show ?thesis by (simp add: isWhitelisted_def hostnameOf_def)
next
  case (Some h)
  have one: "(if prefix ''*.'' p then (let dom = drop 2 p in h = dom \<or> suffix (''.'' @ dom) h)
              else h = p) \<longleftrightarrow>
             (h = p \<or> (\<exists>dom. p = ''*.'' @ dom \<and> (h = dom \<or> (\<exists>sub. h = sub @ ''.'' @ dom))))"
    for p
  proof (cases "prefix ''*.'' p")
    case False
    then show ?thesis by (auto simp: prefix_def)
  next
    case True
    then obtain dom where p: "p = ''*.'' @ dom" by (auto simp: prefix_def)
    have "h = p \<Longrightarrow> suffix (''.'' @ dom) h"
      using p by (simp add: suffix_def)
    then show ?thesis using p by (auto simp: suffix_def Let_def)
  qed
  show ?thesis
    using Some by (auto simp: isWhitelisted_def hostnameOf_def list_ex_iff one)
qed

lemma url_opts_schema: "RenderSchema example_env url_opts"
  by (simp add: RenderSchema_def url_opts_def empty_opts_def in_range_def example_env_def)

lemma url_opts_size:
  "resolve_size default_config example_env url_opts = Inr \<lparr>v_width = Num 1200, v_height = Num 630\<rparr>"
  by (simp add: url_opts_def empty_opts_def resolve_size_def apply_size_preset_def truthy_def
      enforceSize_def or_else_def number_simps default_config_def)

lemma url_opts_clip: "resolve_clip default_config url_opts = Inr No_clip"
  by (simp add: url_opts_def empty_opts_def truthy_def resolve_clip_def)

lemma url_opts_source:
  "truthy (templateName url_opts) = None \<and> truthy (html url_opts) = None \<and>
   truthy (url url_opts) = Some ''https://example.com/''"
  by (simp add: url_opts_def empty_opts_def truthy_def)

lemma url_opts_refused:
  "render default_config example_env url_opts idle =
     (Bad_request ''URL rendering disabled by server configuration'',
      \<lparr>browser = True,
       trace = [GetBrowser, Launch, NewContext (Num 1), Route, NewPage, SetViewportSize (Num 1200) (Num 630),
                EmulateMedia, SetDefaultTimeout 15000, PageClose, ContextClose]\<rparr>)"
proof -
  have "content_event default_config example_env url_opts = Inl UrlRenderingDisabled"
    using url_opts_source by (simp add: content_event_def default_config_def)
  from render_refused [OF url_opts_schema engine_ok_example url_opts_size url_opts_clip this,
      of idle]
  show ?thesis
    by (simp add: render_failed_def UrlRenderingDisabled_def refused_session_def idle_def
        acquire_events_def request_timeout_def url_opts_def empty_opts_def default_config_def)
qed

lemma RenderSchema_url:
  "RenderSchema ev opts \<Longrightarrow> url_valid ev u \<Longrightarrow> RenderSchema ev (opts\<lparr>url := u\<rparr>)"
  "RenderSchema ev opts \<Longrightarrow> url_valid ev u \<Longrightarrow> RenderSchema ev (opts\<lparr>html := h, url := u\<rparr>)"
  by (simp_all add: RenderSchema_def url_valid_def)

lemma load_content_template_wins:
  "truthy (templateName opts) = Some name \<Longrightarrow>
   load_content cfg ev (opts\<lparr>html := h, url := u\<rparr>) = load_content cfg ev opts"
  by (simp add: load_content_def cong: sum.case_cong)

lemma load_content_html_wins:
  "truthy (templateName opts) = None \<Longrightarrow> truthy (html opts) = Some h \<Longrightarrow>
   load_content cfg ev (opts\<lparr>url := u\<rparr>) = load_content cfg ev opts"
  by (simp add: load_content_def)

lemma render_page_template_wins:
  "truthy (templateName opts) = Some name \<Longrightarrow>
   render_page cfg ev (opts\<lparr>html := h, url := u\<rparr>) vp cl = render_page cfg ev opts vp cl"
  by (simp add: render_page_def load_content_template_wins request_timeout_def extra_wait_def
      request_dpr_def shot_options_def)

lemma render_page_html_wins:
  "truthy (templateName opts) = None \<Longrightarrow> truthy (html opts) = Some h \<Longrightarrow>
   render_page cfg ev (opts\<lparr>url := u\<rparr>) vp cl = render_page cfg ev opts vp cl"
  by (simp add: render_page_def load_content_html_wins request_timeout_def extra_wait_def
      request_dpr_def shot_options_def)

lemma resolve_ignores_sources:
  "resolve_size cfg ev (opts\<lparr>html := h\<rparr>) = resolve_size cfg ev opts"
  "resolve_clip cfg (opts\<lparr>html := h\<rparr>) = resolve_clip cfg opts"
  "resolve_size cfg ev (opts\<lparr>url := u\<rparr>) = resolve_size cfg ev opts"
  "resolve_clip cfg (opts\<lparr>url := u\<rparr>) = resolve_clip cfg opts"
  by (simp_all add: resolve_size_def resolve_clip_def apply_size_preset_def
      cong: option.case_cong)

lemma render_with_cong:
  assumes "RenderSchema ev o1 = RenderSchema ev o2"
    and "resolve_size cfg ev o1 = resolve_size cfg ev o2"
    and "resolve_clip cfg o1 = resolve_clip cfg o2"
    and "\<And>vp cl. render_page cfg ev o1 vp cl = render_page cfg ev o2 vp cl"
    and "format o1 = format o2"
  shows "render_with wp cfg ev o1 st = render_with wp cfg ev o2 st"
  using assms by (simp add: render_with_def cong: sum.case_cong)

lemma RenderSchema_size:
  "RenderSchema ev opts \<Longrightarrow> in_range w 1 10000 \<Longrightarrow> in_range h 1 10000 \<Longrightarrow>
   RenderSchema ev (opts\<lparr>width := w, height := h\<rparr>)"
  by (simp add: RenderSchema_def)

lemma render_page_ignores_size:
  "render_page cfg ev (opts\<lparr>width := w, height := h\<rparr>) vp cl = render_page cfg ev opts vp cl"
proof -
  have "load_content cfg ev (opts\<lparr>width := w, height := h\<rparr>) = load_content cfg ev opts"
    by (simp add: load_content_def split: option.split sum.split)
  then show ?thesis
    by (simp add: render_page_def request_timeout_def extra_wait_def request_dpr_def
        shot_options_def)
qed

lemma resolve_size_preset:
  "truthy (sizePreset opts) = Some name \<Longrightarrow> PRESETS_sizes cfg name = Some sp \<Longrightarrow>
   resolve_size cfg ev (opts\<lparr>width := w, height := h\<rparr>) = enforceSize cfg ev (sp_width sp) (sp_height sp)"
  by (simp add: resolve_size_def apply_size_preset_def js_get_def)

lemma resolve_size_preset_same:
  "truthy (sizePreset opts) = Some name \<Longrightarrow> PRESETS_sizes cfg name = Some sp \<Longrightarrow>
   resolve_size cfg ev opts = enforceSize cfg ev (sp_width sp) (sp_height sp)"
  by (simp add: resolve_size_def apply_size_preset_def js_get_def)

lemma resolve_clip_ignores_size:
  "resolve_clip cfg (opts\<lparr>width := w, height := h\<rparr>) = resolve_clip cfg opts"
  by (simp add: resolve_clip_def cong: option.case_cong)

lemma page_session_split:
  "page_session cfg ev acquire fn =
     and_then (session_setup cfg ev acquire) (\<lambda>_. try_finally fn (session_close ev))"
  by (rule ext)
     (simp add: page_session_def session_setup_def session_close_def and_then_def
        split: prod.split sum.split)

lemma appends_session_setup:
  "appends setup_event acquire \<Longrightarrow> appends setup_event (session_setup cfg ev acquire)"
  unfolding session_setup_def
  by (intro appends_and_then appends_call) simp_all

lemma appends_session_close: "appends close_event (session_close ev)"
  unfolding session_close_def
  by (intro appends_and_then appends_call) simp_all

lemma page_session_shape:
  assumes acq: "appends setup_event acquire" and fn: "follows L fin fn"
  shows "\<exists>pre Tfn post.
           trace (snd (page_session cfg ev acquire fn st)) = trace st @ pre @ Tfn @ post \<and>
           list_all setup_event pre \<and> prefix Tfn L \<and> list_all close_event post"
proof -
  let ?opening = "session_setup cfg ev acquire"
  obtain r1 s1 where s: "?opening st = (r1, s1)" by (cases "?opening st")
  from appendsD [OF appends_session_setup [OF acq], of cfg ev st] s obtain pre where
    pre: "trace s1 = trace st @ pre" "list_all setup_event pre" by auto
  show ?thesis
  proof (cases r1)
    case (Inl e)
    with s have "snd (page_session cfg ev acquire fn st) = s1"
      by (simp add: page_session_split and_then_def)
    with pre have "trace (snd (page_session cfg ev acquire fn st)) = trace st @ pre @ [] @ []"
      by simp
    moreover have "prefix [] L" "list_all close_event []" by simp_all
    ultimately show ?thesis using pre(2) by blast
  next
    case (Inr u)
    obtain r2 s2 where f: "fn s1 = (r2, s2)" by (cases "fn s1")
    obtain r3 s3 where c: "session_close ev s2 = (r3, s3)" by (cases "session_close ev s2")
    from followsD [OF fn, of s1] f obtain Tfn where
      Tfn: "trace s2 = trace s1 @ Tfn" "prefix Tfn L" by auto
    from appendsD [OF appends_session_close, of ev s2] c obtain post where
      post: "trace s3 = trace s2 @ post" "list_all close_event post" by auto
    from s Inr f c have "snd (page_session cfg ev acquire fn st) = s3"
      by (cases r3) (simp_all add: page_session_split and_then_def try_finally_def)
    with pre Tfn post
    have "trace (snd (page_session cfg ev acquire fn st)) = trace st @ pre @ Tfn @ post"
      by simp
    with pre Tfn post show ?thesis by blast
  qed
qed

lemma content_event_kind:
  "content_event cfg ev opts = Inr c \<Longrightarrow>
   (\<exists>m. c = SetContent m (waitUntil opts)) \<or> (\<exists>u. c = Goto u (waitUntil opts))"
  by (auto simp: content_event_def split: option.splits sum.splits if_splits)

lemma wait_events_kind:
  "c \<in> set (wait_events opts) \<Longrightarrow>
   (\<exists>n. c = WaitForTimeout n) \<or> (\<exists>sel t. c = WaitForSelector sel t)"
  by (cases "waitFor opts"; cases "the (waitFor opts)") (auto simp: wait_events_def)


lemma render_with_trace:
  assumes "\<And>vp cl. appends (P vp cl) (wp (render_page cfg ev opts vp cl))"
  shows "\<exists>T. trace (snd (render_with wp cfg ev opts st)) = trace st @ T \<and>
             (\<forall>vp cl. resolve_size cfg ev opts = Inr vp \<longrightarrow> resolve_clip cfg opts = Inr cl \<longrightarrow>
                list_all (P vp cl) T)"
proof (cases "RenderSchema ev opts")
  case False
  then show ?thesis by (simp add: render_with_def)
next
  case schema: True
  show ?thesis
  proof (cases "resolve_size cfg ev opts")
    case (Inl e)
    with schema show ?thesis by (simp add: render_with_def)
  next
    case (Inr vp)
    show ?thesis
    proof (cases "resolve_clip cfg opts")
      case (Inl e)
      with schema Inr show ?thesis by (simp add: render_with_def)
    next
      case cl: (Inr cl)
      let ?m = "wp (render_page cfg ev opts vp cl)"
      from appendsD [OF assms, of vp cl st] obtain T where
        T: "trace (snd (?m st)) = trace st @ T" "list_all (P vp cl) T" by blast
      have "snd (render_with wp cfg ev opts st) = snd (?m st)"
        using schema Inr cl by (simp add: render_with_def split: prod.split sum.split)
      with T Inr cl show ?thesis by auto
    qed
  qed
qed

text \<open>The calls of a request served by the later server are bound in the same way.\<close>

lemma render_retry_trace:
  "\<exists>T. trace (snd (render_retry cfg ev opts st)) = trace st @ T \<and>
       (\<forall>vp cl. resolve_size cfg ev opts = Inr vp \<longrightarrow> resolve_clip cfg opts = Inr cl \<longrightarrow>
          list_all (within_request cfg ev opts vp cl) T)"
  unfolding render_retry_def
  by (rule render_with_trace) (rule appends_withPage_retry_render)

lemma render_shape:
  assumes "resolve_size cfg ev opts = Inr vp" and "resolve_clip cfg opts = Inr cl"
  shows "\<exists>pre Tfn post.
           trace (snd (render cfg ev opts st)) = trace st @ pre @ Tfn @ post \<and>
           list_all setup_event pre \<and> prefix Tfn (page_script cfg ev opts vp cl) \<and>
           list_all close_event post"
proof (cases "RenderSchema ev opts")
  case False
  then have "trace (snd (render cfg ev opts st)) = trace st @ [] @ [] @ []"
    by (simp add: render_def render_with_def)
  moreover have "list_all setup_event []" "prefix [] (page_script cfg ev opts vp cl)"
    "list_all close_event []" by simp_all
  ultimately show ?thesis by blast
next
  case True
  let ?m = "withPage cfg ev (render_page cfg ev opts vp cl)"
  have "snd (render cfg ev opts st) = snd (?m st)"
    using True assms by (simp add: render_def render_with_def split: prod.split sum.split)
  moreover have "appends setup_event (getBrowser ev)"
    by (rule appends_getBrowser) simp_all
  from page_session_shape [OF this follows_render_page]
  have "\<exists>pre Tfn post. trace (snd (?m st)) = trace st @ pre @ Tfn @ post \<and>
           list_all setup_event pre \<and> prefix Tfn (page_script cfg ev opts vp cl) \<and>
           list_all close_event post"
    unfolding withPage_def .
  ultimately show ?thesis by simp
qed


lemma not_setup_event: "list_all setup_event pre \<Longrightarrow> \<not> setup_event c \<Longrightarrow> c \<notin> set pre"
  by (auto simp: list_all_iff)

lemma not_close_event: "list_all close_event post \<Longrightarrow> \<not> close_event c \<Longrightarrow> c \<notin> set post"
  by (auto simp: list_all_iff)

lemma render_served:
  assumes "RenderSchema ev opts" and "engine_ok ev"
    and "resolve_size cfg ev opts = Inr vp" and "resolve_clip cfg opts = Inr cl"
    and "content_event cfg ev opts = Inr c"
  shows "render cfg ev opts st =
     (Image (format opts)
        (capture ev (trace st @ acquire_events st @
           [NewContext (DEFAULT_DPR cfg), Route, NewPage] @ page_script cfg ev opts vp cl)),
      served_session cfg ev opts vp cl st)"
proof -
  let ?s1 = "st\<lparr>browser := True, trace := trace st @ acquire_events st\<rparr>"
  let ?s2 = "?s1\<lparr>trace := trace ?s1 @ [NewContext (DEFAULT_DPR cfg), Route, NewPage]\<rparr>"
  let ?s3 = "?s2\<lparr>trace := trace ?s2 @ page_script cfg ev opts vp cl\<rparr>"
  let ?b = "capture ev (trace ?s2 @ page_script cfg ev opts vp cl)"
  have fn: "render_page cfg ev opts vp cl ?s2 = (Inr ?b, ?s3)"
    by (simp add: render_page_ok [OF assms(2)] assms(5))
  have "withPage cfg ev (render_page cfg ev opts vp cl) st =
          (Inr ?b, ?s3\<lparr>trace := trace ?s3 @ [PageClose, ContextClose]\<rparr>)"
    unfolding withPage_def
    by (rule page_session_ok [where acquire = "getBrowser ev" and st = st
          and fn = "render_page cfg ev opts vp cl" and cfg = cfg, OF assms(2)
          getBrowser_ok [OF assms(2)] fn])
  moreover have "?s3\<lparr>trace := trace ?s3 @ [PageClose, ContextClose]\<rparr> =
      served_session cfg ev opts vp cl st"
    by (simp add: served_session_def)
  ultimately show ?thesis using assms by (simp add: render_def render_with_def)
qed

lemma render_untouched:
  assumes "\<not> RenderSchema ev opts \<or> isl (resolve_size cfg ev opts) \<or> isl (resolve_clip cfg opts)"
  shows "snd (render cfg ev opts st) = st"
  using assms
  by (auto simp: render_def render_with_def split: sum.split)





lemma clipped_opts_facts:
  "RenderSchema example_env clipped_opts"
  "resolve_size default_config example_env clipped_opts = Inr \<lparr>v_width = Num 1200, v_height = Num 630\<rparr>"
  "resolve_clip default_config clipped_opts = Inr (Clip wild_clip)"
  "content_event default_config example_env clipped_opts = Inr (SetContent ''<p>hi</p>'' Networkidle)"
  "truthy (clipPreset clipped_opts) = None"
  by (simp_all add: clipped_opts_def empty_opts_def RenderSchema_def in_range_def
      resolve_size_def apply_size_preset_def truthy_def enforceSize_def or_else_def number_simps
      default_config_def resolve_clip_def content_event_def inject_css_def)

lemma attempt_start_shift:
  "attempt_start cfg ev fn (Suc k) st =
     attempt_start cfg ev fn k (back_off (snd (attempt cfg ev fn st)))"
  by (induction k) simp_all

lemma withPage_loop_Suc:
  "withPage_loop cfg ev fn (Suc n) le st =
     (case attempt cfg ev fn st of
        (Inr v, s) \<Rightarrow> (Inr v, s)
      | (Inl e, s) \<Rightarrow>
          if is_browser_closed e then withPage_loop cfg ev fn n e (back_off s)
          else (Inl (rethrown e), s))"
  unfolding attempt_def by (rule withPage_loop_step)

lemma retried_0: "retried cfg ev fn st 0"
  by (simp add: retried_def)

lemma retried_Suc:
  assumes "attempt cfg ev fn st = (Inl e, s)" and "is_browser_closed e"
    and "retried cfg ev fn (back_off s) k"
  shows "retried cfg ev fn st (Suc k)"
  unfolding retried_def
proof (intro allI impI)
  fix j assume j: "j < Suc k"
  show "\<exists>e. fst (attempt cfg ev fn (attempt_start cfg ev fn j st)) = Inl e \<and> is_browser_closed e"
  proof (cases j)
    case 0
    with assms(1,2) show ?thesis by simp
  next
    case (Suc i)
    with j have "i < k" by simp
    with assms(3) obtain e' where
      "fst (attempt cfg ev fn (attempt_start cfg ev fn i (back_off s))) = Inl e'"
      "is_browser_closed e'"
      unfolding retried_def by blast
    moreover have "attempt_start cfg ev fn (Suc i) st = attempt_start cfg ev fn i (back_off s)"
      using assms(1) by (simp add: attempt_start_shift del: attempt_start.simps)
    ultimately show ?thesis using Suc by (simp del: attempt_start.simps)
  qed
qed

lemma settles_Suc:
  assumes "attempt cfg ev fn st = (Inl e, s)"
    and "settles cfg ev fn n (back_off s) k res"
  shows "settles cfg ev fn (Suc n) st (Suc k) res"
proof -
  have "attempt_start cfg ev fn (Suc k) st = attempt_start cfg ev fn k (back_off s)"
    using assms(1) by (simp add: attempt_start_shift del: attempt_start.simps)
  with assms(2) show ?thesis
    unfolding settles_def
    by (auto simp del: attempt_start.simps split: prod.splits sum.splits if_splits)
qed

lemma withPage_loop_rounds:
  "\<exists>k < Suc n. retried cfg ev fn st k \<and>
      settles cfg ev fn (Suc n) st k (withPage_loop cfg ev fn (Suc n) le st)"
proof (induction n arbitrary: st le)
  case 0
  have "settles cfg ev fn (Suc 0) st 0 (withPage_loop cfg ev fn (Suc 0) le st)"
    unfolding settles_def
    by (simp add: withPage_loop_Suc throw_def split: prod.split sum.split
          del: withPage_loop.simps(2))
  with retried_0 show ?case by blast
next
  case (Suc n)
  obtain r s where a: "attempt cfg ev fn st = (r, s)" by (cases "attempt cfg ev fn st")
  show ?case
  proof (cases "\<exists>e. r = Inl e \<and> is_browser_closed e")
    case False
    with a have "settles cfg ev fn (Suc (Suc n)) st 0
        (withPage_loop cfg ev fn (Suc (Suc n)) le st)"
      unfolding settles_def
      by (auto simp: withPage_loop_Suc split: sum.split simp del: withPage_loop.simps(2))
    with retried_0 show ?thesis by blast
  next
    case True
    then obtain e where e: "r = Inl e" "is_browser_closed e" by blast
    from Suc.IH [of "back_off s" e] obtain k where k: "k < Suc n"
      and earlier: "retried cfg ev fn (back_off s) k"
      and last: "settles cfg ev fn (Suc n) (back_off s) k
          (withPage_loop cfg ev fn (Suc n) e (back_off s))"
      by blast
    have loop: "withPage_loop cfg ev fn (Suc (Suc n)) le st =
        withPage_loop cfg ev fn (Suc n) e (back_off s)"
      using a e by (subst withPage_loop_Suc) simp
    from a e have a': "attempt cfg ev fn st = (Inl e, s)" by simp
    have "retried cfg ev fn st (Suc k)"
      by (rule retried_Suc [OF a' e(2) earlier])
    moreover have "settles cfg ev fn (Suc (Suc n)) st (Suc k)
        (withPage_loop cfg ev fn (Suc (Suc n)) le st)"
      unfolding loop by (rule settles_Suc [OF a' last])
    moreover from k have "Suc k < Suc (Suc n)" by simp
    ultimately show ?thesis by blast
  qed
qed

lemma acquire_then:
  assumes rest: "appends (\<lambda>c. c \<noteq> GetBrowser) rest"
  shows "\<exists>T. trace (snd (and_then (emit GetBrowser) (\<lambda>_. rest) st)) = trace st @ T \<and>
             count_list T GetBrowser = 1"
proof -
  from appendsD [OF rest, of "st\<lparr>trace := trace st @ [GetBrowser]\<rparr>"] obtain T where
    T: "trace (snd (rest (st\<lparr>trace := trace st @ [GetBrowser]\<rparr>))) = trace st @ GetBrowser # T"
       "list_all (\<lambda>c. c \<noteq> GetBrowser) T" by auto
  from T(2) have "GetBrowser \<notin> set T" by (auto simp: list_all_iff)
  then have "count_list (GetBrowser # T) GetBrowser = 1" by simp
  with T(1) show ?thesis by (auto simp: and_then_def emit_def)
qed

lemma page_session_acquires_once:
  assumes fn: "appends (\<lambda>c. c \<noteq> GetBrowser) fn"
    and acq: "acquire = and_then (emit GetBrowser) (\<lambda>_. rest)"
    and rest: "appends (\<lambda>c. c \<noteq> GetBrowser) rest"
  shows "\<exists>T. trace (snd (page_session cfg ev acquire fn st)) = trace st @ T \<and>
             count_list T GetBrowser = 1"
proof -
  let ?body = "and_then rest (\<lambda>_.
     and_then (call ev (NewContext (DEFAULT_DPR cfg))) (\<lambda>_.
     and_then (call ev Route) (\<lambda>_.
     and_then (call ev NewPage) (\<lambda>_.
       try_finally fn (and_then (call ev PageClose) (\<lambda>_. call ev ContextClose))))))"
  have eq: "page_session cfg ev acquire fn = and_then (emit GetBrowser) (\<lambda>_. ?body)"
    unfolding page_session_def acq
    by (rule ext) (simp add: and_then_def emit_def split: prod.split sum.split)
  have "appends (\<lambda>c. c \<noteq> GetBrowser) ?body"
    by (intro appends_and_then appends_try_finally appends_call rest fn) simp_all
  from acquire_then [OF this, of st] show ?thesis unfolding eq .
qed

lemma attempt_acquires_once:
  assumes "appends (\<lambda>c. c \<noteq> GetBrowser) fn"
  shows "\<exists>T. trace (snd (attempt cfg ev fn st)) = trace st @ T \<and> count_list T GetBrowser = 1"
  unfolding attempt_def
proof (rule page_session_acquires_once [OF assms])
  show "getBrowser_probe ev = and_then (emit GetBrowser) (\<lambda>_.
     and_then read_browser (\<lambda>b.
     and_then (if b then try_catch (call ev Probe) (\<lambda>err. set_browser False) else ret ()) (\<lambda>_.
     and_then read_browser (\<lambda>b'.
       if \<not> b' then and_then (call ev Launch) (\<lambda>_. set_browser True)
       else ret ()))))"
    by (simp add: getBrowser_probe_def)
  show "appends (\<lambda>c. c \<noteq> GetBrowser) (and_then read_browser (\<lambda>b.
     and_then (if b then try_catch (call ev Probe) (\<lambda>err. set_browser False) else ret ()) (\<lambda>_.
     and_then read_browser (\<lambda>b'.
       if \<not> b' then and_then (call ev Launch) (\<lambda>_. set_browser True)
       else ret ()))))"
    by (auto intro!: appends_and_then appends_read_browser appends_call appends_set_browser
        appends_ret appends_try_catch)
qed

lemma withPage_acquires_once:
  assumes "appends (\<lambda>c. c \<noteq> GetBrowser) fn"
  shows "\<exists>T. trace (snd (withPage cfg ev fn st)) = trace st @ T \<and> count_list T GetBrowser = 1"
  unfolding withPage_def
proof (rule page_session_acquires_once [OF assms])
  show "getBrowser ev = and_then (emit GetBrowser) (\<lambda>_.
     and_then read_browser (\<lambda>b.
       if \<not> b then and_then (call ev Launch) (\<lambda>_. set_browser True)
       else ret ()))"
    by (simp add: getBrowser_def)
  show "appends (\<lambda>c. c \<noteq> GetBrowser) (and_then read_browser (\<lambda>b.
       if \<not> b then and_then (call ev Launch) (\<lambda>_. set_browser True)
       else ret ()))"
    by (auto intro!: appends_and_then appends_read_browser appends_call appends_set_browser
        appends_ret)
qed

lemma withPage_loop_acquires:
  assumes fn: "appends (\<lambda>c. c \<noteq> GetBrowser) fn"
  shows "\<exists>T. trace (snd (withPage_loop cfg ev fn n le st)) = trace st @ T \<and>
             count_list T GetBrowser \<le> n \<and> (0 < n \<longrightarrow> 1 \<le> count_list T GetBrowser)"
proof (induction n arbitrary: le st)
  case 0
  show ?case by (simp add: throw_def)
next
  case (Suc n)
  obtain r s where a: "attempt cfg ev fn st = (r, s)" by (cases "attempt cfg ev fn st")
  from attempt_acquires_once [OF fn, of cfg ev st] a obtain T1 where
    T1: "trace s = trace st @ T1" "count_list T1 GetBrowser = 1" by auto
  show ?case
  proof (cases "\<exists>e. r = Inl e \<and> is_browser_closed e")
    case False
    with a have "snd (withPage_loop cfg ev fn (Suc n) le st) = s"
      by (auto simp: withPage_loop_Suc split: sum.split simp del: withPage_loop.simps(2))
    with T1 show ?thesis by auto
  next
    case True
    then obtain e where e: "r = Inl e" "is_browser_closed e" by blast
    from Suc.IH [of e "back_off s"] obtain T2 where
      T2: "trace (snd (withPage_loop cfg ev fn n e (back_off s))) = trace (back_off s) @ T2"
          "count_list T2 GetBrowser \<le> n" by blast
    from a e have "withPage_loop cfg ev fn (Suc n) le st = withPage_loop cfg ev fn n e (back_off s)"
      by (subst withPage_loop_Suc) simp
    with T1 T2 have "trace (snd (withPage_loop cfg ev fn (Suc n) le st)) =
        trace st @ (T1 @ Sleep 500 # T2)"
      by (simp add: back_off_def)
    moreover from T1 T2 have "count_list (T1 @ Sleep 500 # T2) GetBrowser \<le> Suc n"
      "1 \<le> count_list (T1 @ Sleep 500 # T2) GetBrowser" by simp_all
    ultimately show ?thesis by blast
  qed
qed

lemma relaunch_after_back_off:
  "trace (snd (getBrowser_probe ev (back_off s))) = trace s @ [Sleep 500, GetBrowser, Launch]"
  by (simp add: getBrowser_probe_def back_off_def and_then_def emit_def read_browser_def
      ret_def call_def set_browser_def split: option.split)

lemma render_page_never_acquires:
  "appends (\<lambda>c. c \<noteq> GetBrowser) (render_page cfg ev opts vp cl)"
proof (rule follows_appends [OF follows_render_page])
  have "GetBrowser \<notin> set (page_script cfg ev opts vp cl)"
  proof (cases "content_event cfg ev opts")
    case (Inl e)
    then show ?thesis by (simp add: page_script_def)
  next
    case (Inr c)
    with content_event_kind [OF Inr] wait_events_kind [of GetBrowser opts]
    show ?thesis by (auto simp: page_script_def)
  qed
  then show "list_all (\<lambda>c. c \<noteq> GetBrowser) (page_script cfg ev opts vp cl)"
    by (auto simp: list_all_iff)
qed

lemma closed_examples:
  "is_browser_closed
     (Error ''browser.newContext: Target page, context or browser has been closed'')"
  "is_browser_closed
     (Error ''browserContext.newPage: Target page, context or browser has been closed'')"
  "\<not> is_browser_closed (Error ''page.screenshot: Timeout 15000ms exceeded.'')"
  "\<not> is_browser_closed (Error ''page.close: Protocol error (Target.closeTarget)'')"
  unfolding is_browser_closed_def message_says_closed_def closed_message_def by code_simp+

lemma html_opts_facts:
  "RenderSchema ev html_opts"
  "resolve_size default_config ev html_opts = Inr \<lparr>v_width = Num 1200, v_height = Num 630\<rparr>"
  "resolve_clip default_config html_opts = Inr No_clip"
  by (simp_all add: html_opts_def empty_opts_def RenderSchema_def in_range_def
      resolve_size_def apply_size_preset_def truthy_def enforceSize_def or_else_def number_simps
      default_config_def resolve_clip_def)

lemma html_opts_page:
  "render_page default_config ev html_opts \<lparr>v_width = Num 1200, v_height = Num 630\<rparr> No_clip =
     and_then (call ev (SetViewportSize (Num 1200) (Num 630))) (\<lambda>_.
     and_then (call ev EmulateMedia) (\<lambda>_.
     and_then (call ev (SetDefaultTimeout 15000)) (\<lambda>_.
     and_then (call ev (SetContent ''<p>hi</p>'' Networkidle)) (\<lambda>_.
     and_then (ret ()) (\<lambda>_.
     and_then (call ev (SetViewportSize (Num 1200) (Num 630))) (\<lambda>_.
     and_then (call ev (Evaluate (Num 1))) (\<lambda>_.
       take_screenshot ev (shot_options html_opts No_clip))))))))"
  by (simp add: render_page_def load_content_def extra_wait_def request_timeout_def
      request_dpr_def html_opts_def empty_opts_def truthy_def inject_css_def default_config_def)

lemma closed_attempt:
  "\<not> browser s \<Longrightarrow>
   attempt default_config closed_env fn s =
     (Inl (Error ''browser.newContext: Target page, context or browser has been closed''),
      s\<lparr>browser := True, trace := trace s @ [GetBrowser, Launch, NewContext (Num 1)]\<rparr>)"
  by (simp add: attempt_def page_session_def getBrowser_probe_def and_then_def emit_def
      read_browser_def ret_def call_def set_browser_def closed_env_def example_env_def
      default_config_def)

lemma closed_run:
  "withPage_retry default_config closed_env fn idle =
     (Inl (Error ''browser.newContext: Target page, context or browser has been closed''),
      \<lparr>browser = False,
       trace = [GetBrowser, Launch, NewContext (Num 1), Sleep 500,
                GetBrowser, Launch, NewContext (Num 1), Sleep 500,
                GetBrowser, Launch, NewContext (Num 1), Sleep 500]\<rparr>)"
  by (simp add: withPage_retry_def numeral_3_eq_3 withPage_loop_Suc closed_attempt
      closed_examples back_off_def throw_def idle_def del: withPage_loop.simps(2))

lemma slow_run:
  "withPage_retry default_config slow_env
     (render_page default_config slow_env html_opts \<lparr>v_width = Num 1200, v_height = Num 630\<rparr> No_clip) idle =
     (Inl (Error ''page.screenshot: Timeout 15000ms exceeded.''),
      \<lparr>browser = True,
       trace = [GetBrowser, Launch, NewContext (Num 1), Route, NewPage, SetViewportSize (Num 1200) (Num 630),
                EmulateMedia, SetDefaultTimeout 15000, SetContent ''<p>hi</p>'' Networkidle,
                SetViewportSize (Num 1200) (Num 630), Evaluate (Num 1), Screenshot (shot_options html_opts No_clip),
                PageClose, ContextClose]\<rparr>)"
proof -
  have "attempt default_config slow_env
     (render_page default_config slow_env html_opts \<lparr>v_width = Num 1200, v_height = Num 630\<rparr> No_clip) idle =
     (Inl (Error ''page.screenshot: Timeout 15000ms exceeded.''),
      \<lparr>browser = True,
       trace = [GetBrowser, Launch, NewContext (Num 1), Route, NewPage, SetViewportSize (Num 1200) (Num 630),
                EmulateMedia, SetDefaultTimeout 15000, SetContent ''<p>hi</p>'' Networkidle,
                SetViewportSize (Num 1200) (Num 630), Evaluate (Num 1), Screenshot (shot_options html_opts No_clip),
                PageClose, ContextClose]\<rparr>)"
    unfolding attempt_def page_session_def html_opts_page
    by (simp add: getBrowser_probe_def take_screenshot_def try_finally_def and_then_def
        emit_def read_browser_def ret_def call_def set_browser_def slow_env_def
        example_env_def default_config_def idle_def)
  then show ?thesis
    by (simp add: withPage_retry_def numeral_3_eq_3 withPage_loop_Suc closed_examples
        rethrown_def del: withPage_loop.simps(2))
qed

lemma closes_after_callback:
  assumes "engine ev (trace (snd (fn s))) PageClose = None"
  shows "trace (snd (try_finally fn (and_then (call ev PageClose) (\<lambda>_. call ev ContextClose)) s)) =
           trace (snd (fn s)) @ [PageClose, ContextClose]"
  using assms
  by (cases "fn s")
     (simp add: try_finally_def and_then_def call_def split: option.split sum.split)

lemma stuck_page_run:
  "render default_config stuck_page_env html_opts idle =
     (Bad_request ''page.close: Protocol error (Target.closeTarget)'',
      \<lparr>browser = True,
       trace = [GetBrowser, Launch, NewContext (Num 1), Route, NewPage, SetViewportSize (Num 1200) (Num 630),
                EmulateMedia, SetDefaultTimeout 15000, SetContent ''<p>hi</p>'' Networkidle,
                SetViewportSize (Num 1200) (Num 630), Evaluate (Num 1), Screenshot (shot_options html_opts No_clip),
                PageClose]\<rparr>)"
proof -
  have "withPage default_config stuck_page_env
     (render_page default_config stuck_page_env html_opts \<lparr>v_width = Num 1200, v_height = Num 630\<rparr> No_clip)
     idle =
     (Inl (Error ''page.close: Protocol error (Target.closeTarget)''),
      \<lparr>browser = True,
       trace = [GetBrowser, Launch, NewContext (Num 1), Route, NewPage, SetViewportSize (Num 1200) (Num 630),
                EmulateMedia, SetDefaultTimeout 15000, SetContent ''<p>hi</p>'' Networkidle,
                SetViewportSize (Num 1200) (Num 630), Evaluate (Num 1), Screenshot (shot_options html_opts No_clip),
                PageClose]\<rparr>)"
    unfolding withPage_def page_session_def html_opts_page
    by (simp add: getBrowser_def take_screenshot_def try_finally_def and_then_def
        emit_def read_browser_def ret_def call_def set_browser_def stuck_page_env_def
        example_env_def default_config_def idle_def)
  then show ?thesis
    by (simp add: render_def render_with_def html_opts_facts render_failed_def)
qed

lemma no_page_run:
  "render default_config no_page_env html_opts idle =
     (Bad_request ''browserContext.newPage: Target page, context or browser has been closed'',
      \<lparr>browser = True, trace = [GetBrowser, Launch, NewContext (Num 1), Route, NewPage]\<rparr>)"
proof -
  have "withPage default_config no_page_env fn idle =
     (Inl (Error ''browserContext.newPage: Target page, context or browser has been closed''),
      \<lparr>browser = True, trace = [GetBrowser, Launch, NewContext (Num 1), Route, NewPage]\<rparr>)" for fn :: "string prog"
    unfolding withPage_def page_session_def
    by (simp add: getBrowser_def and_then_def emit_def read_browser_def ret_def call_def
        set_browser_def no_page_env_def example_env_def default_config_def idle_def)
  then show ?thesis
    by (simp add: render_def render_with_def html_opts_facts render_failed_def)
qed

lemma no_page_attempt:
  "\<not> browser s \<Longrightarrow>
   attempt default_config no_page_env fn s =
     (Inl (Error ''browserContext.newPage: Target page, context or browser has been closed''),
      s\<lparr>browser := True, trace := trace s @ [GetBrowser, Launch, NewContext (Num 1), Route, NewPage]\<rparr>)"
  by (simp add: attempt_def page_session_def getBrowser_probe_def and_then_def emit_def
      read_browser_def ret_def call_def set_browser_def no_page_env_def example_env_def
      default_config_def)

lemma no_page_retry_run:
  "render_retry default_config no_page_env html_opts idle =
     (Bad_request ''browserContext.newPage: Target page, context or browser has been closed'',
      \<lparr>browser = False,
       trace = [GetBrowser, Launch, NewContext (Num 1), Route, NewPage, Sleep 500,
                GetBrowser, Launch, NewContext (Num 1), Route, NewPage, Sleep 500,
                GetBrowser, Launch, NewContext (Num 1), Route, NewPage, Sleep 500]\<rparr>)"
proof -
  have "withPage_retry default_config no_page_env fn idle =
     (Inl (Error ''browserContext.newPage: Target page, context or browser has been closed''),
      \<lparr>browser = False,
       trace = [GetBrowser, Launch, NewContext (Num 1), Route, NewPage, Sleep 500,
                GetBrowser, Launch, NewContext (Num 1), Route, NewPage, Sleep 500,
                GetBrowser, Launch, NewContext (Num 1), Route, NewPage, Sleep 500]\<rparr>)" for fn :: "string prog"
    by (simp add: withPage_retry_def numeral_3_eq_3 withPage_loop_Suc no_page_attempt
        closed_examples back_off_def throw_def idle_def del: withPage_loop.simps(2))
  then show ?thesis
    by (simp add: render_retry_def render_with_def html_opts_facts render_failed_def)
qed

text \<open>A size preset named like an inherited member is not refused: the lookup finds the
  member, which has neither width nor height, and the default size is used, whatever
  size the request carries.\<close>

lemma inherited_preset_name_falls_back:
  "PRESETS_sizes documented_config ''toString'' = None \<and>
   resolve_size documented_config example_env
     (empty_opts\<lparr>sizePreset := Some ''toString'', width := Some 300, height := Some 200\<rparr>) =
     Inr \<lparr>v_width = Num 1200, v_height = Num 630\<rparr>"
  by (simp add: documented_config_def default_config_def empty_opts_def resolve_size_def
      apply_size_preset_def truthy_def enforceSize_def or_else_def number_simps js_get_def
      Object_prototype_names_def)

section \<open>The requested size as numbers\<close>

lemma or_else_requested:
  "in_range v 1 10000 \<Longrightarrow> 1 \<le> d \<Longrightarrow> d \<le> 10000 \<Longrightarrow>
   \<exists>a. or_else (map_option js_int v) (js_int d) = js_int a \<and> 1 \<le> a \<and> a \<le> 10000"
  by (cases v) (auto simp: or_else_def in_range_def js_int_def)

lemma or_else_not_NaN [simp]: "d \<noteq> NaN \<Longrightarrow> or_else v d \<noteq> NaN"
  by (auto simp: or_else_def split: option.split)

lemma Math_min_pixel_limit:
  assumes "pixel_limit m" and "0 \<le> a"
  shows "\<exists>c. Math_min (js_int a) m = js_int c \<and> 0 \<le> c \<and> c \<le> a"
proof (cases m)
  case (Num r)
  with assms(1) have "0 \<le> r" "of_int \<lfloor>r\<rfloor> = r" by (simp_all add: pixel_limit_def)
  then obtain n where n: "r = of_int n" "0 \<le> n" by (metis zero_le_floor)
  have "Math_min (js_int a) m = js_int (min a n)"
    by (simp add: Math_min_def js_int_def Num n min_def)
  moreover have "0 \<le> min a n" "min a n \<le> a" using assms(2) n(2) by simp_all
  ultimately show ?thesis by blast
qed (use assms in \<open>auto simp: pixel_limit_def Math_min_def js_int_def\<close>)

lemma within_budget_exact:
  assumes "\<not> js_greater (js_times (js_int a) (js_int b)) mp" and "\<bar>a * b\<bar> < 2 ^ 53" and "mp \<noteq> NaN"
  shows "js_le (js_int (a * b)) mp"
  using assms js_le_total [of "js_int (a * b)" mp]
  by (simp add: js_times_int js_greater_def)

lemma requested_size_whole:
  assumes s: "RenderSchema ev opts" and w: "pixel_limit (MAX_WIDTH cfg)"
    and h: "pixel_limit (MAX_HEIGHT cfg)"
  shows "\<exists>a b. Math_min (or_else (map_option js_int (width opts)) (Num 1200)) (MAX_WIDTH cfg) = js_int a \<and>
           Math_min (or_else (map_option js_int (height opts)) (Num 630)) (MAX_HEIGHT cfg) = js_int b \<and>
           0 \<le> a \<and> a \<le> 10000 \<and> 0 \<le> b \<and> b \<le> 10000"
proof -
  from s have r: "in_range (width opts) 1 10000" "in_range (height opts) 1 10000"
    by (simp_all add: RenderSchema_def)
  have d: "Num 1200 = js_int 1200" "Num 630 = js_int 630" by (simp_all add: js_int_def)
  from or_else_requested [OF r(1), of 1200] obtain a0 where
    a0: "or_else (map_option js_int (width opts)) (Num 1200) = js_int a0" "1 \<le> a0" "a0 \<le> 10000"
    unfolding d by auto
  from or_else_requested [OF r(2), of 630] obtain b0 where
    b0: "or_else (map_option js_int (height opts)) (Num 630) = js_int b0" "1 \<le> b0" "b0 \<le> 10000"
    unfolding d by auto
  from Math_min_pixel_limit [OF w, of a0] a0(2) obtain a where
    a: "Math_min (js_int a0) (MAX_WIDTH cfg) = js_int a" "0 \<le> a" "a \<le> a0" by auto
  from Math_min_pixel_limit [OF h, of b0] b0(2) obtain b where
    b: "Math_min (js_int b0) (MAX_HEIGHT cfg) = js_int b" "0 \<le> b" "b \<le> b0" by auto
  from a b a0 b0 show ?thesis by (intro exI [of _ a] exI [of _ b]) simp
qed

lemma small_product: "0 \<le> a \<Longrightarrow> a \<le> 10000 \<Longrightarrow> 0 \<le> b \<Longrightarrow> b \<le> 10000 \<Longrightarrow> \<bar>a * b\<bar> < (2::int) ^ 53"
proof -
  assume a: "0 \<le> a" "a \<le> 10000" and b: "0 \<le> b" "b \<le> 10000"
  then have "a * b \<le> 10000 * 10000" by (intro mult_mono) simp_all
  moreover from a b have "0 \<le> a * b" by simp
  ultimately show ?thesis by simp
qed

section \<open>The rounds of the retry loop\<close>

text \<open>
  A run of the retrying \<^verbatim>\<open>withPage\<close> consists of \<open>k + 1\<close> rounds with
  \<open>k + 1 \<le> 3\<close>: each of the first \<open>k\<close> rounds failed with an error whose message says
  the page, context or browser has been closed, and the following round started from the
  state left by that round with the browser variable cleared and the 500 ms timer run.
  The last round decides the outcome: its result when it succeeds; its error, with the
  state exactly as the round left it, when the error is of any other kind (an \<open>Error\<close>
  is thrown on as it is); and its error after the third round when that too found the
  browser closed. After the browser variable has been cleared the next
  \<^verbatim>\<open>getBrowser\<close> launches a new browser. Counted in calls of \<^verbatim>\<open>getBrowser\<close>, a
  run makes at least one and at most three attempts, and the \<^verbatim>\<open>withPage\<close> of
  \<^verbatim>\<open>server.js\<close>, which never retries, makes exactly one.
\<close>

lemma retry_loop_rounds:
  "(\<exists>k < 3.
      (\<forall>j < k. \<exists>e. fst (attempt cfg ev fn (attempt_start cfg ev fn j st)) = Inl e \<and>
                   is_browser_closed e) \<and>
      (case attempt cfg ev fn (attempt_start cfg ev fn k st) of
         (Inr v, s) \<Rightarrow> withPage_retry cfg ev fn st = (Inr v, s)
       | (Inl e, s) \<Rightarrow>
           if is_browser_closed e
           then k = 2 \<and> withPage_retry cfg ev fn st = (Inl e, back_off s)
           else withPage_retry cfg ev fn st = (Inl (rethrown e), s))) \<and>
   (\<forall>msg. rethrown (Error msg) = Error msg) \<and>
   (\<forall>s. \<not> browser (back_off s) \<and> trace (back_off s) = trace s @ [Sleep 500] \<and>
        trace (snd (getBrowser_probe ev (back_off s))) =
          trace s @ [Sleep 500, GetBrowser, Launch]) \<and>
   (appends (\<lambda>c. c \<noteq> GetBrowser) fn \<longrightarrow>
      (\<exists>T. trace (snd (withPage_retry cfg ev fn st)) = trace st @ T \<and>
           1 \<le> count_list T GetBrowser \<and> count_list T GetBrowser \<le> 3) \<and>
      (\<exists>T. trace (snd (withPage cfg ev fn st)) = trace st @ T \<and> count_list T GetBrowser = 1))"
proof (intro conjI allI impI)
  have three: "Suc 2 = (3::nat)" by simp
  from withPage_loop_rounds [where n = 2 and cfg = cfg and ev = ev and fn = fn and st = st
      and le = Thrown_undefined]
  obtain k where k: "k < 3" "retried cfg ev fn st k"
    "settles cfg ev fn 3 st k (withPage_retry cfg ev fn st)"
    unfolding three withPage_retry_def by blast
  from k(3) have last: "case attempt cfg ev fn (attempt_start cfg ev fn k st) of
         (Inr v, s) \<Rightarrow> withPage_retry cfg ev fn st = (Inr v, s)
       | (Inl e, s) \<Rightarrow>
           if is_browser_closed e
           then k = 2 \<and> withPage_retry cfg ev fn st = (Inl e, back_off s)
           else withPage_retry cfg ev fn st = (Inl (rethrown e), s)"
    unfolding settles_def by (auto split: prod.splits sum.splits if_splits)
  from k(2) have earlier: "\<forall>j < k. \<exists>e.
      fst (attempt cfg ev fn (attempt_start cfg ev fn j st)) = Inl e \<and> is_browser_closed e"
    unfolding retried_def .
  show "\<exists>k < 3.
      (\<forall>j < k. \<exists>e. fst (attempt cfg ev fn (attempt_start cfg ev fn j st)) = Inl e \<and>
                   is_browser_closed e) \<and>
      (case attempt cfg ev fn (attempt_start cfg ev fn k st) of
         (Inr v, s) \<Rightarrow> withPage_retry cfg ev fn st = (Inr v, s)
       | (Inl e, s) \<Rightarrow>
           if is_browser_closed e
           then k = 2 \<and> withPage_retry cfg ev fn st = (Inl e, back_off s)
           else withPage_retry cfg ev fn st = (Inl (rethrown e), s))"
    by (intro exI [of _ k] conjI) (rule k(1), rule earlier, rule last)
next
  fix msg
  show "rethrown (Error msg) = Error msg" by (simp add: rethrown_def)
next
  fix s
  show "\<not> browser (back_off s)" by (simp add: back_off_def)
  show "trace (back_off s) = trace s @ [Sleep 500]" by (simp add: back_off_def)
  show "trace (snd (getBrowser_probe ev (back_off s))) = trace s @ [Sleep 500, GetBrowser, Launch]"
    by (rule relaunch_after_back_off)
next
  assume fn: "appends (\<lambda>c. c \<noteq> GetBrowser) fn"
  from withPage_loop_acquires [OF fn, where cfg = cfg and ev = ev and n = 3
      and le = Thrown_undefined and st = st]
  obtain T where "trace (snd (withPage_loop cfg ev fn 3 Thrown_undefined st)) = trace st @ T"
    "count_list T GetBrowser \<le> 3" "1 \<le> count_list T GetBrowser"
    by (auto simp del: withPage_loop.simps)
  then show "\<exists>T. trace (snd (withPage_retry cfg ev fn st)) = trace st @ T \<and>
           1 \<le> count_list T GetBrowser \<and> count_list T GetBrowser \<le> 3"
    unfolding withPage_retry_def by blast
  from withPage_acquires_once [OF fn]
  show "\<exists>T. trace (snd (withPage cfg ev fn st)) = trace st @ T \<and> count_list T GetBrowser = 1" .
qed

lemma retry_loop_examples:
  "appends (\<lambda>c. c \<noteq> GetBrowser)
     (render_page default_config closed_env html_opts \<lparr>v_width = Num 1200, v_height = Num 630\<rparr> No_clip) \<and>
   count_list (trace (snd (withPage_retry default_config closed_env
     (render_page default_config closed_env html_opts \<lparr>v_width = Num 1200, v_height = Num 630\<rparr> No_clip)
     idle))) GetBrowser \<le> 3 \<and>
   withPage_retry default_config closed_env
     (render_page default_config closed_env html_opts \<lparr>v_width = Num 1200, v_height = Num 630\<rparr> No_clip) idle =
     (Inl (Error ''browser.newContext: Target page, context or browser has been closed''),
      \<lparr>browser = False,
       trace = [GetBrowser, Launch, NewContext (Num 1), Sleep 500,
                GetBrowser, Launch, NewContext (Num 1), Sleep 500,
                GetBrowser, Launch, NewContext (Num 1), Sleep 500]\<rparr>) \<and>
   withPage_retry default_config slow_env
     (render_page default_config slow_env html_opts \<lparr>v_width = Num 1200, v_height = Num 630\<rparr> No_clip) idle =
     (Inl (Error ''page.screenshot: Timeout 15000ms exceeded.''),
      \<lparr>browser = True,
       trace = [GetBrowser, Launch, NewContext (Num 1), Route, NewPage, SetViewportSize (Num 1200) (Num 630),
                EmulateMedia, SetDefaultTimeout 15000, SetContent ''<p>hi</p>'' Networkidle,
                SetViewportSize (Num 1200) (Num 630), Evaluate (Num 1), Screenshot (shot_options html_opts No_clip),
                PageClose, ContextClose]\<rparr>)"
proof -
  let ?fn = "render_page default_config closed_env html_opts \<lparr>v_width = Num 1200, v_height = Num 630\<rparr> No_clip"
  have a: "appends (\<lambda>c. c \<noteq> GetBrowser) ?fn" by (rule render_page_never_acquires)
  from retry_loop_rounds [where cfg = default_config and ev = closed_env
      and fn = ?fn and st = idle] a
  obtain T where "trace (snd (withPage_retry default_config closed_env ?fn idle)) = trace idle @ T"
    "count_list T GetBrowser \<le> 3" by blast
  then have "count_list (trace (snd (withPage_retry default_config closed_env ?fn idle)))
      GetBrowser \<le> 3"
    by (simp add: idle_def)
  with a closed_run [of ?fn] slow_run show ?thesis by blast
qed

section \<open>A missing template under the retry loop\<close>

lemma ENOENT_examples:
  "is_browser_closed (ENOENT ''Target page, context or browser has been closed'')"
  "\<not> is_browser_closed (ENOENT ''card'')"
  unfolding is_browser_closed_def message_says_closed_def closed_message_def ENOENT_def
  by code_simp+

lemma missing_template_page:
  "name \<noteq> [] \<Longrightarrow>
   render_page default_config missing_template_env (empty_opts\<lparr>templateName := Some name\<rparr>)
       \<lparr>v_width = Num 1200, v_height = Num 630\<rparr> No_clip =
     and_then (call missing_template_env (SetViewportSize (Num 1200) (Num 630))) (\<lambda>_.
     and_then (call missing_template_env EmulateMedia) (\<lambda>_.
     and_then (call missing_template_env (SetDefaultTimeout 15000)) (\<lambda>_.
       throw (ENOENT name))))"
  by (cases name)
     (simp_all add: render_page_def load_content_def request_timeout_def empty_opts_def
       truthy_def missing_template_env_def and_then_throw)

lemma missing_template_facts:
  "RenderSchema ev (empty_opts\<lparr>templateName := Some name\<rparr>)"
  "resolve_size default_config ev (empty_opts\<lparr>templateName := Some name\<rparr>) =
     Inr \<lparr>v_width = Num 1200, v_height = Num 630\<rparr>"
  "resolve_clip default_config (empty_opts\<lparr>templateName := Some name\<rparr>) = Inr No_clip"
  by (simp_all add: empty_opts_def RenderSchema_def in_range_def resolve_size_default
      truthy_def resolve_clip_def)

lemma rethrown_ENOENT: "rethrown (ENOENT name) = ENOENT name"
  by (simp add: rethrown_def ENOENT_def)

lemma missing_template_attempt:
  assumes "name \<noteq> []" and "\<not> browser s"
  shows "attempt default_config missing_template_env
     (render_page default_config missing_template_env (empty_opts\<lparr>templateName := Some name\<rparr>)
        \<lparr>v_width = Num 1200, v_height = Num 630\<rparr> No_clip) s =
     (Inl (ENOENT name),
      s\<lparr>browser := True,
        trace := trace s @ [GetBrowser, Launch, NewContext (Num 1), Route, NewPage,
          SetViewportSize (Num 1200) (Num 630), EmulateMedia, SetDefaultTimeout 15000,
          PageClose, ContextClose]\<rparr>)"
  unfolding attempt_def page_session_def missing_template_page [OF assms(1)]
  using assms(2)
  by (simp add: getBrowser_probe_def try_finally_def and_then_def
      emit_def read_browser_def ret_def call_def set_browser_def throw_def
      missing_template_env_def example_env_def default_config_def)

section \<open>The content calls of a request\<close>

lemma wait_events_no_content: "x \<in> set (wait_events opts) \<Longrightarrow> \<not> content_call x"
  by (cases "waitFor opts"; cases "the (waitFor opts)") (auto simp: wait_events_def)

lemma page_script_content:
  "x \<in> set (page_script cfg ev opts vp cl) \<Longrightarrow> content_call x \<Longrightarrow>
   content_event cfg ev opts = Inr x"
  by (cases "content_event cfg ev opts")
     (auto simp: page_script_def dest: wait_events_no_content)

lemma render_content_calls:
  "\<exists>T. trace (snd (render cfg ev opts st)) = trace st @ T \<and>
       (\<forall>x \<in> set T. content_call x \<longrightarrow> content_event cfg ev opts = Inr x)"
proof (cases "\<not> RenderSchema ev opts \<or> isl (resolve_size cfg ev opts) \<or> isl (resolve_clip cfg opts)")
  case True
  from render_untouched [OF this, of st]
  have "trace (snd (render cfg ev opts st)) = trace st @ []" by simp
  then show ?thesis by (intro exI [of _ "[]"]) simp
next
  case False
  then obtain vp cl where vp: "resolve_size cfg ev opts = Inr vp"
    and cl: "resolve_clip cfg opts = Inr cl"
    by (cases "resolve_size cfg ev opts"; cases "resolve_clip cfg opts") auto
  from render_shape [OF vp cl, of st] obtain pre Tfn post where
    sh: "trace (snd (render cfg ev opts st)) = trace st @ pre @ Tfn @ post"
        "list_all setup_event pre" "prefix Tfn (page_script cfg ev opts vp cl)"
        "list_all close_event post" by blast
  have "content_event cfg ev opts = Inr x" if x: "x \<in> set (pre @ Tfn @ post)" "content_call x" for x
  proof -
    have "\<not> setup_event x" "\<not> close_event x" using x(2) by (cases x; simp)+
    with not_setup_event [OF sh(2)] not_close_event [OF sh(4)] x(1) have "x \<in> set Tfn" by auto
    with sh(3) have "x \<in> set (page_script cfg ev opts vp cl)"
      by (auto dest: set_mono_prefix)
    then show ?thesis using x(2) by (rule page_script_content)
  qed
  with sh(1) show ?thesis by (intro exI [of _ "pre @ Tfn @ post"]) simp
qed

lemma render_loads:
  assumes "RenderSchema ev opts" and "engine_ok ev"
    and "resolve_size cfg ev opts = Inr vp" and "resolve_clip cfg opts = Inr cl"
    and "content_event cfg ev opts = Inr c"
  shows "c \<in> set (trace (snd (render cfg ev opts st))) \<and>
         (\<exists>b. fst (render cfg ev opts st) = Image (format opts) b)"
  using render_served [OF assms, of st]
  by (simp add: served_session_def page_script_def assms(5))

section \<open>The context a screenshot is taken in\<close>








section \<open>The claims\<close>

text \<open>
  C1. The viewport of a \<^verbatim>\<open>/render\<close> request is, per axis, \<^verbatim>\<open>Math.min\<close> of the requested
  size (or 1200 by 630) and the configured maximum: the lesser of the two whenever the
  maximum is a number. The requested size is the preset's when a size preset applies and
  the request's own otherwise. When the product of the clamped sizes, as the code
  computes it, exceeds \<open>MAX_PIXELS\<close>, the handler answers with the budget error and leaves
  the state as it was, whatever \<^verbatim>\<open>withPage\<close> it is given: no browser call is made.
  Otherwise every viewport set on the page is the clamped one, and the product, as the
  code computes it, is at most \<open>MAX_PIXELS\<close> whenever both are numbers. The computed
  product is the exact area, so that the area itself is within \<open>MAX_PIXELS\<close>, whenever
  the clamped sizes are integers whose product is below \<^verbatim>\<open>2^53\<close>. This is the case for
  every valid request without a size preset when \<open>MAX_WIDTH\<close> and \<open>MAX_HEIGHT\<close> are
  whole numbers of pixels or infinite.
\<close>

theorem viewport_clamped_within_budget:
  assumes "RenderSchema ev opts"
    and "apply_size_preset cfg opts = Inr (wd, ht)"
  shows "(truthy (sizePreset opts) = None \<longrightarrow>
            wd = map_option js_int (width opts) \<and> ht = map_option js_int (height opts)) \<and>
    (let w = Math_min (or_else wd (Num 1200)) (MAX_WIDTH cfg);
         h = Math_min (or_else ht (Num 630)) (MAX_HEIGHT cfg)
     in (if js_greater (js_times w h) (MAX_PIXELS cfg)
         then (\<forall>wp. render_with wp cfg ev opts st =
                 (Bad_request (''Requested viewport '' @ number_text ev w @ ''x'' @ number_text ev h
                    @ '' exceeds maximum pixel budget '' @ number_text ev (MAX_PIXELS cfg)), st))
         else resolve_size cfg ev opts = Inr \<lparr>v_width = w, v_height = h\<rparr> \<and>
              (\<exists>T. trace (snd (render cfg ev opts st)) = trace st @ T \<and>
                   (\<forall>a b. SetViewportSize a b \<in> set T \<longrightarrow> a = w \<and> b = h)) \<and>
              (MAX_PIXELS cfg \<noteq> NaN \<and> js_times w h \<noteq> NaN \<longrightarrow>
                 js_le (js_times w h) (MAX_PIXELS cfg)) \<and>
              (\<forall>a b. w = js_int a \<and> h = js_int b \<and> \<bar>a * b\<bar> < 2 ^ 53 \<and> MAX_PIXELS cfg \<noteq> NaN \<longrightarrow>
                   js_le (js_int (a * b)) (MAX_PIXELS cfg))) \<and>
        (MAX_WIDTH cfg \<noteq> NaN \<longrightarrow>
           js_le w (MAX_WIDTH cfg) \<and> js_le w (or_else wd (Num 1200)) \<and>
           (w = MAX_WIDTH cfg \<or> w = or_else wd (Num 1200))) \<and>
        (MAX_HEIGHT cfg \<noteq> NaN \<longrightarrow>
           js_le h (MAX_HEIGHT cfg) \<and> js_le h (or_else ht (Num 630)) \<and>
           (h = MAX_HEIGHT cfg \<or> h = or_else ht (Num 630))) \<and>
        (truthy (sizePreset opts) = None \<and> pixel_limit (MAX_WIDTH cfg) \<and>
         pixel_limit (MAX_HEIGHT cfg) \<longrightarrow>
           (\<exists>a b. w = js_int a \<and> h = js_int b \<and> \<bar>a * b\<bar> < 2 ^ 53)))"
proof -
  let ?w = "Math_min (or_else wd (Num 1200)) (MAX_WIDTH cfg)"
  let ?h = "Math_min (or_else ht (Num 630)) (MAX_HEIGHT cfg)"
  have pre: "truthy (sizePreset opts) = None \<longrightarrow>
      wd = map_option js_int (width opts) \<and> ht = map_option js_int (height opts)"
    using assms(2) by (auto simp: apply_size_preset_def split: option.splits)
  have rs: "resolve_size cfg ev opts = enforceSize cfg ev wd ht"
    using assms(2) by (simp add: resolve_size_def)
  have budget: "if js_greater (js_times ?w ?h) (MAX_PIXELS cfg)
         then (\<forall>wp. render_with wp cfg ev opts st =
                 (Bad_request (''Requested viewport '' @ number_text ev ?w @ ''x'' @ number_text ev ?h
                    @ '' exceeds maximum pixel budget '' @ number_text ev (MAX_PIXELS cfg)), st))
         else resolve_size cfg ev opts = Inr \<lparr>v_width = ?w, v_height = ?h\<rparr> \<and>
              (\<exists>T. trace (snd (render cfg ev opts st)) = trace st @ T \<and>
                   (\<forall>a b. SetViewportSize a b \<in> set T \<longrightarrow> a = ?w \<and> b = ?h)) \<and>
              (MAX_PIXELS cfg \<noteq> NaN \<and> js_times ?w ?h \<noteq> NaN \<longrightarrow>
                 js_le (js_times ?w ?h) (MAX_PIXELS cfg)) \<and>
              (\<forall>a b. ?w = js_int a \<and> ?h = js_int b \<and> \<bar>a * b\<bar> < 2 ^ 53 \<and> MAX_PIXELS cfg \<noteq> NaN \<longrightarrow>
                   js_le (js_int (a * b)) (MAX_PIXELS cfg))"
  proof (cases "js_greater (js_times ?w ?h) (MAX_PIXELS cfg)")
    case True
    then have "resolve_size cfg ev opts = Inl (Error (''Requested viewport '' @ number_text ev ?w
         @ ''x'' @ number_text ev ?h @ '' exceeds maximum pixel budget ''
         @ number_text ev (MAX_PIXELS cfg)))"
      by (simp add: rs enforceSize_cases)
    from render_with_rejected [OF assms(1) this]
    have "\<forall>wp. render_with wp cfg ev opts st =
            (Bad_request (''Requested viewport '' @ number_text ev ?w @ ''x'' @ number_text ev ?h
               @ '' exceeds maximum pixel budget '' @ number_text ev (MAX_PIXELS cfg)), st)"
      by (simp add: render_failed_def)
    with True show ?thesis by simp
  next
    case False
    then have r: "resolve_size cfg ev opts = Inr \<lparr>v_width = ?w, v_height = ?h\<rparr>"
      by (simp add: rs enforceSize_cases)
    from render_trace [OF r, of st] obtain T where
      T: "trace (snd (render cfg ev opts st)) = trace st @ T"
         "\<forall>cl. resolve_clip cfg opts = Inr cl \<longrightarrow>
                list_all (within_request cfg ev opts \<lparr>v_width = ?w, v_height = ?h\<rparr> cl) T"
      by blast
    have "\<forall>a b. SetViewportSize a b \<in> set T \<longrightarrow> a = ?w \<and> b = ?h"
    proof (cases "resolve_clip cfg opts")
      case (Inl e)
      with assms(1) r have "snd (render cfg ev opts st) = st"
        by (simp add: render_def render_with_def)
      with T(1) show ?thesis by simp
    next
      case (Inr cl)
      with T(2) have "list_all (within_request cfg ev opts \<lparr>v_width = ?w, v_height = ?h\<rparr> cl) T"
        by simp
      then show ?thesis by (auto simp: list_all_iff)
    qed
    with T(1) have tr: "\<exists>T. trace (snd (render cfg ev opts st)) = trace st @ T \<and>
        (\<forall>a b. SetViewportSize a b \<in> set T \<longrightarrow> a = ?w \<and> b = ?h)" by blast
    have ex: "\<forall>a b. ?w = js_int a \<and> ?h = js_int b \<and> \<bar>a * b\<bar> < 2 ^ 53 \<and> MAX_PIXELS cfg \<noteq> NaN \<longrightarrow>
        js_le (js_int (a * b)) (MAX_PIXELS cfg)"
      using False within_budget_exact by metis
    have jl: "MAX_PIXELS cfg \<noteq> NaN \<and> js_times ?w ?h \<noteq> NaN \<longrightarrow>
        js_le (js_times ?w ?h) (MAX_PIXELS cfg)"
      using False js_le_total [of "js_times ?w ?h" "MAX_PIXELS cfg"]
      by (simp add: js_greater_def)
    from False r tr jl ex show ?thesis by simp
  qed
  have mw: "MAX_WIDTH cfg \<noteq> NaN \<longrightarrow>
      js_le ?w (MAX_WIDTH cfg) \<and> js_le ?w (or_else wd (Num 1200)) \<and>
      (?w = MAX_WIDTH cfg \<or> ?w = or_else wd (Num 1200))"
    using Math_min_le [of "or_else wd (Num 1200)" "MAX_WIDTH cfg"] by auto
  have mh: "MAX_HEIGHT cfg \<noteq> NaN \<longrightarrow>
      js_le ?h (MAX_HEIGHT cfg) \<and> js_le ?h (or_else ht (Num 630)) \<and>
      (?h = MAX_HEIGHT cfg \<or> ?h = or_else ht (Num 630))"
    using Math_min_le [of "or_else ht (Num 630)" "MAX_HEIGHT cfg"] by auto
  have whole: "truthy (sizePreset opts) = None \<and> pixel_limit (MAX_WIDTH cfg) \<and>
      pixel_limit (MAX_HEIGHT cfg) \<longrightarrow> (\<exists>a b. ?w = js_int a \<and> ?h = js_int b \<and> \<bar>a * b\<bar> < 2 ^ 53)"
  proof (intro impI)
    assume a: "truthy (sizePreset opts) = None \<and> pixel_limit (MAX_WIDTH cfg) \<and>
      pixel_limit (MAX_HEIGHT cfg)"
    with pre have e: "wd = map_option js_int (width opts)" "ht = map_option js_int (height opts)"
      by simp_all
    from requested_size_whole [OF assms(1), of cfg] a obtain a b where
      "?w = js_int a" "?h = js_int b" "0 \<le> a" "a \<le> 10000" "0 \<le> b" "b \<le> 10000"
      unfolding e by blast
    with small_product [of a b] show "\<exists>a b. ?w = js_int a \<and> ?h = js_int b \<and> \<bar>a * b\<bar> < 2 ^ 53"
      by blast
  qed
  from pre budget mw mh whole show ?thesis unfolding Let_def by blast
qed

theorem viewport_clamped_within_budget_witness:
  "RenderSchema example_env huge_opts \<and>
   render default_config example_env huge_opts idle =
     (Bad_request ''Requested viewport 4000x4000 exceeds maximum pixel budget 14000000'', idle) \<and>
   RenderSchema example_env large_opts \<and>
   resolve_size default_config example_env large_opts =
     Inr \<lparr>v_width = Num 3000, v_height = Num 2000\<rparr> \<and>
   js_le (js_int (3000 * 2000)) (MAX_PIXELS default_config)"
proof -
  have s: "RenderSchema example_env huge_opts" "RenderSchema example_env large_opts"
    by (simp_all add: RenderSchema_def huge_opts_def large_opts_def html_opts_def empty_opts_def
        in_range_def)
  have a: "apply_size_preset default_config huge_opts = Inr (Some (Num 10000), Some (Num 10000))"
    "apply_size_preset default_config large_opts = Inr (Some (Num 3000), Some (Num 2000))"
    by (simp_all add: apply_size_preset_def huge_opts_def large_opts_def html_opts_def
        empty_opts_def truthy_def js_int_def)
  have refused: "render default_config example_env huge_opts idle =
     (Bad_request ''Requested viewport 4000x4000 exceeds maximum pixel budget 14000000'', idle)"
    using viewport_clamped_within_budget [OF s(1) a(1), of idle]
    by (simp add: render_def default_config_def or_else_def number_simps number_text_def
        show_int_def Let_def)
  have admitted: "resolve_size default_config example_env large_opts =
       Inr \<lparr>v_width = Num 3000, v_height = Num 2000\<rparr> \<and>
     (\<forall>a b. Num 3000 = js_int a \<and> Num 2000 = js_int b \<and> \<bar>a * b\<bar> < 2 ^ 53 \<longrightarrow>
        js_le (js_int (a * b)) (MAX_PIXELS default_config))"
    using viewport_clamped_within_budget [OF s(2) a(2), of idle]
    by (simp add: default_config_def or_else_def Math_min_def js_times_def js_greater_def
        to_double_numeral Let_def)
  then have "js_le (js_int (3000 * 2000)) (MAX_PIXELS default_config)"
    by (simp add: js_int_def)
  with s refused admitted show ?thesis by simp
qed

text \<open>
  C2, as stated, fails on the later server: what its \<^verbatim>\<open>withPage\<close> tests is whether the
  message of the failure contains the sentence \<^verbatim>\<open>Target page, context or browser has
  been closed\<close>, not whether the browser was closed. A request for a template that does
  not exist and whose name is that sentence fails in \<^verbatim>\<open>fs.readFileSync\<close> with a message
  that carries the name. Every call on the browser resolves, yet the request is tried
  three times, and each time the browser variable is cleared, the timer is run and a new
  browser is launched. The same request for a missing template named \<^verbatim>\<open>card\<close> is tried
  once and keeps its browser.
\<close>

theorem missing_template_retried_as_closed_browser:
  "engine_ok missing_template_env \<and>
   render_retry default_config missing_template_env closed_name_opts idle =
     (Bad_request (''ENOENT: no such file or directory, open '/app/templates/html/''
        @ ''Target page, context or browser has been closed'' @ ''.hbs'' @ [CHR 0x27]),
      \<lparr>browser = False,
       trace = [GetBrowser, Launch, NewContext (Num 1), Route, NewPage,
                SetViewportSize (Num 1200) (Num 630), EmulateMedia, SetDefaultTimeout 15000,
                PageClose, ContextClose, Sleep 500,
                GetBrowser, Launch, NewContext (Num 1), Route, NewPage,
                SetViewportSize (Num 1200) (Num 630), EmulateMedia, SetDefaultTimeout 15000,
                PageClose, ContextClose, Sleep 500,
                GetBrowser, Launch, NewContext (Num 1), Route, NewPage,
                SetViewportSize (Num 1200) (Num 630), EmulateMedia, SetDefaultTimeout 15000,
                PageClose, ContextClose, Sleep 500]\<rparr>) \<and>
   render_retry default_config missing_template_env card_opts idle =
     (Bad_request (''ENOENT: no such file or directory, open '/app/templates/html/''
        @ ''card'' @ ''.hbs'' @ [CHR 0x27]),
      \<lparr>browser = True,
       trace = [GetBrowser, Launch, NewContext (Num 1), Route, NewPage,
                SetViewportSize (Num 1200) (Num 630), EmulateMedia, SetDefaultTimeout 15000,
                PageClose, ContextClose]\<rparr>)"
proof -
  have ok: "engine_ok missing_template_env"
    by (simp add: engine_ok_def missing_template_env_def example_env_def)
  let ?closed = "''Target page, context or browser has been closed''"
  let ?vp = "\<lparr>v_width = Num 1200, v_height = Num 630\<rparr>"
  have n: "?closed \<noteq> []" "''card'' \<noteq> []" by simp_all
  have "withPage_retry default_config missing_template_env
      (render_page default_config missing_template_env (empty_opts\<lparr>templateName := Some ?closed\<rparr>)
         ?vp No_clip) idle =
     (Inl (ENOENT ?closed),
      \<lparr>browser = False,
       trace = [GetBrowser, Launch, NewContext (Num 1), Route, NewPage,
                SetViewportSize (Num 1200) (Num 630), EmulateMedia, SetDefaultTimeout 15000,
                PageClose, ContextClose, Sleep 500,
                GetBrowser, Launch, NewContext (Num 1), Route, NewPage,
                SetViewportSize (Num 1200) (Num 630), EmulateMedia, SetDefaultTimeout 15000,
                PageClose, ContextClose, Sleep 500,
                GetBrowser, Launch, NewContext (Num 1), Route, NewPage,
                SetViewportSize (Num 1200) (Num 630), EmulateMedia, SetDefaultTimeout 15000,
                PageClose, ContextClose, Sleep 500]\<rparr>)"
    by (simp add: withPage_retry_def numeral_3_eq_3 withPage_loop_Suc
        missing_template_attempt [OF n(1)] ENOENT_examples back_off_def throw_def idle_def
        del: withPage_loop.simps(2))
  then have three: "render_retry default_config missing_template_env closed_name_opts idle =
     (Bad_request (''ENOENT: no such file or directory, open '/app/templates/html/''
        @ ?closed @ ''.hbs'' @ [CHR 0x27]),
      \<lparr>browser = False,
       trace = [GetBrowser, Launch, NewContext (Num 1), Route, NewPage,
                SetViewportSize (Num 1200) (Num 630), EmulateMedia, SetDefaultTimeout 15000,
                PageClose, ContextClose, Sleep 500,
                GetBrowser, Launch, NewContext (Num 1), Route, NewPage,
                SetViewportSize (Num 1200) (Num 630), EmulateMedia, SetDefaultTimeout 15000,
                PageClose, ContextClose, Sleep 500,
                GetBrowser, Launch, NewContext (Num 1), Route, NewPage,
                SetViewportSize (Num 1200) (Num 630), EmulateMedia, SetDefaultTimeout 15000,
                PageClose, ContextClose, Sleep 500]\<rparr>)"
    by (simp add: render_retry_def render_with_def closed_name_opts_def missing_template_facts
        render_failed_def ENOENT_def)
  have "withPage_retry default_config missing_template_env
      (render_page default_config missing_template_env (empty_opts\<lparr>templateName := Some ''card''\<rparr>)
         ?vp No_clip) idle =
     (Inl (ENOENT ''card''),
      \<lparr>browser = True,
       trace = [GetBrowser, Launch, NewContext (Num 1), Route, NewPage,
                SetViewportSize (Num 1200) (Num 630), EmulateMedia, SetDefaultTimeout 15000,
                PageClose, ContextClose]\<rparr>)"
    by (simp add: withPage_retry_def numeral_3_eq_3 withPage_loop_Suc
        missing_template_attempt [OF n(2)] ENOENT_examples rethrown_ENOENT idle_def
        del: withPage_loop.simps(2))
  then have once: "render_retry default_config missing_template_env card_opts idle =
     (Bad_request (''ENOENT: no such file or directory, open '/app/templates/html/''
        @ ''card'' @ ''.hbs'' @ [CHR 0x27]),
      \<lparr>browser = True,
       trace = [GetBrowser, Launch, NewContext (Num 1), Route, NewPage,
                SetViewportSize (Num 1200) (Num 630), EmulateMedia, SetDefaultTimeout 15000,
                PageClose, ContextClose]\<rparr>)"
    by (simp add: render_retry_def render_with_def card_opts_def missing_template_facts
        render_failed_def ENOENT_def)
  from ok three once show ?thesis by blast
qed

text \<open>
  C3. The \<^verbatim>\<open>finally\<close> block closes the page and then the context, but two exits of an
  attempt leave the context open. When \<^verbatim>\<open>page.close()\<close> rejects, the block is left
  before \<^verbatim>\<open>context.close()\<close>: the run below ends with \<^verbatim>\<open>PageClose\<close>. When
  \<^verbatim>\<open>context.newPage()\<close> rejects, the \<^verbatim>\<open>try\<close> has not been entered: the context was
  created and nothing is closed; under the retrying \<^verbatim>\<open>withPage\<close> this happens in each
  of the three rounds.
\<close>

theorem context_left_open_on_two_exits:
  "trace (snd (render default_config stuck_page_env html_opts idle)) =
     [GetBrowser, Launch, NewContext (Num 1), Route, NewPage, SetViewportSize (Num 1200) (Num 630),
      EmulateMedia, SetDefaultTimeout 15000, SetContent ''<p>hi</p>'' Networkidle,
      SetViewportSize (Num 1200) (Num 630), Evaluate (Num 1), Screenshot (shot_options html_opts No_clip),
      PageClose] \<and>
   trace (snd (render default_config no_page_env html_opts idle)) =
     [GetBrowser, Launch, NewContext (Num 1), Route, NewPage] \<and>
   trace (snd (render_retry default_config no_page_env html_opts idle)) =
     [GetBrowser, Launch, NewContext (Num 1), Route, NewPage, Sleep 500,
      GetBrowser, Launch, NewContext (Num 1), Route, NewPage, Sleep 500,
      GetBrowser, Launch, NewContext (Num 1), Route, NewPage, Sleep 500] \<and>
   ContextClose \<notin> set (trace (snd (render default_config stuck_page_env html_opts idle))) \<and>
   ContextClose \<notin> set (trace (snd (render default_config no_page_env html_opts idle))) \<and>
   ContextClose \<notin> set (trace (snd (render_retry default_config no_page_env html_opts idle)))"
  by (simp add: stuck_page_run no_page_run no_page_retry_run)

text \<open>
  C4, as stated, fails: with the single entry \<^verbatim>\<open>*.example.com\<close> and
  \<^verbatim>\<open>example.com\<close> not listed, the bare host \<^verbatim>\<open>example.com\<close> is allowlisted.
\<close>

theorem wildcard_matches_bare_domain:
  "''example.com'' \<notin> set (ALLOWLIST wildcard_config) \<and>
   URL_hostname example_env ''https://example.com/'' = Some ''example.com'' \<and>
   isWhitelisted wildcard_config example_env ''https://example.com/''"
  by (simp add: wildcard_config_def default_config_def example_env_def isWhitelisted_def
      hostnameOf_def)

text \<open>
  C4, amended. A URL is allowlisted exactly when its hostname is not empty and, for some
  entry of the allowlist, equals the entry or, for an entry \<^verbatim>\<open>*.domain\<close>, is
  \<^verbatim>\<open>domain\<close> itself or ends in \<^verbatim>\<open>.domain\<close>. A request that reaches the URL branch
  with URL rendering enabled and a URL that is not allowlisted never yields an image and
  never navigates; when the browser calls resolve it is answered with the message
  \<^verbatim>\<open>URL not in allowlist\<close>.
\<close>

theorem allowlist_wildcard_and_refusal:
  "(isWhitelisted cfg ev u \<longleftrightarrow>
      (\<exists>h. URL_hostname ev u = Some h \<and> h \<noteq> [] \<and>
         (\<exists>p \<in> set (ALLOWLIST cfg).
            h = p \<or> (\<exists>dom. p = ''*.'' @ dom \<and> (h = dom \<or> (\<exists>sub. h = sub @ ''.'' @ dom)))))) \<and>
   (ALLOW_URL cfg \<and> truthy (templateName opts) = None \<and> truthy (html opts) = None \<and>
    truthy (url opts) = Some u \<and> \<not> isWhitelisted cfg ev u \<longrightarrow>
      (\<forall>f b. fst (render cfg ev opts st) \<noteq> Image f b) \<and>
      (\<exists>T. trace (snd (render cfg ev opts st)) = trace st @ T \<and> (\<forall>u' w. Goto u' w \<notin> set T)) \<and>
      (RenderSchema ev opts \<and> engine_ok ev \<and> resolve_size cfg ev opts = Inr vp \<and>
       resolve_clip cfg opts = Inr cl \<longrightarrow>
         render cfg ev opts st = (Bad_request ''URL not in allowlist'', refused_session cfg opts vp st)))"
proof (intro conjI impI allI)
  show "isWhitelisted cfg ev u \<longleftrightarrow>
      (\<exists>h. URL_hostname ev u = Some h \<and> h \<noteq> [] \<and>
         (\<exists>p \<in> set (ALLOWLIST cfg).
            h = p \<or> (\<exists>dom. p = ''*.'' @ dom \<and> (h = dom \<or> (\<exists>sub. h = sub @ ''.'' @ dom)))))"
    by (rule isWhitelisted_iff)
next
  assume a: "ALLOW_URL cfg \<and> truthy (templateName opts) = None \<and> truthy (html opts) = None \<and>
    truthy (url opts) = Some u \<and> \<not> isWhitelisted cfg ev u"
  then have ce: "content_event cfg ev opts = Inl UrlNotAllowlisted"
    by (simp add: content_event_def)
  fix f b
  show "fst (render cfg ev opts st) \<noteq> Image f b" by (rule render_never_image [OF ce])
next
  assume a: "ALLOW_URL cfg \<and> truthy (templateName opts) = None \<and> truthy (html opts) = None \<and>
    truthy (url opts) = Some u \<and> \<not> isWhitelisted cfg ev u"
  then have ce: "content_event cfg ev opts = Inl UrlNotAllowlisted"
    by (simp add: content_event_def)
  show "\<exists>T. trace (snd (render cfg ev opts st)) = trace st @ T \<and> (\<forall>u' w. Goto u' w \<notin> set T)"
    by (rule render_no_goto [OF ce])
next
  assume a: "ALLOW_URL cfg \<and> truthy (templateName opts) = None \<and> truthy (html opts) = None \<and>
    truthy (url opts) = Some u \<and> \<not> isWhitelisted cfg ev u"
  then have ce: "content_event cfg ev opts = Inl UrlNotAllowlisted"
    by (simp add: content_event_def)
  assume b: "RenderSchema ev opts \<and> engine_ok ev \<and> resolve_size cfg ev opts = Inr vp \<and>
       resolve_clip cfg opts = Inr cl"
  then show "render cfg ev opts st = (Bad_request ''URL not in allowlist'', refused_session cfg opts vp st)"
    using render_refused [of ev opts cfg vp cl UrlNotAllowlisted st] ce
    by (simp add: render_failed_def UrlNotAllowlisted_def)
qed

theorem allowlist_wildcard_and_refusal_witness:
  "isWhitelisted wildcard_config example_env ''https://cdn.example.com/a.png'' \<and>
   \<not> isWhitelisted wildcard_config example_env ''https://example.org/'' \<and>
   render wildcard_config example_env (empty_opts\<lparr>url := Some ''https://example.org/''\<rparr>) idle =
     (Bad_request ''URL not in allowlist'',
      \<lparr>browser = True,
       trace = [GetBrowser, Launch, NewContext (Num 1), Route, NewPage, SetViewportSize (Num 1200) (Num 630),
                EmulateMedia, SetDefaultTimeout 15000, PageClose, ContextClose]\<rparr>)"
proof -
  let ?o = "empty_opts\<lparr>url := Some ''https://example.org/''\<rparr>"
  have w1: "isWhitelisted wildcard_config example_env ''https://cdn.example.com/a.png''"
    by (simp add: wildcard_config_def default_config_def example_env_def isWhitelisted_def
        hostnameOf_def suffix_to_prefix)
  have w2: "\<not> isWhitelisted wildcard_config example_env ''https://example.org/''"
    by (simp add: wildcard_config_def default_config_def example_env_def isWhitelisted_def
        hostnameOf_def suffix_to_prefix)
  have pre: "ALLOW_URL wildcard_config \<and> truthy (templateName ?o) = None \<and>
     truthy (html ?o) = None \<and> truthy (url ?o) = Some ''https://example.org/'' \<and>
     \<not> isWhitelisted wildcard_config example_env ''https://example.org/''"
    using w2 by (simp add: wildcard_config_def default_config_def empty_opts_def truthy_def)
  have "RenderSchema example_env ?o"
    by (simp add: RenderSchema_def empty_opts_def in_range_def example_env_def)
  moreover have "resolve_size wildcard_config example_env ?o = Inr \<lparr>v_width = Num 1200, v_height = Num 630\<rparr>"
    by (simp add: empty_opts_def resolve_size_def apply_size_preset_def truthy_def
        enforceSize_def or_else_def number_simps wildcard_config_def default_config_def)
  moreover have "resolve_clip wildcard_config ?o = Inr No_clip"
    by (simp add: empty_opts_def truthy_def resolve_clip_def)
  ultimately have rs: "RenderSchema example_env ?o \<and> engine_ok example_env \<and>
     resolve_size wildcard_config example_env ?o = Inr \<lparr>v_width = Num 1200, v_height = Num 630\<rparr> \<and>
     resolve_clip wildcard_config ?o = Inr No_clip"
    using engine_ok_example by simp
  show ?thesis
    using w1 w2 pre rs
      allowlist_wildcard_and_refusal [of wildcard_config example_env "''https://example.org/''"
        ?o idle "\<lparr>v_width = Num 1200, v_height = Num 630\<rparr>" No_clip]
    by (simp add: refused_session_def idle_def acquire_events_def request_timeout_def
        empty_opts_def wildcard_config_def default_config_def)
qed

text \<open>
  C5, as stated, fails: with \<^verbatim>\<open>ALLOW_URL=false\<close> a request that supplies only a URL is
  refused, but by then the browser has been launched and a context, its route interceptor
  and a page have been created for the request.
\<close>

theorem url_disabled_reaches_interception:
  "\<not> ALLOW_URL default_config \<and>
   fst (render default_config example_env url_opts idle) =
     Bad_request ''URL rendering disabled by server configuration'' \<and>
   Launch \<in> set (trace (snd (render default_config example_env url_opts idle))) \<and>
   NewContext (Num 1) \<in> set (trace (snd (render default_config example_env url_opts idle))) \<and>
   Route \<in> set (trace (snd (render default_config example_env url_opts idle)))"
  by (simp add: url_opts_refused) (simp add: default_config_def)

text \<open>
  C5, amended. A request that reaches the URL branch while URL rendering is disabled never
  yields an image and never navigates (\<^verbatim>\<open>page.goto\<close> is not called). When the browser
  calls resolve, the answer is the message \<^verbatim>\<open>URL rendering disabled by server
  configuration\<close>, given after the session has been set up (browser acquired, context,
  route interceptor and page created, viewport, media and timeout set) and page and
  context have been closed.
\<close>

theorem url_disabled_refused_inside_session:
  "\<not> ALLOW_URL cfg \<and> truthy (templateName opts) = None \<and> truthy (html opts) = None \<and>
   truthy (url opts) = Some u \<longrightarrow>
     (\<forall>f b. fst (render cfg ev opts st) \<noteq> Image f b) \<and>
     (\<exists>T. trace (snd (render cfg ev opts st)) = trace st @ T \<and> (\<forall>u' w. Goto u' w \<notin> set T)) \<and>
     (RenderSchema ev opts \<and> engine_ok ev \<and> resolve_size cfg ev opts = Inr vp \<and>
      resolve_clip cfg opts = Inr cl \<longrightarrow>
        render cfg ev opts st =
          (Bad_request ''URL rendering disabled by server configuration'',
           refused_session cfg opts vp st))"
proof (intro impI)
  assume "\<not> ALLOW_URL cfg \<and> truthy (templateName opts) = None \<and> truthy (html opts) = None \<and>
   truthy (url opts) = Some u"
  then have ce: "content_event cfg ev opts = Inl UrlRenderingDisabled"
    by (simp add: content_event_def)
  have "\<forall>f b. fst (render cfg ev opts st) \<noteq> Image f b"
    using render_never_image [OF ce] by blast
  moreover have "\<exists>T. trace (snd (render cfg ev opts st)) = trace st @ T \<and>
      (\<forall>u' w. Goto u' w \<notin> set T)"
    by (rule render_no_goto [OF ce])
  moreover have "RenderSchema ev opts \<and> engine_ok ev \<and> resolve_size cfg ev opts = Inr vp \<and>
      resolve_clip cfg opts = Inr cl \<longrightarrow>
        render cfg ev opts st =
          (Bad_request ''URL rendering disabled by server configuration'',
           refused_session cfg opts vp st)"
    using render_refused [of ev opts cfg vp cl UrlRenderingDisabled st] ce
    by (simp add: render_failed_def UrlRenderingDisabled_def)
  ultimately show "(\<forall>f b. fst (render cfg ev opts st) \<noteq> Image f b) \<and>
     (\<exists>T. trace (snd (render cfg ev opts st)) = trace st @ T \<and> (\<forall>u' w. Goto u' w \<notin> set T)) \<and>
     (RenderSchema ev opts \<and> engine_ok ev \<and> resolve_size cfg ev opts = Inr vp \<and>
      resolve_clip cfg opts = Inr cl \<longrightarrow>
        render cfg ev opts st =
          (Bad_request ''URL rendering disabled by server configuration'',
           refused_session cfg opts vp st))"
    by blast
qed

theorem url_disabled_refused_inside_session_witness:
  "\<not> ALLOW_URL default_config \<and> truthy (url url_opts) = Some ''https://example.com/'' \<and>
   RenderSchema example_env url_opts \<and> engine_ok example_env \<and>
   render default_config example_env url_opts idle =
     (Bad_request ''URL rendering disabled by server configuration'',
      refused_session default_config url_opts \<lparr>v_width = Num 1200, v_height = Num 630\<rparr> idle)"
  using url_disabled_refused_inside_session [of default_config url_opts "''https://example.com/''"
      example_env idle "\<lparr>v_width = Num 1200, v_height = Num 630\<rparr>" No_clip]
    url_opts_source url_opts_schema engine_ok_example url_opts_size url_opts_clip
  by (simp add: default_config_def)

text \<open>
  C6, as stated, fails: with \<^verbatim>\<open>BLOCK_EXTERNAL=false\<close> the interceptor lets a request to
  any host through, although URL rendering is disabled and the host is not allowlisted.
\<close>

theorem unblocked_external_request_continues:
  "\<not> ALLOW_URL open_config \<and>
   \<not> isWhitelisted open_config example_env ''https://tracker.example.net/pixel.gif'' \<and>
   \<not> prefix ''data:'' ''https://tracker.example.net/pixel.gif'' \<and>
   \<not> prefix ''blob:'' ''https://tracker.example.net/pixel.gif'' \<and>
   route_handler open_config example_env ''https://tracker.example.net/pixel.gif'' = Continue"
  by (simp add: open_config_def default_config_def route_handler_def isWhitelisted_def
      hostnameOf_def example_env_def)

text \<open>
  C6, amended. The interceptor lets every request through when \<^verbatim>\<open>BLOCK_EXTERNAL\<close> is
  off. When it is on, \<^verbatim>\<open>data:\<close> and \<^verbatim>\<open>blob:\<close> URIs are let through unconditionally,
  any other URI exactly when URL rendering is enabled and the target is allowlisted, and
  every other request is aborted.
\<close>

theorem route_interceptor_policy:
  "(\<not> BLOCK_EXTERNAL cfg \<longrightarrow> route_handler cfg ev u = Continue) \<and>
   (prefix ''data:'' u \<or> prefix ''blob:'' u \<longrightarrow> route_handler cfg ev u = Continue) \<and>
   (BLOCK_EXTERNAL cfg \<and> \<not> prefix ''data:'' u \<and> \<not> prefix ''blob:'' u \<longrightarrow>
      (route_handler cfg ev u = Continue \<longleftrightarrow> ALLOW_URL cfg \<and> isWhitelisted cfg ev u)) \<and>
   (route_handler cfg ev u \<noteq> Continue \<longrightarrow> route_handler cfg ev u = Abort)"
proof (cases "BLOCK_EXTERNAL cfg")
  case False
  then have "route_handler cfg ev u = Continue" by (simp add: route_handler_def)
  with False show ?thesis by simp
next
  case blocking: True
  show ?thesis
  proof (cases "prefix ''data:'' u \<or> prefix ''blob:'' u")
    case True
    then have "route_handler cfg ev u = Continue" by (auto simp: route_handler_def)
    with blocking True show ?thesis by auto
  next
    case False
    with blocking have "route_handler cfg ev u =
        (if ALLOW_URL cfg \<and> isWhitelisted cfg ev u then Continue else Abort)"
      by (simp add: route_handler_def)
    with blocking False show ?thesis by simp
  qed
qed

theorem route_interceptor_policy_witness:
  "BLOCK_EXTERNAL wildcard_config \<and>
   route_handler wildcard_config example_env ''data:image/png;base64,AAAA'' = Continue \<and>
   route_handler wildcard_config example_env ''https://cdn.example.com/a.png'' = Continue \<and>
   route_handler wildcard_config example_env ''https://example.org/'' = Abort \<and>
   route_handler open_config example_env ''https://example.org/'' = Continue"
proof -
  have b: "BLOCK_EXTERNAL wildcard_config" "ALLOW_URL wildcard_config"
    "\<not> BLOCK_EXTERNAL open_config"
    by (simp_all add: wildcard_config_def open_config_def default_config_def)
  have w: "isWhitelisted wildcard_config example_env ''https://cdn.example.com/a.png''"
    "\<not> isWhitelisted wildcard_config example_env ''https://example.org/''"
    by (simp_all add: wildcard_config_def default_config_def example_env_def isWhitelisted_def
        hostnameOf_def suffix_to_prefix)
  show ?thesis
    using b w
      route_interceptor_policy [of wildcard_config example_env "''data:image/png;base64,AAAA''"]
      route_interceptor_policy [of wildcard_config example_env "''https://cdn.example.com/a.png''"]
      route_interceptor_policy [of wildcard_config example_env "''https://example.org/''"]
      route_interceptor_policy [of open_config example_env "''https://example.org/''"]
    by simp
qed

text \<open>
  C7. A source is supplied when the field is a non-empty string, which is what the code
  tests. With a template name, the step that loads the content is the rendering of that
  template followed by one \<^verbatim>\<open>page.setContent\<close> of the result, and the request is
  answered exactly as the same request with any other \<^verbatim>\<open>html\<close> and \<^verbatim>\<open>url\<close> fields (in
  particular, with none). Without a template name but with \<^verbatim>\<open>html\<close>, the step is one
  \<^verbatim>\<open>page.setContent\<close> of that HTML, and the request is answered exactly as the same
  request with any other \<^verbatim>\<open>url\<close> field. With neither, the step is the URL branch. In
  the first two cases, whatever the browser does, the only content call the request makes
  is the \<^verbatim>\<open>page.setContent\<close> of the winning source, and \<^verbatim>\<open>page.goto\<close> is never
  called; when the browser calls resolve, that call is made and an image is returned.
  The equalities hold for the handler over either \<^verbatim>\<open>withPage\<close>; the only condition
  on the ignored URL is that it passes the schema.
\<close>

theorem content_source_precedence:
  "(truthy (templateName opts) = Some name \<and> RenderSchema ev opts \<and> url_valid ev u \<longrightarrow>
      render_with wp cfg ev (opts\<lparr>html := h, url := u\<rparr>) st = render_with wp cfg ev opts st \<and>
      load_content cfg ev opts =
        (case template_render ev name (case templateData opts of None \<Rightarrow> [] | Some d \<Rightarrow> d) of
           Inl e \<Rightarrow> throw e
         | Inr page \<Rightarrow> call ev (SetContent (inject_css ev (css opts) page) (waitUntil opts))) \<and>
      (\<forall>page. template_render ev name (case templateData opts of None \<Rightarrow> [] | Some d \<Rightarrow> d) = Inr page \<longrightarrow>
         (\<exists>T. trace (snd (render cfg ev opts st)) = trace st @ T \<and>
              (\<forall>x \<in> set T. content_call x \<longrightarrow>
                 x = SetContent (inject_css ev (css opts) page) (waitUntil opts))) \<and>
         (engine_ok ev \<and> resolve_size cfg ev opts = Inr vp \<and> resolve_clip cfg opts = Inr cl \<longrightarrow>
            SetContent (inject_css ev (css opts) page) (waitUntil opts)
              \<in> set (trace (snd (render cfg ev opts st))) \<and>
            (\<exists>b. fst (render cfg ev opts st) = Image (format opts) b)))) \<and>
   (truthy (templateName opts) = None \<and> truthy (html opts) = Some markup \<and>
    RenderSchema ev opts \<and> url_valid ev u \<longrightarrow>
      render_with wp cfg ev (opts\<lparr>url := u\<rparr>) st = render_with wp cfg ev opts st \<and>
      load_content cfg ev opts =
        call ev (SetContent (inject_css ev (css opts) markup) (waitUntil opts)) \<and>
      (\<exists>T. trace (snd (render cfg ev opts st)) = trace st @ T \<and>
           (\<forall>x \<in> set T. content_call x \<longrightarrow>
              x = SetContent (inject_css ev (css opts) markup) (waitUntil opts))) \<and>
      (engine_ok ev \<and> resolve_size cfg ev opts = Inr vp \<and> resolve_clip cfg opts = Inr cl \<longrightarrow>
         SetContent (inject_css ev (css opts) markup) (waitUntil opts)
           \<in> set (trace (snd (render cfg ev opts st))) \<and>
         (\<exists>b. fst (render cfg ev opts st) = Image (format opts) b))) \<and>
   (truthy (templateName opts) = None \<and> truthy (html opts) = None \<and>
    truthy (url opts) = Some address \<longrightarrow>
      load_content cfg ev opts =
        (if \<not> ALLOW_URL cfg then throw UrlRenderingDisabled
         else if \<not> isWhitelisted cfg ev address then throw UrlNotAllowlisted
         else call ev (Goto address (waitUntil opts))))"
proof (intro conjI impI allI)
  assume a: "truthy (templateName opts) = Some name \<and> RenderSchema ev opts \<and> url_valid ev u"
  then have "RenderSchema ev (opts\<lparr>html := h, url := u\<rparr>)"
    by (simp add: RenderSchema_url)
  with a show "render_with wp cfg ev (opts\<lparr>html := h, url := u\<rparr>) st = render_with wp cfg ev opts st"
    by (intro render_with_cong) (simp_all add: resolve_ignores_sources render_page_template_wins)
  from a show "load_content cfg ev opts =
        (case template_render ev name (case templateData opts of None \<Rightarrow> [] | Some d \<Rightarrow> d) of
           Inl e \<Rightarrow> throw e
         | Inr page \<Rightarrow> call ev (SetContent (inject_css ev (css opts) page) (waitUntil opts)))"
    by (simp add: load_content_def)
next
  fix page
  assume a: "truthy (templateName opts) = Some name \<and> RenderSchema ev opts \<and> url_valid ev u"
    and p: "template_render ev name (case templateData opts of None \<Rightarrow> [] | Some d \<Rightarrow> d) = Inr page"
  then have ce: "content_event cfg ev opts =
      Inr (SetContent (inject_css ev (css opts) page) (waitUntil opts))"
    by (simp add: content_event_def)
  from render_content_calls [of cfg ev opts st] ce
  show "\<exists>T. trace (snd (render cfg ev opts st)) = trace st @ T \<and>
           (\<forall>x \<in> set T. content_call x \<longrightarrow>
              x = SetContent (inject_css ev (css opts) page) (waitUntil opts))"
    by auto
next
  fix page
  assume a: "truthy (templateName opts) = Some name \<and> RenderSchema ev opts \<and> url_valid ev u"
    and p: "template_render ev name (case templateData opts of None \<Rightarrow> [] | Some d \<Rightarrow> d) = Inr page"
    and e: "engine_ok ev \<and> resolve_size cfg ev opts = Inr vp \<and> resolve_clip cfg opts = Inr cl"
  then have ce: "content_event cfg ev opts =
      Inr (SetContent (inject_css ev (css opts) page) (waitUntil opts))"
    by (simp add: content_event_def)
  from a e have "RenderSchema ev opts" "engine_ok ev" "resolve_size cfg ev opts = Inr vp"
    "resolve_clip cfg opts = Inr cl" by simp_all
  from render_loads [OF this ce, of st]
  show "SetContent (inject_css ev (css opts) page) (waitUntil opts)
           \<in> set (trace (snd (render cfg ev opts st)))"
    and "\<exists>b. fst (render cfg ev opts st) = Image (format opts) b" by simp_all
next
  assume a: "truthy (templateName opts) = None \<and> truthy (html opts) = Some markup \<and>
    RenderSchema ev opts \<and> url_valid ev u"
  then have "RenderSchema ev (opts\<lparr>url := u\<rparr>)"
    by (simp add: RenderSchema_url)
  with a show "render_with wp cfg ev (opts\<lparr>url := u\<rparr>) st = render_with wp cfg ev opts st"
    by (intro render_with_cong) (simp_all add: resolve_ignores_sources render_page_html_wins)
  from a show "load_content cfg ev opts =
        call ev (SetContent (inject_css ev (css opts) markup) (waitUntil opts))"
    by (simp add: load_content_def)
  from a have ce: "content_event cfg ev opts =
      Inr (SetContent (inject_css ev (css opts) markup) (waitUntil opts))"
    by (simp add: content_event_def)
  from render_content_calls [of cfg ev opts st] ce
  show "\<exists>T. trace (snd (render cfg ev opts st)) = trace st @ T \<and>
           (\<forall>x \<in> set T. content_call x \<longrightarrow>
              x = SetContent (inject_css ev (css opts) markup) (waitUntil opts))"
    by auto
next
  assume a: "truthy (templateName opts) = None \<and> truthy (html opts) = Some markup \<and>
    RenderSchema ev opts \<and> url_valid ev u"
    and e: "engine_ok ev \<and> resolve_size cfg ev opts = Inr vp \<and> resolve_clip cfg opts = Inr cl"
  then have ce: "content_event cfg ev opts =
      Inr (SetContent (inject_css ev (css opts) markup) (waitUntil opts))"
    by (simp add: content_event_def)
  from a e have "RenderSchema ev opts" "engine_ok ev" "resolve_size cfg ev opts = Inr vp"
    "resolve_clip cfg opts = Inr cl" by simp_all
  from render_loads [OF this ce, of st]
  show "SetContent (inject_css ev (css opts) markup) (waitUntil opts)
           \<in> set (trace (snd (render cfg ev opts st)))"
    and "\<exists>b. fst (render cfg ev opts st) = Image (format opts) b" by simp_all
next
  assume "truthy (templateName opts) = None \<and> truthy (html opts) = None \<and>
    truthy (url opts) = Some address"
  then show "load_content cfg ev opts =
        (if \<not> ALLOW_URL cfg then throw UrlRenderingDisabled
         else if \<not> isWhitelisted cfg ev address then throw UrlNotAllowlisted
         else call ev (Goto address (waitUntil opts)))"
    by (simp add: load_content_def)
qed

theorem content_source_precedence_witness:
  "truthy (html both_opts) = Some ''<p>hi</p>'' \<and>
   truthy (url both_opts) = Some ''https://cdn.example.com/'' \<and>
   ALLOW_URL wildcard_config \<and>
   isWhitelisted wildcard_config example_env ''https://cdn.example.com/'' \<and>
   render wildcard_config example_env both_opts idle =
     render wildcard_config example_env html_opts idle \<and>
   SetContent ''<p>hi</p>'' Networkidle
     \<in> set (trace (snd (render wildcard_config example_env both_opts idle))) \<and>
   (\<forall>u w. Goto u w \<notin> set (trace (snd (render wildcard_config example_env both_opts idle))))"
proof -
  let ?vp = "\<lparr>v_width = Num 1200, v_height = Num 630\<rparr>"
  have t: "truthy (templateName both_opts) = None" "truthy (html both_opts) = Some ''<p>hi</p>''"
    "truthy (url both_opts) = Some ''https://cdn.example.com/''"
    "truthy (templateName html_opts) = None" "truthy (html html_opts) = Some ''<p>hi</p>''"
    by (simp_all add: both_opts_def html_opts_def empty_opts_def truthy_def)
  have s: "RenderSchema example_env both_opts" "RenderSchema example_env html_opts"
    "url_valid example_env (Some ''https://cdn.example.com/'')" "url_valid example_env None"
    by (simp_all add: RenderSchema_def both_opts_def html_opts_def empty_opts_def in_range_def
        url_valid_def example_env_def)
  have w: "ALLOW_URL wildcard_config"
    "isWhitelisted wildcard_config example_env ''https://cdn.example.com/''"
    by (simp_all add: wildcard_config_def default_config_def example_env_def isWhitelisted_def
        hostnameOf_def suffix_to_prefix)
  have r: "resolve_size wildcard_config example_env both_opts = Inr ?vp"
    "resolve_clip wildcard_config both_opts = Inr No_clip"
    by (simp_all add: both_opts_def html_opts_def empty_opts_def resolve_size_def
        apply_size_preset_def truthy_def enforceSize_def or_else_def number_simps
        wildcard_config_def default_config_def resolve_clip_def)
  have i: "inject_css example_env (css both_opts) ''<p>hi</p>'' = ''<p>hi</p>''"
    "waitUntil both_opts = Networkidle"
    by (simp_all add: inject_css_def both_opts_def html_opts_def empty_opts_def truthy_def)
  note same = content_source_precedence [where opts = html_opts and markup = "''<p>hi</p>''"
      and ev = example_env and u = "Some ''https://cdn.example.com/''"
      and wp = "withPage wildcard_config example_env" and cfg = wildcard_config and st = idle,
      THEN conjunct2, THEN conjunct1, THEN mp]
  note only = content_source_precedence [where opts = both_opts and markup = "''<p>hi</p>''"
      and ev = example_env and u = None
      and wp = "withPage wildcard_config example_env" and cfg = wildcard_config and st = idle
      and vp = ?vp and cl = No_clip,
      THEN conjunct2, THEN conjunct1, THEN mp]
  from same t(4,5) s(2,3)
  have a: "render wildcard_config example_env both_opts idle =
      render wildcard_config example_env html_opts idle"
    unfolding render_def both_opts_def by blast
  from only t(1,2) s(1,4) obtain T where
    T: "trace (snd (render wildcard_config example_env both_opts idle)) = trace idle @ T"
       "\<forall>x \<in> set T. content_call x \<longrightarrow> x = SetContent ''<p>hi</p>'' Networkidle"
    unfolding i by blast
  from only t(1,2) s(1,4) engine_ok_example r
  have b: "SetContent ''<p>hi</p>'' Networkidle
      \<in> set (trace (snd (render wildcard_config example_env both_opts idle)))"
    unfolding i by blast
  have c: "Goto u w \<notin> set (trace (snd (render wildcard_config example_env both_opts idle)))" for u w
    using T by (auto simp: idle_def)
  from t(2,3) w a b c show ?thesis by blast
qed

text \<open>
  C8, as stated, fails at two inputs. A request whose \<^verbatim>\<open>sizePreset\<close> is the empty
  string, a name the table does not have, is not refused: the handler goes on with the
  request's own width and height. And with \<^verbatim>\<open>MAX_WIDTH=1000\<close> the preset
  \<^verbatim>\<open>twitter_card\<close> resolves to 1000 by 630.
\<close>

theorem size_preset_fallback_and_clamp:
  "PRESETS_sizes documented_config [] = None \<and>
   resolve_size documented_config example_env
     (empty_opts\<lparr>sizePreset := Some [], width := Some 300, height := Some 200\<rparr>) =
     Inr \<lparr>v_width = Num 300, v_height = Num 200\<rparr> \<and>
   resolve_size narrow_config example_env (empty_opts\<lparr>sizePreset := Some ''twitter_card''\<rparr>) =
     Inr \<lparr>v_width = Num 1000, v_height = Num 630\<rparr>"
  by (simp add: documented_config_def narrow_config_def default_config_def empty_opts_def
      resolve_size_def apply_size_preset_def truthy_def enforceSize_def or_else_def number_simps
      js_get_def)

text \<open>
  C8, amended. For a request whose \<^verbatim>\<open>sizePreset\<close> is a non-empty string: when the
  table has no such name (and it is not the name of a member the table inherits as an
  object, about which nothing is said here), the handler answers \<^verbatim>\<open>Unknown sizePreset: name\<close> and makes
  no browser call, whatever \<^verbatim>\<open>withPage\<close> it is given; when the table has it, the
  size handed to \<^verbatim>\<open>enforceSize\<close> is the preset's, and the answer does not depend on
  the request's own width and height. With \<^verbatim>\<open>twitter_card\<close> at 1200 by 630 and limits
  that admit this size (as the default limits do), the viewport is 1200 by 630 whatever
  width and height the request carries.
\<close>

theorem size_preset_overrides:
  "truthy (sizePreset opts) = Some name \<longrightarrow>
     (PRESETS_sizes cfg name = None \<and> name \<notin> set Object_prototype_names \<and>
      RenderSchema ev opts \<longrightarrow>
        (\<forall>wp. render_with wp cfg ev opts st = (Bad_request (''Unknown sizePreset: '' @ name), st))) \<and>
     (\<forall>sp. PRESETS_sizes cfg name = Some sp \<longrightarrow>
        resolve_size cfg ev (opts\<lparr>width := w, height := h\<rparr>) =
          enforceSize cfg ev (sp_width sp) (sp_height sp) \<and>
        (RenderSchema ev opts \<and> in_range w 1 10000 \<and> in_range h 1 10000 \<longrightarrow>
           (\<forall>wp. render_with wp cfg ev (opts\<lparr>width := w, height := h\<rparr>) st =
                 render_with wp cfg ev opts st))) \<and>
     (PRESETS_sizes cfg name = Some \<lparr>sp_width = Some (Num 1200), sp_height = Some (Num 630)\<rparr> \<and>
      js_le (Num 1200) (MAX_WIDTH cfg) \<and> js_le (Num 630) (MAX_HEIGHT cfg) \<and>
      js_le (Num 756000) (MAX_PIXELS cfg) \<longrightarrow>
        resolve_size cfg ev (opts\<lparr>width := w, height := h\<rparr>) =
          Inr \<lparr>v_width = Num 1200, v_height = Num 630\<rparr>)"
proof (intro impI conjI allI)
  assume t: "truthy (sizePreset opts) = Some name"
  assume "PRESETS_sizes cfg name = None \<and> name \<notin> set Object_prototype_names \<and>
      RenderSchema ev opts"
  with t have "RenderSchema ev opts"
    "resolve_size cfg ev opts = Inl (Error (''Unknown sizePreset: '' @ name))"
    by (simp_all add: resolve_size_def apply_size_preset_def js_get_def)
  from render_with_rejected [OF this]
  show "render_with wp cfg ev opts st = (Bad_request (''Unknown sizePreset: '' @ name), st)"
    for wp
    by (simp add: render_failed_def)
next
  fix sp
  assume t: "truthy (sizePreset opts) = Some name" and p: "PRESETS_sizes cfg name = Some sp"
  show "resolve_size cfg ev (opts\<lparr>width := w, height := h\<rparr>) =
          enforceSize cfg ev (sp_width sp) (sp_height sp)"
    by (rule resolve_size_preset [OF t p])
next
  fix sp wp
  assume t: "truthy (sizePreset opts) = Some name" and p: "PRESETS_sizes cfg name = Some sp"
    and s: "RenderSchema ev opts \<and> in_range w 1 10000 \<and> in_range h 1 10000"
  show "render_with wp cfg ev (opts\<lparr>width := w, height := h\<rparr>) st = render_with wp cfg ev opts st"
  proof (rule render_with_cong)
    show "RenderSchema ev (opts\<lparr>width := w, height := h\<rparr>) = RenderSchema ev opts"
      using s by (simp add: RenderSchema_size)
    show "resolve_size cfg ev (opts\<lparr>width := w, height := h\<rparr>) = resolve_size cfg ev opts"
      by (simp add: resolve_size_preset [OF t p] resolve_size_preset_same [OF t p])
    show "resolve_clip cfg (opts\<lparr>width := w, height := h\<rparr>) = resolve_clip cfg opts"
      by (rule resolve_clip_ignores_size)
    show "render_page cfg ev (opts\<lparr>width := w, height := h\<rparr>) vp cl = render_page cfg ev opts vp cl"
      for vp cl by (rule render_page_ignores_size)
    show "format (opts\<lparr>width := w, height := h\<rparr>) = format opts" by simp
  qed
next
  assume t: "truthy (sizePreset opts) = Some name"
    and p: "PRESETS_sizes cfg name = Some \<lparr>sp_width = Some (Num 1200), sp_height = Some (Num 630)\<rparr> \<and>
      js_le (Num 1200) (MAX_WIDTH cfg) \<and> js_le (Num 630) (MAX_HEIGHT cfg) \<and>
      js_le (Num 756000) (MAX_PIXELS cfg)"
  then show "resolve_size cfg ev (opts\<lparr>width := w, height := h\<rparr>) =
          Inr \<lparr>v_width = Num 1200, v_height = Num 630\<rparr>"
    by (simp add: resolve_size_preset [OF t] enforceSize_def or_else_def Math_min_absorb
        js_times_def to_double_numeral js_le_not_greater)
qed

theorem size_preset_overrides_witness:
  "truthy (sizePreset (empty_opts\<lparr>sizePreset := Some ''twitter_card''\<rparr>)) = Some ''twitter_card'' \<and>
   resolve_size documented_config example_env
     (empty_opts\<lparr>sizePreset := Some ''twitter_card'', width := Some 300, height := Some 200\<rparr>) =
     Inr \<lparr>v_width = Num 1200, v_height = Num 630\<rparr> \<and>
   render documented_config example_env
     (empty_opts\<lparr>sizePreset := Some ''twitter_card'', width := Some 300, height := Some 200\<rparr>) idle =
   render documented_config example_env (empty_opts\<lparr>sizePreset := Some ''twitter_card''\<rparr>) idle \<and>
   render documented_config example_env (empty_opts\<lparr>sizePreset := Some ''instagram''\<rparr>) idle =
     (Bad_request ''Unknown sizePreset: instagram'', idle)"
proof -
  let ?o = "empty_opts\<lparr>sizePreset := Some ''twitter_card''\<rparr>"
  let ?u = "empty_opts\<lparr>sizePreset := Some ''instagram''\<rparr>"
  let ?sp = "\<lparr>sp_width = Some (Num 1200), sp_height = Some (Num 630)\<rparr>"
  have t: "truthy (sizePreset ?o) = Some ''twitter_card''"
    and t': "truthy (sizePreset ?u) = Some ''instagram''"
    by (simp_all add: truthy_def)
  have s: "RenderSchema example_env ?o \<and> in_range (Some 300) 1 10000 \<and> in_range (Some 200) 1 10000"
    and s': "RenderSchema example_env ?u"
    by (simp_all add: RenderSchema_def empty_opts_def in_range_def)
  have p: "PRESETS_sizes documented_config ''twitter_card'' = Some ?sp"
    and p': "PRESETS_sizes documented_config ''instagram'' = None \<and>
        ''instagram'' \<notin> set Object_prototype_names"
    and l: "js_le (Num 1200) (MAX_WIDTH documented_config) \<and>
        js_le (Num 630) (MAX_HEIGHT documented_config) \<and>
        js_le (Num 756000) (MAX_PIXELS documented_config)"
    by (simp_all add: documented_config_def default_config_def Object_prototype_names_def
        js_le_def)
  note known = size_preset_overrides [where opts = ?o and name = "''twitter_card''"
      and cfg = documented_config and ev = example_env and st = idle and w = "Some 300"
      and h = "Some 200", THEN mp, OF t]
  note unknown = size_preset_overrides [where opts = ?u and name = "''instagram''"
      and cfg = documented_config and ev = example_env and st = idle and w = None
      and h = None, THEN mp, OF t']
  from known p l have a: "resolve_size documented_config example_env
      (?o\<lparr>width := Some 300, height := Some 200\<rparr>) = Inr \<lparr>v_width = Num 1200, v_height = Num 630\<rparr>"
    by blast
  from known p s have b: "render documented_config example_env
      (?o\<lparr>width := Some 300, height := Some 200\<rparr>) idle =
      render documented_config example_env ?o idle"
    unfolding render_def by blast
  from unknown p' s' have c: "render documented_config example_env ?u idle =
      (Bad_request (''Unknown sizePreset: '' @ ''instagram''), idle)"
    unfolding render_def by blast
  from t a b c show ?thesis by simp
qed



text \<open>
  C10. The schema puts no condition on the clip rectangle: a request is valid or not
  whatever rectangle it carries. The resolved rectangle is the request's own when no clip
  preset applies and the preset's when one does; the limits \<open>MAX_WIDTH\<close>,
  \<open>MAX_HEIGHT\<close>, \<open>MAX_PIXELS\<close> and the requested size play no part in it. Under any
  behaviour of the browser, every screenshot call of the request carries exactly this
  rectangle; and when the browser calls resolve and content is loaded, the screenshot
  call is made with it.
\<close>

theorem clip_passed_through_unchecked:
  "(RenderSchema ev (opts\<lparr>clip := c\<rparr>) \<longleftrightarrow> RenderSchema ev opts) \<and>
   (truthy (clipPreset opts) = None \<longrightarrow>
      resolve_clip cfg opts = Inr (case clip opts of None \<Rightarrow> No_clip | Some r \<Rightarrow> Clip r)) \<and>
   (\<forall>name cp. truthy (clipPreset opts) = Some name \<and> PRESETS_clips cfg name = Some cp \<longrightarrow>
      resolve_clip cfg opts = Inr (Clip cp)) \<and>
   resolve_clip (cfg\<lparr>MAX_WIDTH := mw, MAX_HEIGHT := mh, MAX_PIXELS := mp\<rparr>)
      (opts\<lparr>width := w, height := h, sizePreset := sp\<rparr>) = resolve_clip cfg opts \<and>
   (\<forall>vp cl. resolve_size cfg ev opts = Inr vp \<and> resolve_clip cfg opts = Inr cl \<longrightarrow>
      (\<exists>T. trace (snd (render cfg ev opts st)) = trace st @ T \<and>
           (\<forall>so. Screenshot so \<in> set T \<longrightarrow> shot_clip so = cl)) \<and>
      (RenderSchema ev opts \<and> engine_ok ev \<and> \<not> isl (content_event cfg ev opts) \<longrightarrow>
         Screenshot (shot_options opts cl) \<in> set (trace (snd (render cfg ev opts st))) \<and>
         shot_clip (shot_options opts cl) = cl))"
proof (intro conjI allI impI)
  show "RenderSchema ev (opts\<lparr>clip := c\<rparr>) \<longleftrightarrow> RenderSchema ev opts"
    by (simp add: RenderSchema_def)
next
  assume "truthy (clipPreset opts) = None"
  then show "resolve_clip cfg opts = Inr (case clip opts of None \<Rightarrow> No_clip | Some r \<Rightarrow> Clip r)"
    by (simp add: resolve_clip_def)
next
  fix name cp
  assume "truthy (clipPreset opts) = Some name \<and> PRESETS_clips cfg name = Some cp"
  then show "resolve_clip cfg opts = Inr (Clip cp)" by (simp add: resolve_clip_def js_get_def)
next
  show "resolve_clip (cfg\<lparr>MAX_WIDTH := mw, MAX_HEIGHT := mh, MAX_PIXELS := mp\<rparr>)
      (opts\<lparr>width := w, height := h, sizePreset := sp\<rparr>) = resolve_clip cfg opts"
    by (simp add: resolve_clip_def cong: option.case_cong)
next
  fix vp cl
  assume r: "resolve_size cfg ev opts = Inr vp \<and> resolve_clip cfg opts = Inr cl"
  then have vp: "resolve_size cfg ev opts = Inr vp" and cl: "resolve_clip cfg opts = Inr cl"
    by simp_all
  from render_trace [OF vp, of st] cl obtain T where
    T: "trace (snd (render cfg ev opts st)) = trace st @ T"
       "list_all (within_request cfg ev opts vp cl) T" by blast
  from T(2) have "\<forall>so. Screenshot so \<in> set T \<longrightarrow> shot_clip so = cl"
    by (auto simp: list_all_iff shot_options_def)
  with T(1) show "\<exists>T. trace (snd (render cfg ev opts st)) = trace st @ T \<and>
           (\<forall>so. Screenshot so \<in> set T \<longrightarrow> shot_clip so = cl)" by blast
next
  fix vp cl
  assume r: "resolve_size cfg ev opts = Inr vp \<and> resolve_clip cfg opts = Inr cl"
    and s: "RenderSchema ev opts \<and> engine_ok ev \<and> \<not> isl (content_event cfg ev opts)"
  then obtain c where c: "content_event cfg ev opts = Inr c"
    by (cases "content_event cfg ev opts") auto
  from r s render_served [of ev opts cfg vp cl c st] c
  have "trace (snd (render cfg ev opts st)) = trace (served_session cfg ev opts vp cl st)"
    by simp
  then show "Screenshot (shot_options opts cl) \<in> set (trace (snd (render cfg ev opts st)))"
    by (simp add: served_session_def page_script_def c)
next
  fix vp cl
  show "shot_clip (shot_options opts cl) = cl" by (simp add: shot_options_def)
qed

theorem clip_passed_through_unchecked_witness:
  "clip_x wild_clip < 0 \<and> js_less (MAX_WIDTH default_config) (Num (clip_width wild_clip)) \<and>
   RenderSchema example_env clipped_opts \<and>
   Screenshot \<lparr>shot_type = Png, shot_quality = None, shot_fullPage = False,
      shot_omitBackground = False, shot_clip = Clip wild_clip\<rparr>
     \<in> set (trace (snd (render default_config example_env clipped_opts idle)))"
proof -
  have w: "clip_x wild_clip < 0 \<and> js_less (MAX_WIDTH default_config) (Num (clip_width wild_clip))"
    by (simp add: wild_clip_def default_config_def)
  have n: "\<not> isl (content_event default_config example_env clipped_opts)"
    by (simp add: clipped_opts_facts(4))
  have so: "shot_options clipped_opts (Clip wild_clip) =
      \<lparr>shot_type = Png, shot_quality = None, shot_fullPage = False,
       shot_omitBackground = False, shot_clip = Clip wild_clip\<rparr>"
    by (simp add: shot_options_def clipped_opts_def empty_opts_def)
  from clip_passed_through_unchecked [where cfg = default_config and ev = example_env
      and opts = clipped_opts and st = idle]
    clipped_opts_facts(1-3) engine_ok_example n
  have "Screenshot (shot_options clipped_opts (Clip wild_clip))
      \<in> set (trace (snd (render default_config example_env clipped_opts idle)))"
    by blast
  with w clipped_opts_facts(1) so show ?thesis by simp
qed

end
